theory Spec2Isabelle
  imports Main "HOL-Library.Word"
begin

unbundle bit_operations_syntax

section \<open>The zcurses module (Src/Modules/curses.c): data model\<close>

text \<open>
  The module keeps its state in file-level statics: the list of windows, the hash table
  of colour pairs, \<open>zc_errno\<close>, \<open>zc_color_phase\<close> and \<open>next_cp\<close>. The model threads one
  record through every function. Calls into the curses library (and into the shell's
  allocator and parameter code) are appended to a trace, oldest first; what such a call
  returns is not determined by the module, so it is read from an environment, as a
  function of the calls made so far and of the call itself.
\<close>

type_synonym handle = nat
  \<comment> \<open>a non-NULL \<open>WINDOW *\<close>\<close>

type_synonym short = "16 word"
  \<comment> \<open>C \<open>short\<close>, read with \<open>sint\<close>\<close>

text \<open>\<open>enum zc_win_flags\<close>\<close>

definition ZCWF_PERMANENT :: "32 word" where
  "ZCWF_PERMANENT = 1"

definition ZCWF_SCROLL :: "32 word" where
  "ZCWF_SCROLL = 2"

text \<open>\<open>struct zc_win\<close>\<close>

record zc_win =
  win :: handle
  name :: string
  flags :: "32 word"

definition ZCURSES_EINVALID :: int where
  "ZCURSES_EINVALID = 1"

definition ZCURSES_EDEFINED :: int where
  "ZCURSES_EDEFINED = 2"

definition ZCURSES_EUNDEFINED :: int where
  "ZCURSES_EUNDEFINED = 3"

definition ZCURSES_UNUSED :: int where
  "ZCURSES_UNUSED = 1"

definition ZCURSES_USED :: int where
  "ZCURSES_USED = 2"

definition ZCURSES_ATTRON :: int where
  "ZCURSES_ATTRON = 1"

definition ZCURSES_ATTROFF :: int where
  "ZCURSES_ATTROFF = 2"

datatype ttyslot = Saved_tty_state | Curses_tty_state

text \<open>The calls the module makes to code outside this file.\<close>

datatype call =
    Zshcalloc
  | Zalloc
  | Gettyinfo ttyslot
  | Settyinfo ttyslot
  | Initscr
  | Start_color
  | Cbreak
  | Noecho
  | Newwin int int int int
  | Delwin handle
  | Init_pair short short short
  | Wcolor_set handle short
  | Wattron handle int
  | Wattroff handle int
  | Scrollok handle bool
  | Wscrl handle int
  | Keypad handle bool
  | Wgetch handle
  | Setsparam string string

text \<open>The diagnostics of \<open>zwarnnam\<close> and \<open>zerrnam\<close>, one constructor for each format string.\<close>

datatype diag =
    Win_error string string
      \<comment> \<open>\<open>"%s: %s"\<close>, the text of \<open>zcurses_strerror(zc_errno)\<close> and the window name\<close>
  | Cant_be_deleted string
  | Fg_not_known string
  | Bg_not_known string
  | Attr_not_known string
  | Scroll_requires string
  | Too_few_arguments
  | Cant_be_used_before_init

text \<open>
  What one read of a key gives, after the conversion the module applies. With
  \<open>HAVE_WGET_WCH\<close>: \<open>wget_wch\<close> returning \<open>OK\<close> gives the metafied multibyte text of the
  character, \<open>KEY_CODE_YES\<close> gives the code \<open>(int)wi\<close>, anything else is an error.
  Without it: \<open>wgetch\<close> returning \<open>ERR\<close> is an error, a value of 256 or more is a key
  code, a smaller one is a character (metafied when \<open>imeta\<close>).
\<close>

datatype key_read = Read_err | Read_char string | Read_key int

record zstate =
  zcurses_windows :: "zc_win list"
  zcurses_colorpairs :: "(string \<rightharpoonup> short) option"
    \<comment> \<open>\<open>None\<close> is the NULL pointer the static starts with\<close>
  zc_errno :: int
  zc_color_phase :: int
  next_cp :: short
  params :: "string \<rightharpoonup> string"
    \<comment> \<open>the shell's scalar parameters, as far as \<open>setsparam\<close> writes them\<close>
  trace :: "call list"
  diags :: "diag list"

text \<open>
  What the module does not decide. \<open>lib_ok h c\<close> says whether the call \<open>c\<close>, made after the
  calls \<open>h\<close>, reports success (\<open>OK\<close>, a non-NULL pointer); \<open>lib_win h c\<close> is the window
  pointer that \<open>initscr\<close> or \<open>newwin\<close> returns there, \<open>None\<close> for NULL; \<open>lib_read h c\<close>
  is the key that the read \<open>c\<close> delivers. \<open>COLOR_PAIRS\<close> is
  the curses variable of that name. \<open>keypad_names\<close> is the table of the generated header
  \<open>curses_keys.h\<close>, without its \<open>{NULL, 0}\<close> terminator. \<open>atoi\<close> and \<open>zstrtol\<close> are the
  conversions of the C library and of the shell; \<open>zstrtol\<close> returns the value and the
  unread rest of the string (\<open>endptr\<close>).
\<close>

record env =
  lib_ok :: "call list \<Rightarrow> call \<Rightarrow> bool"
  lib_win :: "call list \<Rightarrow> call \<Rightarrow> handle option"
  lib_read :: "call list \<Rightarrow> call \<Rightarrow> key_read"
  COLOR_PAIRS :: int
  keypad_names :: "(string \<times> int) list"
  atoi :: "string \<Rightarrow> int"
  zstrtol :: "string \<Rightarrow> int \<times> string"

definition libcall :: "env \<Rightarrow> zstate \<Rightarrow> call \<Rightarrow> bool \<times> zstate" where
  "libcall e st c = (lib_ok e (trace st) c, st\<lparr>trace := trace st @ [c]\<rparr>)"

definition libwin :: "env \<Rightarrow> zstate \<Rightarrow> call \<Rightarrow> handle option \<times> zstate" where
  "libwin e st c = (lib_win e (trace st) c, st\<lparr>trace := trace st @ [c]\<rparr>)"

definition libread :: "env \<Rightarrow> zstate \<Rightarrow> call \<Rightarrow> key_read \<times> zstate" where
  "libread e st c = (lib_read e (trace st) c, st\<lparr>trace := trace st @ [c]\<rparr>)"

definition zwarnnam :: "zstate \<Rightarrow> diag \<Rightarrow> zstate" where
  "zwarnnam st d = st\<lparr>diags := diags st @ [d]\<rparr>"

section \<open>The window registry\<close>

definition zcurses_strerror :: "int \<Rightarrow> string" where
  "zcurses_strerror err =
     [''unknown error'', ''window name invalid'', ''window already defined'',
      ''window undefined''] ! (if err < 1 \<or> 3 < err then 0 else nat err)"

text \<open>
  \<open>zcurses_getwindowbyname\<close>: the first node whose window has the name. A \<open>LinkNode\<close> is
  modelled by its position in the list, NULL by \<open>None\<close>.
\<close>

fun zcurses_getwindowbyname :: "zc_win list \<Rightarrow> string \<Rightarrow> nat option" where
  "zcurses_getwindowbyname [] nm = None"
| "zcurses_getwindowbyname (w # ws) nm =
     (if name w = nm then Some 0 else map_option Suc (zcurses_getwindowbyname ws nm))"

text \<open>
  \<open>zcurses_validate_window\<close>. The name is \<open>None\<close> for a NULL pointer. The result is the
  node and the state with \<open>zc_errno\<close> set.
\<close>

definition zcurses_validate_window :: "zstate \<Rightarrow> string option \<Rightarrow> int \<Rightarrow> nat option \<times> zstate" where
  "zcurses_validate_window st wn criteria =
     (case wn of
        None \<Rightarrow> (None, st\<lparr>zc_errno := ZCURSES_EINVALID\<rparr>)
      | Some nm \<Rightarrow>
          if length nm < 1 then (None, st\<lparr>zc_errno := ZCURSES_EINVALID\<rparr>)
          else
            let target = zcurses_getwindowbyname (zcurses_windows st) nm in
            if target \<noteq> None \<and> criteria AND ZCURSES_UNUSED \<noteq> 0
              then (None, st\<lparr>zc_errno := ZCURSES_EDEFINED\<rparr>)
            else if target = None \<and> criteria AND ZCURSES_USED \<noteq> 0
              then (None, st\<lparr>zc_errno := ZCURSES_EUNDEFINED\<rparr>)
            else (target, st\<lparr>zc_errno := 0\<rparr>))"

text \<open>
  Modelled from the spec: the linked list of the shell (\<open>linklist.c\<close>, which is not among the
  sources here), as the "insertion-ordered sequence of Windows" of the spec.
  \<open>zinsertlinknode\<close> after \<open>lastnode\<close> appends; \<open>remnode\<close> unlinks the node at a position.
\<close>

definition remnode :: "'a list \<Rightarrow> nat \<Rightarrow> 'a list" where
  "remnode xs i = take i xs @ drop (Suc i) xs"

text \<open>
  \<open>zccmd_addwin\<close>. The dispatcher \<open>bin_zcurses\<close> calls it with exactly five arguments, so
  they are taken one by one. The result is the return value and the new state.
\<close>

definition zccmd_addwin ::
    "env \<Rightarrow> zstate \<Rightarrow> string \<Rightarrow> string \<Rightarrow> string \<Rightarrow> string \<Rightarrow> string \<Rightarrow> int \<times> zstate" where
  "zccmd_addwin e st a0 a1 a2 a3 a4 =
     (let (node, st1) = zcurses_validate_window st (Some a0) ZCURSES_UNUSED in
      if node = None \<and> zc_errno st1 \<noteq> 0
        then (1, zwarnnam st1 (Win_error (zcurses_strerror (zc_errno st1)) a0))
      else
        let nlines = atoi e a1; ncols = atoi e a2; begin_y = atoi e a3; begin_x = atoi e a4;
            (w_ok, st2) = libcall e st1 Zshcalloc in
        if \<not> w_ok then (1, st2)
        else
          let (wp, st3) = libwin e st2 (Newwin nlines ncols begin_y begin_x) in
          case wp of
            None \<Rightarrow> (1, st3)
          | Some h \<Rightarrow>
              (0, st3\<lparr>zcurses_windows :=
                        zcurses_windows st3 @ [\<lparr>win = h, name = a0, flags = 0\<rparr>]\<rparr>))"

text \<open>
  \<open>zccmd_delwin\<close>. Every node of the list carries a window record (only \<open>zccmd_init\<close> and
  \<open>zccmd_addwin\<close> insert, and both insert a non-NULL record), so the branch for a NULL
  record is not reachable and has no counterpart here.
\<close>

definition zccmd_delwin :: "env \<Rightarrow> zstate \<Rightarrow> string \<Rightarrow> int \<times> zstate" where
  "zccmd_delwin e st a0 =
     (let (node, st1) = zcurses_validate_window st (Some a0) ZCURSES_USED in
      case node of
        None \<Rightarrow> (1, zwarnnam st1 (Win_error (zcurses_strerror (zc_errno st1)) a0))
      | Some i \<Rightarrow>
          let w = zcurses_windows st1 ! i in
          if flags w AND ZCWF_PERMANENT \<noteq> 0 then (1, zwarnnam st1 (Cant_be_deleted a0))
          else
            let (d_ok, st2) = libcall e st1 (Delwin (win w)) in
            if \<not> d_ok then (1, st2)
            else (0, st2\<lparr>zcurses_windows := remnode (zcurses_windows st2) i\<rparr>))"

section \<open>Name tables\<close>

text \<open>
  \<open>zcurses_attributes\<close> and \<open>zcurses_colors\<close>, without their \<open>{NULL, 0}\<close> terminators. The
  numbers are the values of the macros in ncurses' \<open>curses.h\<close> (\<open>A_BLINK\<close> is bit 19,
  \<open>A_BOLD\<close> bit 21, \<open>A_DIM\<close> bit 20, \<open>A_REVERSE\<close> bit 18, \<open>A_STANDOUT\<close> bit 16,
  \<open>A_UNDERLINE\<close> bit 17; \<open>COLOR_BLACK\<close> to \<open>COLOR_WHITE\<close> are 0 to 7).
\<close>

definition zcurses_attributes :: "(string \<times> int) list" where
  "zcurses_attributes =
     [(''blink'', 524288), (''bold'', 2097152), (''dim'', 1048576), (''reverse'', 262144),
      (''standout'', 65536), (''underline'', 131072)]"

definition zcurses_colors :: "(string \<times> int) list" where
  "zcurses_colors =
     [(''black'', 0), (''red'', 1), (''green'', 2), (''yellow'', 3), (''blue'', 4),
      (''magenta'', 5), (''cyan'', 6), (''white'', 7)]"

text \<open>The search loop over a table of \<open>struct zcurses_namenumberpair\<close>, by name.\<close>

fun find_name :: "(string \<times> int) list \<Rightarrow> string \<Rightarrow> int option" where
  "find_name [] s = None"
| "find_name ((n, k) # t) s = (if s = n then Some k else find_name t s)"

text \<open>The search loop of \<open>zccmd_input\<close> over \<open>keypad_names\<close>, by number.\<close>

fun find_number :: "(string \<times> int) list \<Rightarrow> int \<Rightarrow> string option" where
  "find_number [] k = None"
| "find_number ((n, j) # t) k = (if k = j then Some n else find_number t k)"

text \<open>
  \<open>zcurses_attribute\<close>. Its only caller passes a non-NULL \<open>attr\<close>. The results of
  \<open>wattron\<close> and \<open>wattroff\<close> are not looked at.
\<close>

definition zcurses_attribute :: "env \<Rightarrow> zstate \<Rightarrow> handle \<Rightarrow> string \<Rightarrow> int \<Rightarrow> int \<times> zstate" where
  "zcurses_attribute e st w attr op =
     (case find_name zcurses_attributes attr of
        None \<Rightarrow> (1, st)
      | Some number \<Rightarrow>
          (0, if op = ZCURSES_ATTRON then snd (libcall e st (Wattron w number))
              else if op = ZCURSES_ATTROFF then snd (libcall e st (Wattroff w number))
              else st))"

definition zcurses_color :: "string \<Rightarrow> short" where
  "zcurses_color color =
     (case find_name zcurses_colors color of Some k \<Rightarrow> word_of_int k | None \<Rightarrow> - 1)"

section \<open>The colour pair cache\<close>

text \<open>
  Modelled from the spec: the hash table of the shell (\<open>newhashtable\<close>, \<open>gethashnode\<close>,
  \<open>addhashnode\<close> in \<open>hashtable.c\<close>, which is not among the sources here), as the "mapping
  from a composite key to an assigned integer pair identifier" of the spec: a new table
  is empty, a look-up is by the exact key string, and adding a node for a key that has
  one replaces it.
\<close>

definition newhashtable :: "string \<rightharpoonup> short" where
  [simp]: "newhashtable = Map.empty"

definition gethashnode :: "(string \<rightharpoonup> short) \<Rightarrow> string \<Rightarrow> short option" where
  [simp]: "gethashnode ht nam = ht nam"

definition addhashnode :: "(string \<rightharpoonup> short) \<Rightarrow> string \<Rightarrow> short \<Rightarrow> (string \<rightharpoonup> short)" where
  [simp]: "addhashnode ht nam cpn = ht(nam \<mapsto> cpn)"

text \<open>\<open>strchr\<close>: the position of the first occurrence, \<open>None\<close> for NULL.\<close>

fun strchr :: "string \<Rightarrow> char \<Rightarrow> nat option" where
  "strchr [] c = None"
| "strchr (x # xs) c = (if x = c then Some 0 else map_option Suc (strchr xs c))"

text \<open>
  The last line of \<open>zcurses_colorset\<close>: \<open>wcolor_set\<close> with the pair of the node, and the
  return value 1 when it reports \<open>ERR\<close>.
\<close>

definition colorset_apply :: "env \<Rightarrow> zstate \<Rightarrow> handle \<Rightarrow> short \<Rightarrow> int \<times> zstate" where
  "colorset_apply e st w colorpair =
     (let (c_ok, st1) = libcall e st (Wcolor_set w colorpair) in
      (if c_ok then 0 else 1, st1))"

text \<open>
  The body of the \<open>if\<close> of \<open>zcurses_colorset\<close>: the phase is set to 2 first, the key is
  split at its first slash, both names are looked up, the counter is advanced, and only
  then are the capacity and \<open>init_pair\<close> asked. \<open>addhashnode\<close> replaces the node of a key
  that is already in the table. The result is \<open>None\<close> where the C code dereferences the
  NULL hash table.
\<close>

definition colorset_alloc :: "env \<Rightarrow> zstate \<Rightarrow> handle \<Rightarrow> string \<Rightarrow> (int \<times> zstate) option" where
  "colorset_alloc e st w colorpair =
     (let st1 = st\<lparr>zc_color_phase := 2\<rparr> in
      case strchr colorpair (CHR ''/'') of
        None \<Rightarrow> Some (1, st1)
      | Some i \<Rightarrow>
          let cp = take i colorpair; bg1 = drop (Suc i) colorpair;
              f = zcurses_color cp; b = zcurses_color bg1 in
          if f = - 1 \<or> b = - 1 then
            Some (1, st1\<lparr>diags := diags st1
                          @ (if f = - 1 then [Fg_not_known cp] else [])
                          @ (if b = - 1 then [Bg_not_known bg1] else [])\<rparr>)
          else
            let st2 = st1\<lparr>next_cp := next_cp st1 + 1\<rparr> in
            if COLOR_PAIRS e \<le> sint (next_cp st2) then Some (1, st2)
            else
              let (i_ok, st3) = libcall e st2 (Init_pair (next_cp st2) f b) in
              if \<not> i_ok then Some (1, st3)
              else
                let (a_ok, st4) = libcall e st3 Zalloc in
                if \<not> a_ok then Some (1, st4)
                else
                  (case zcurses_colorpairs st4 of
                     None \<Rightarrow> None
                   | Some ht \<Rightarrow>
                       Some (colorset_apply e
                               (st4\<lparr>zcurses_colorpairs := Some (addhashnode ht colorpair (next_cp st4))\<rparr>)
                               w (next_cp st4))))"

text \<open>
  \<open>zcurses_colorset\<close>. In phase 1 the table is not consulted (the \<open>||\<close> does not evaluate its
  right operand); otherwise \<open>gethashnode\<close> looks the whole key string up.
\<close>

definition zcurses_colorset :: "env \<Rightarrow> zstate \<Rightarrow> handle \<Rightarrow> string \<Rightarrow> (int \<times> zstate) option" where
  "zcurses_colorset e st w colorpair =
     (if zc_color_phase st = 1 then colorset_alloc e st w colorpair
      else
        case zcurses_colorpairs st of
          None \<Rightarrow> None
        | Some ht \<Rightarrow>
            (case gethashnode ht colorpair of
               None \<Rightarrow> colorset_alloc e st w colorpair
             | Some cpn \<Rightarrow> Some (colorset_apply e st w cpn)))"

section \<open>Subcommands\<close>

text \<open>\<open>zccmd_init\<close>. \<open>newhashtable\<close> gives a new, empty table each time it is reached.\<close>

definition zccmd_init :: "env \<Rightarrow> zstate \<Rightarrow> int \<times> zstate" where
  "zccmd_init e st =
     (case zcurses_getwindowbyname (zcurses_windows st) ''stdscr'' of
        Some _ \<Rightarrow> (0, snd (libcall e st (Settyinfo Curses_tty_state)))
      | None \<Rightarrow>
          let (w_ok, st1) = libcall e st Zshcalloc in
          if \<not> w_ok then (1, st1)
          else
            let st2 = snd (libcall e st1 (Gettyinfo Saved_tty_state));
                (wp, st3) = libwin e st2 Initscr in
            (case wp of
               None \<Rightarrow> (1, st3)
             | Some h \<Rightarrow>
                let st4 = st3\<lparr>zcurses_windows := zcurses_windows st3
                                  @ [\<lparr>win = h, name = ''stdscr'', flags = ZCWF_PERMANENT\<rparr>]\<rparr>;
                    (c_ok, st5) = libcall e st4 Start_color;
                    st6 = (if c_ok then
                             st5\<lparr>zc_color_phase :=
                                    (if zc_color_phase st5 = 0 then 1 else zc_color_phase st5),
                                  zcurses_colorpairs := Some newhashtable\<rparr>
                           else st5);
                    st7 = snd (libcall e st6 Cbreak);
                    st8 = snd (libcall e st7 Noecho);
                    st9 = snd (libcall e st8 (Gettyinfo Curses_tty_state))
                in (0, st9)))"

text \<open>
  The body of the loop of \<open>zccmd_attr\<close> for one token. The first component of the result is
  1 where the body assigns \<open>ret = 1\<close> and 0 where it leaves \<open>ret\<close> alone. \<open>*attrs[0]\<close> is the
  first character of the current token, the terminating NUL for an empty token.
\<close>

definition attr_token :: "env \<Rightarrow> zstate \<Rightarrow> handle \<Rightarrow> string \<Rightarrow> (int \<times> zstate) option" where
  "attr_token e st w a =
     (if strchr a (CHR ''/'') \<noteq> None then
        (case zcurses_colorset e st w a of
           None \<Rightarrow> None
         | Some (r, st1) \<Rightarrow> Some (if r \<noteq> 0 then 1 else 0, st1))
      else
        let (onoff, ptr) =
              (case a of
                 [] \<Rightarrow> (ZCURSES_ATTRON, a)
               | c # rest \<Rightarrow>
                   if c = CHR ''-'' then (ZCURSES_ATTROFF, rest)
                   else if c = CHR ''+'' then (ZCURSES_ATTRON, rest)
                   else (ZCURSES_ATTRON, a));
            (r, st1) = zcurses_attribute e st w ptr onoff
        in if r \<noteq> 0 then Some (1, zwarnnam st1 (Attr_not_known ptr)) else Some (0, st1))"

text \<open>The loop of \<open>zccmd_attr\<close> over the tokens, with \<open>ret\<close> as the accumulator.\<close>

fun attr_loop :: "env \<Rightarrow> handle \<Rightarrow> string list \<Rightarrow> int \<times> zstate \<Rightarrow> (int \<times> zstate) option" where
  "attr_loop e w [] rs = Some rs"
| "attr_loop e w (a # as) (ret, st) =
     (case attr_token e st w a of
        None \<Rightarrow> None
      | Some (f, st1) \<Rightarrow> attr_loop e w as (if f \<noteq> 0 then 1 else ret, st1))"

text \<open>
  \<open>zccmd_attr\<close>: the window name (\<open>None\<close> for the NULL the function tests for) and the
  tokens \<open>args+1\<close>.
\<close>

definition zccmd_attr :: "env \<Rightarrow> zstate \<Rightarrow> string option \<Rightarrow> string list \<Rightarrow> (int \<times> zstate) option" where
  "zccmd_attr e st a0 attrs =
     (case a0 of
        None \<Rightarrow> Some (1, st)
      | Some nm \<Rightarrow>
          let (node, st1) = zcurses_validate_window st (Some nm) ZCURSES_USED in
          (case node of
             None \<Rightarrow> Some (1, zwarnnam st1 (Win_error (zcurses_strerror (zc_errno st1)) nm))
           | Some i \<Rightarrow> attr_loop e (win (zcurses_windows st1 ! i)) attrs (0, st1)))"

text \<open>
  \<open>zccmd_scroll\<close>. The \<open>zlong\<close> that \<open>zstrtol\<close> returns is cut to an \<open>int\<close> for \<open>wscrl\<close>. In
  the numeric branch the results of both \<open>scrollok\<close> calls are not looked at.
\<close>

definition zccmd_scroll :: "env \<Rightarrow> zstate \<Rightarrow> string \<Rightarrow> string \<Rightarrow> int \<times> zstate" where
  "zccmd_scroll e st a0 a1 =
     (let (node, st1) = zcurses_validate_window st (Some a0) ZCURSES_USED in
      case node of
        None \<Rightarrow> (1, zwarnnam st1 (Win_error (zcurses_strerror (zc_errno st1)) a0))
      | Some i \<Rightarrow>
          let w = zcurses_windows st1 ! i in
          if a1 = ''on'' then
            (let (s_ok, st2) = libcall e st1 (Scrollok (win w) True) in
             if \<not> s_ok then (1, st2)
             else (0, st2\<lparr>zcurses_windows :=
                             (zcurses_windows st2)[i := w\<lparr>flags := flags w OR ZCWF_SCROLL\<rparr>]\<rparr>))
          else if a1 = ''off'' then
            (let (s_ok, st2) = libcall e st1 (Scrollok (win w) False) in
             if \<not> s_ok then (1, st2)
             else (0, st2\<lparr>zcurses_windows :=
                             (zcurses_windows st2)[i := w\<lparr>flags := flags w AND NOT ZCWF_SCROLL\<rparr>]\<rparr>))
          else
            (let (sl, endptr) = zstrtol e a1 in
             if endptr \<noteq> [] then (1, zwarnnam st1 (Scroll_requires a1))
             else
               let st2 = (if flags w AND ZCWF_SCROLL = 0
                          then snd (libcall e st1 (Scrollok (win w) True)) else st1);
                   (s_ok, st3) = libcall e st2 (Wscrl (win w) (sint (word_of_int sl :: 32 word)));
                   st4 = (if flags w AND ZCWF_SCROLL = 0
                          then snd (libcall e st3 (Scrollok (win w) False)) else st3)
               in (if s_ok then 0 else 1, st4)))"

section \<open>The key decoder\<close>

text \<open>\<open>KEY_F0\<close> of \<open>curses.h\<close>, octal 0410.\<close>

definition KEY_F0 :: int where
  "KEY_F0 = 264"

text \<open>\<open>sprintf\<close> with \<open>"%d"\<close>.\<close>

definition digit :: "nat \<Rightarrow> char" where
  "digit d = ''0123456789'' ! d"

fun dec_nat :: "nat \<Rightarrow> string" where
  "dec_nat n = (if n < 10 then [digit n] else dec_nat (n div 10) @ [digit (n mod 10)])"

definition dec :: "int \<Rightarrow> string" where
  "dec i = (if i < 0 then CHR ''-'' # dec_nat (nat (- i)) else dec_nat (nat i))"

text \<open>
  \<open>setsparam\<close>: whether the assignment is accepted is the shell's decision; when it is,
  the parameter has the value.
\<close>

definition setsparam :: "env \<Rightarrow> zstate \<Rightarrow> string \<Rightarrow> string \<Rightarrow> bool \<times> zstate" where
  "setsparam e st var val =
     (let (p_ok, st1) = libcall e st (Setsparam var val) in
      (p_ok, if p_ok then st1\<lparr>params := (params st1)(var \<mapsto> val)\<rparr> else st1))"

text \<open>
  \<open>zccmd_input\<close>: the window name, and the two optional parameter names (\<open>None\<close> for the
  NULL that ends the argument array). \<open>keypadnum\<close> starts as -1 and is set by a key code
  only.
\<close>

definition zccmd_input ::
    "env \<Rightarrow> zstate \<Rightarrow> string \<Rightarrow> string option \<Rightarrow> string option \<Rightarrow> int \<times> zstate" where
  "zccmd_input e st a0 a1 a2 =
     (let (node, st1) = zcurses_validate_window st (Some a0) ZCURSES_USED in
      case node of
        None \<Rightarrow> (1, zwarnnam st1 (Win_error (zcurses_strerror (zc_errno st1)) a0))
      | Some i \<Rightarrow>
          let w = zcurses_windows st1 ! i;
              st2 = snd (libcall e st1 (Keypad (win w) (a1 \<noteq> None \<and> a2 \<noteq> None)));
              (rd, st3) = libread e st2 (Wgetch (win w))
          in
          if rd = Read_err then (1, st3)
          else
            let (instr, keypadnum) =
                  (case rd of Read_char s \<Rightarrow> (s, - 1) | Read_key k \<Rightarrow> ([], k) | Read_err \<Rightarrow> ([], - 1));
                var = (case a1 of Some v \<Rightarrow> v | None \<Rightarrow> ''REPLY'');
                (p_ok, st4) = setsparam e st3 var instr
            in
            if \<not> p_ok then (1, st4)
            else
              (case (a1, a2) of
                 (Some v1, Some v2) \<Rightarrow>
                   if 0 < keypadnum then
                     (case find_number (keypad_names e) keypadnum of
                        Some nm \<Rightarrow>
                          (let (q_ok, st5) = setsparam e st4 v2 nm
                           in (if \<not> q_ok then 1 else 0, st5))
                      | None \<Rightarrow>
                          let fbuf = (if KEY_F0 < keypadnum then ''F'' @ dec (keypadnum - KEY_F0)
                                      else dec keypadnum);
                              (q_ok, st5) = setsparam e st4 v2 fbuf
                          in (if \<not> q_ok then 1 else 0, st5))
                   else
                     (let (q_ok, st5) = setsparam e st4 v2 []
                      in (if \<not> q_ok then 1 else 0, st5))
               | _ \<Rightarrow> (0, st4)))"

section \<open>The dispatcher\<close>

text \<open>
  The subcommands modelled here, each with the arguments \<open>bin_zcurses\<close> admits for it (its
  table gives \<open>init\<close> none, \<open>addwin\<close> five, \<open>delwin\<close> one, \<open>attr\<close> two or more, \<open>scroll\<close> two,
  \<open>input\<close> one to three). The other subcommands (\<open>refresh\<close>, \<open>move\<close>, \<open>clear\<close>, \<open>position\<close>,
  \<open>char\<close>, \<open>string\<close>, \<open>border\<close>, \<open>end\<close>) write none of the module's statics but \<open>zc_errno\<close>.
\<close>

datatype cmd =
    Cmd_init
  | Cmd_addwin string string string string string
  | Cmd_delwin string
  | Cmd_attr string "string list"
  | Cmd_scroll string string
  | Cmd_input string "string option" "string option"

text \<open>
  \<open>bin_zcurses\<close>, after the lookup of the subcommand: the test of the number of arguments
  (which only \<open>attr\<close> without a token can fail here), the test that \<open>stdscr\<close> exists for
  every subcommand but \<open>init\<close>, and the call of the handler.
\<close>

definition bin_zcurses :: "env \<Rightarrow> zstate \<Rightarrow> cmd \<Rightarrow> (int \<times> zstate) option" where
  "bin_zcurses e st c =
     (if (case c of Cmd_attr a0 attrs \<Rightarrow> attrs = [] | _ \<Rightarrow> False)
        then Some (1, zwarnnam st Too_few_arguments)
      else if c \<noteq> Cmd_init \<and> zcurses_getwindowbyname (zcurses_windows st) ''stdscr'' = None
        then Some (1, zwarnnam st Cant_be_used_before_init)
      else
        case c of
          Cmd_init \<Rightarrow> Some (zccmd_init e st)
        | Cmd_addwin a0 a1 a2 a3 a4 \<Rightarrow> Some (zccmd_addwin e st a0 a1 a2 a3 a4)
        | Cmd_delwin a0 \<Rightarrow> Some (zccmd_delwin e st a0)
        | Cmd_attr a0 attrs \<Rightarrow> zccmd_attr e st (Some a0) attrs
        | Cmd_scroll a0 a1 \<Rightarrow> Some (zccmd_scroll e st a0 a1)
        | Cmd_input a0 a1 a2 \<Rightarrow> Some (zccmd_input e st a0 a1 a2))"

text \<open>
  A script: the commands one after the other, with the return value of each. \<open>None\<close> when
  one of them dereferences the NULL hash table.
\<close>

fun run :: "env \<Rightarrow> cmd list \<Rightarrow> zstate \<Rightarrow> (int list \<times> zstate) option" where
  "run e [] st = Some ([], st)"
| "run e (c # cs) st =
     (case bin_zcurses e st c of
        None \<Rightarrow> None
      | Some (r, st1) \<Rightarrow>
          (case run e cs st1 of
             None \<Rightarrow> None
           | Some (rs, st2) \<Rightarrow> Some (r # rs, st2)))"

text \<open>The state the statics are initialised to.\<close>

definition zstate0 :: zstate where
  "zstate0 = \<lparr>zcurses_windows = [], zcurses_colorpairs = None, zc_errno = 0,
               zc_color_phase = 0, next_cp = 0, params = Map.empty, trace = [], diags = []\<rparr>"

text \<open>
  For the examples: a reading of decimal numbers as \<open>atoi\<close> and the shell's \<open>zstrtol\<close> with
  base 10 do it for a number that an \<open>int\<close> holds. Leading white space is skipped (\<open>isspace\<close>
  for \<open>atoi\<close>, blank and tab for \<open>zstrtol\<close>), then comes an optional sign, then the digits;
  what follows the digits is the unread rest.
\<close>

definition digit_val :: "char \<Rightarrow> nat option" where
  "digit_val = map_of [(CHR ''0'', 0), (CHR ''1'', 1), (CHR ''2'', 2), (CHR ''3'', 3),
                       (CHR ''4'', 4), (CHR ''5'', 5), (CHR ''6'', 6), (CHR ''7'', 7),
                       (CHR ''8'', 8), (CHR ''9'', 9)]"

fun read_digits :: "string \<Rightarrow> int \<Rightarrow> int \<times> string" where
  "read_digits [] acc = (acc, [])"
| "read_digits (c # cs) acc =
     (case digit_val c of
        None \<Rightarrow> (acc, c # cs)
      | Some d \<Rightarrow> read_digits cs (10 * acc + int d))"

definition read_number :: "char list \<Rightarrow> string \<Rightarrow> int \<times> string" where
  "read_number blanks s =
     (case dropWhile (\<lambda>c. c \<in> set blanks) s of
        [] \<Rightarrow> (0, [])
      | c # cs \<Rightarrow>
          if c = CHR ''-'' then (let (v, r) = read_digits cs 0 in (- v, r))
          else if c = CHR ''+'' then read_digits cs 0
          else read_digits (c # cs) 0)"

definition atoi_dec :: "string \<Rightarrow> int" where
  "atoi_dec s = fst (read_number [CHR '' '', CHR 0x09, CHR 0x0A, CHR 0x0B, CHR 0x0C, CHR 0x0D] s)"

definition zstrtol_dec :: "string \<Rightarrow> int \<times> string" where
  "zstrtol_dec s = read_number [CHR '' '', CHR 0x09] s"

text \<open>
  A library that accepts every call, for the examples: \<open>initscr\<close> and \<open>newwin\<close> return a
  pointer not returned before, and every read delivers the key code 274. \<open>keypad_names\<close>
  has twenty rows of the table, with the codes that ncurses' \<open>curses.h\<close> gives the \<open>KEY_\<close>
  macros: the arrow keys, \<open>KEY_F0\<close>, the editing keys and the page keys (the function
  keys after \<open>KEY_F0\<close> have no macro of their own, and so no row).
\<close>

definition env_ok :: env where
  "env_ok = \<lparr>lib_ok = (\<lambda>h c. True), lib_win = (\<lambda>h c. Some (length h)),
             lib_read = (\<lambda>h c. Read_key 274), COLOR_PAIRS = 64,
             keypad_names =
               [(''BREAK'', 257), (''DOWN'', 258), (''UP'', 259), (''LEFT'', 260),
                (''RIGHT'', 261), (''HOME'', 262), (''BACKSPACE'', 263), (''F0'', 264),
                (''DL'', 328), (''IL'', 329), (''DC'', 330), (''IC'', 331), (''EIC'', 332),
                (''CLEAR'', 333), (''EOS'', 334), (''EOL'', 335), (''SF'', 336), (''SR'', 337),
                (''NPAGE'', 338), (''PPAGE'', 339)],
             atoi = atoi_dec, zstrtol = zstrtol_dec\<rparr>"

text \<open>A library that accepts every call but \<open>delwin\<close>, \<open>init_pair\<close> and \<open>wcolor_set\<close>.\<close>

definition env_err :: env where
  "env_err = env_ok\<lparr>lib_ok :=
     (\<lambda>h c. case c of Delwin w \<Rightarrow> False | Init_pair p f b \<Rightarrow> False
                     | Wcolor_set w p \<Rightarrow> False | _ \<Rightarrow> True)\<rparr>"

section \<open>Notions and examples used in the statements\<close>

text \<open>The state after \<open>zcurses init\<close>, and after \<open>zcurses addwin w 10 40 0 0\<close> on top of it.\<close>

definition s_init :: zstate where
  "s_init = snd (zccmd_init env_ok zstate0)"

definition s_w :: zstate where
  "s_w = snd (zccmd_addwin env_ok s_init ''w'' ''10'' ''40'' ''0'' ''0'')"

text \<open>
  A session has been started: \<open>stdscr\<close> is in the list, and the node that its name finds is
  the permanent window that \<open>zccmd_init\<close> inserts.
\<close>

definition session :: "zstate \<Rightarrow> bool" where
  "session st =
     (case zcurses_getwindowbyname (zcurses_windows st) ''stdscr'' of
        None \<Rightarrow> False
      | Some i \<Rightarrow> flags (zcurses_windows st ! i) AND ZCWF_PERMANENT \<noteq> 0)"

text \<open>The window \<open>w\<close> of the example with scrolling switched on by \<open>zcurses scroll w on\<close>.\<close>

definition s_on :: zstate where
  "s_on = snd (zccmd_scroll env_ok s_w ''w'' ''on'')"

text \<open>A library like \<open>env_ok\<close> whose reads deliver the key code \<open>KEY_F0\<close> itself.\<close>

definition env_f0 :: env where
  "env_f0 = env_ok\<lparr>lib_read := (\<lambda>h c. Read_key 264)\<rparr>"


text \<open>
  The tokens taken one at a time, each as the loop body does it on the state the one
  before left, with the list of what each reported.
\<close>

fun attr_each :: "env \<Rightarrow> handle \<Rightarrow> string list \<Rightarrow> zstate \<Rightarrow> (int list \<times> zstate) option" where
  "attr_each e w [] st = Some ([], st)"
| "attr_each e w (a # as) st =
     (case attr_token e st w a of
        None \<Rightarrow> None
      | Some (f, st1) \<Rightarrow>
          (case attr_each e w as st1 of
             None \<Rightarrow> None
           | Some (fs, st2) \<Rightarrow> Some (f # fs, st2)))"

text \<open>The attribute name of a token: the token without a leading sign.\<close>

definition attr_name :: "string \<Rightarrow> string" where
  "attr_name a = (case a of [] \<Rightarrow> [] | c # rest \<Rightarrow> if c = CHR ''-'' \<or> c = CHR ''+'' then rest else a)"

text \<open>
  The colours of a key, as \<open>zcurses_colorset\<close> finds them: the key is cut at its first
  slash and both parts are colour names. \<open>None\<close> for a key the function rejects before
  it advances the counter.
\<close>

definition key_colors :: "string \<Rightarrow> (short \<times> short) option" where
  "key_colors k =
     (case strchr k (CHR ''/'') of
        None \<Rightarrow> None
      | Some i \<Rightarrow>
          let f = zcurses_color (take i k); b = zcurses_color (drop (Suc i) k)
          in if f = - 1 \<or> b = - 1 then None else Some (f, b))"

text \<open>
  Resolving a list of keys on one window, one \<open>zcurses_colorset\<close> after the other, with the
  return value of each.
\<close>

fun resolve_all :: "env \<Rightarrow> handle \<Rightarrow> string list \<Rightarrow> zstate \<Rightarrow> (int list \<times> zstate) option" where
  "resolve_all e w [] st = Some ([], st)"
| "resolve_all e w (k # ks) st =
     (case zcurses_colorset e st w k of
        None \<Rightarrow> None
      | Some (r, st1) \<Rightarrow>
          (case resolve_all e w ks st1 of
             None \<Rightarrow> None
           | Some (rs, st2) \<Rightarrow> Some (r # rs, st2)))"

text \<open>A library like \<open>env_ok\<close> on a terminal with three colour pairs: 0, 1 and 2.\<close>

definition env_cap3 :: env where
  "env_cap3 = env_ok\<lparr>COLOR_PAIRS := 3\<rparr>"

text \<open>
  In a state that a script reaches from the initial one, the table is still NULL in phase 0
  and is empty in phase 1: \<open>zccmd_init\<close> makes a new table in the branch that starts
  phase 1.
\<close>

definition table_fresh :: "zstate \<Rightarrow> bool" where
  "table_fresh s =
     ((zc_color_phase s = 0 \<longrightarrow> zcurses_colorpairs s = None) \<and>
      (zc_color_phase s = 1 \<longrightarrow> zcurses_colorpairs s = Some Map.empty))"

text \<open>The key \<open>k\<close> is in the table with the identifier \<open>p\<close>, and the bypass phase is over.\<close>

definition cached :: "string \<Rightarrow> short \<Rightarrow> zstate \<Rightarrow> bool" where
  "cached k p s =
     (zc_color_phase s \<noteq> 1 \<and>
      (case zcurses_colorpairs s of None \<Rightarrow> False | Some ht \<Rightarrow> ht k = Some p))"

text \<open>
  The window \<open>w\<close> of the example after \<open>zcurses attr w red/blue\<close>, the first resolution of
  the session.
\<close>

definition s_rb :: zstate where
  "s_rb = s_w\<lparr>zc_color_phase := 2, next_cp := 1,
              zcurses_colorpairs := Some [''red/blue'' \<mapsto> 1],
              trace := trace s_w @ [Init_pair 1 1 4, Zalloc, Wcolor_set 8 1]\<rparr>"

text \<open>
  The identifiers that the capacity test still lets through: those from \<open>next_cp + 1\<close> to
  \<open>COLOR_PAIRS - 1\<close>.
\<close>

definition pairs_left :: "env \<Rightarrow> zstate \<Rightarrow> nat" where
  "pairs_left e st = nat (COLOR_PAIRS e - 1 - sint (next_cp st))"

text \<open>
  The call that took \<open>st\<close> to \<open>st1\<close> has allocated a pair for the key \<open>k\<close>: the counter is one
  further, and the table holds \<open>k\<close> with the new value of the counter.
\<close>

definition allocated :: "zstate \<Rightarrow> string \<Rightarrow> zstate \<Rightarrow> bool" where
  "allocated st k st1 =
     (next_cp st1 = next_cp st + 1 \<and>
      (case zcurses_colorpairs st1 of None \<Rightarrow> False | Some ht \<Rightarrow> ht k = Some (next_cp st1)))"

text \<open>The keys are resolved one after the other, and each of them is allocated a pair.\<close>

fun allocates_all :: "env \<Rightarrow> handle \<Rightarrow> string list \<Rightarrow> zstate \<Rightarrow> bool" where
  "allocates_all e w [] st = True"
| "allocates_all e w (k # ks) st =
     (case zcurses_colorset e st w k of
        None \<Rightarrow> False
      | Some (r, st1) \<Rightarrow> allocated st k st1 \<and> allocates_all e w ks st1)"

text \<open>
  From the state \<open>st\<close>, \<open>n\<close> further distinct keys can be allocated: there are \<open>n\<close> distinct
  keys and a behaviour of the library, on a terminal with the same \<open>COLOR_PAIRS\<close>, with
  which each of them is allocated a pair.
\<close>

definition can_allocate :: "env \<Rightarrow> zstate \<Rightarrow> nat \<Rightarrow> bool" where
  "can_allocate e st n =
     (\<exists>e' w ks. COLOR_PAIRS e' = COLOR_PAIRS e \<and> length ks = n \<and> distinct ks \<and>
                allocates_all e' w ks st)"

text \<open>The well-formed keys that are not in the table.\<close>

definition free_keys :: "zstate \<Rightarrow> string set" where
  "free_keys st =
     {k. key_colors k \<noteq> None \<and>
         (case zcurses_colorpairs st of None \<Rightarrow> False | Some ht \<Rightarrow> ht k = None)}"

text \<open>The smaller of the number of identifiers left and the number of keys left.\<close>

definition keys_left :: "env \<Rightarrow> zstate \<Rightarrow> nat" where
  "keys_left e st = min (pairs_left e st) (card (free_keys st))"

text \<open>A library like \<open>env_err\<close> on a terminal with 200 colour pairs.\<close>

definition env_err200 :: env where
  "env_err200 = env_err\<lparr>COLOR_PAIRS := 200\<rparr>"

text \<open>A library like \<open>env_ok\<close> on a terminal with two colour pairs: 0 and 1.\<close>

definition env_cap2 :: env where
  "env_cap2 = env_ok\<lparr>COLOR_PAIRS := 2\<rparr>"

text \<open>The state after \<open>zcurses init\<close> and \<open>zcurses attr stdscr red/blue\<close>.\<close>

definition s_one :: zstate where
  "s_one = s_init\<lparr>zc_color_phase := 2, next_cp := 1,
                  zcurses_colorpairs := Some [''red/blue'' \<mapsto> 1],
                  trace := trace s_init @ [Init_pair 1 1 4, Zalloc, Wcolor_set 2 1]\<rparr>"

text \<open>
  A library like \<open>env_ok\<close> on a terminal where \<open>start_color\<close> fails, and the state after
  \<open>zcurses init\<close> there: the table pointer is still NULL.
\<close>

definition env_mono :: env where
  "env_mono = env_ok\<lparr>lib_ok := (\<lambda>h c. c \<noteq> Start_color)\<rparr>"

definition s_mono :: zstate where
  "s_mono = snd (zccmd_init env_mono zstate0)"

section \<open>Properties of the registry\<close>

lemma crit_simps:
  "ZCURSES_USED AND ZCURSES_UNUSED = 0" "ZCURSES_UNUSED \<noteq> 0"
  "ZCURSES_USED \<noteq> 0" "ZCURSES_UNUSED AND ZCURSES_USED = 0"
  by (simp_all add: ZCURSES_USED_def ZCURSES_UNUSED_def)

lemma getwindowbyname_bound:
  "zcurses_getwindowbyname ws nm = Some i \<Longrightarrow> i < length ws \<and> name (ws ! i) = nm"
  by (induction ws arbitrary: i) (auto split: if_splits)

lemma getwindowbyname_None:
  "zcurses_getwindowbyname ws nm = None \<longleftrightarrow> nm \<notin> name ` set ws"
  by (induction ws) auto

lemma getwindowbyname_append:
  "zcurses_getwindowbyname ws nm = Some i \<Longrightarrow> zcurses_getwindowbyname (ws @ xs) nm = Some i"
  by (induction ws arbitrary: i) (auto split: if_splits)

lemma getwindowbyname_names:
  "map name ws' = map name ws \<Longrightarrow> zcurses_getwindowbyname ws' nm = zcurses_getwindowbyname ws nm"
proof (induction ws arbitrary: ws')
  case Nil
  then show ?case by simp
next
  case (Cons w ws)
  then obtain v vs where ws': "ws' = v # vs" and v: "name v = name w" and vs: "map name vs = map name ws"
    by (cases ws') auto
  from Cons.IH [OF vs] show ?case
    unfolding ws' by (simp add: v)
qed

lemma validate_used:
  "zcurses_validate_window st (Some nm) ZCURSES_USED =
     (if nm = [] then (None, st\<lparr>zc_errno := ZCURSES_EINVALID\<rparr>)
      else case zcurses_getwindowbyname (zcurses_windows st) nm of
             None \<Rightarrow> (None, st\<lparr>zc_errno := ZCURSES_EUNDEFINED\<rparr>)
           | Some i \<Rightarrow> (Some i, st\<lparr>zc_errno := 0\<rparr>))"
  by (cases nm) (auto simp add: zcurses_validate_window_def crit_simps split: option.splits)

lemma validate_unused:
  "zcurses_validate_window st (Some nm) ZCURSES_UNUSED =
     (if nm = [] then (None, st\<lparr>zc_errno := ZCURSES_EINVALID\<rparr>)
      else case zcurses_getwindowbyname (zcurses_windows st) nm of
             None \<Rightarrow> (None, st\<lparr>zc_errno := 0\<rparr>)
           | Some i \<Rightarrow> (None, st\<lparr>zc_errno := ZCURSES_EDEFINED\<rparr>))"
  by (cases nm) (auto simp add: zcurses_validate_window_def crit_simps split: option.splits)

lemma strerror_simps:
  "zcurses_strerror ZCURSES_EINVALID = ''window name invalid''"
  "zcurses_strerror ZCURSES_EDEFINED = ''window already defined''"
  "zcurses_strerror ZCURSES_EUNDEFINED = ''window undefined''"
  by (simp_all add: zcurses_strerror_def ZCURSES_EINVALID_def ZCURSES_EDEFINED_def
      ZCURSES_EUNDEFINED_def)

lemma errno_nonzero:
  "ZCURSES_EINVALID \<noteq> 0" "ZCURSES_EDEFINED \<noteq> 0" "ZCURSES_EUNDEFINED \<noteq> 0"
  by (simp_all add: ZCURSES_EINVALID_def ZCURSES_EDEFINED_def ZCURSES_EUNDEFINED_def)

lemma addwin_defined:
  assumes "a0 \<noteq> []" and "a0 \<in> name ` set (zcurses_windows st)"
  shows "zccmd_addwin e st a0 a1 a2 a3 a4 =
           (1, st\<lparr>zc_errno := ZCURSES_EDEFINED,
                   diags := diags st @ [Win_error ''window already defined'' a0]\<rparr>)"
proof -
  from assms(2) obtain i where "zcurses_getwindowbyname (zcurses_windows st) a0 = Some i"
    using getwindowbyname_None [of "zcurses_windows st" a0] by (cases "zcurses_getwindowbyname (zcurses_windows st) a0") auto
  with assms(1) show ?thesis
    by (simp add: zccmd_addwin_def validate_unused zwarnnam_def strerror_simps errno_nonzero)
qed

lemma addwin_windows_case:
  "case zccmd_addwin e st a0 a1 a2 a3 a4 of (r, st') \<Rightarrow>
   (r = 1 \<and> zcurses_windows st' = zcurses_windows st) \<or>
   (r = 0 \<and> (\<exists>h. zcurses_windows st' = zcurses_windows st @ [\<lparr>win = h, name = a0, flags = 0\<rparr>]))"
  by (simp add: zccmd_addwin_def validate_unused zwarnnam_def libcall_def libwin_def Let_def
      split: option.split)

lemma delwin_windows_case:
  "case zccmd_delwin e st a0 of (r, st') \<Rightarrow>
   (r = 1 \<and> zcurses_windows st' = zcurses_windows st) \<or>
   (r = 0 \<and> a0 \<noteq> [] \<and> (\<exists>i. zcurses_getwindowbyname (zcurses_windows st) a0 = Some i \<and>
        flags (zcurses_windows st ! i) AND ZCWF_PERMANENT = 0 \<and>
        zcurses_windows st' = remnode (zcurses_windows st) i))"
  by (simp add: zccmd_delwin_def validate_used zwarnnam_def libcall_def Let_def
      split: option.split)

lemma init_windows_case:
  "case zccmd_init e st of (r, st') \<Rightarrow>
   zcurses_windows st' = zcurses_windows st \<or>
   (zcurses_getwindowbyname (zcurses_windows st) ''stdscr'' = None \<and> r = 0 \<and>
    (\<exists>h. zcurses_windows st' = zcurses_windows st @ [\<lparr>win = h, name = ''stdscr'', flags = ZCWF_PERMANENT\<rparr>]))"
  by (simp add: zccmd_init_def libcall_def libwin_def Let_def
      split: option.split)

section \<open>What each subcommand leaves alone\<close>

lemma perm_bit_scroll:
  "(f OR ZCWF_SCROLL) AND ZCWF_PERMANENT = f AND ZCWF_PERMANENT"
  "(f AND NOT ZCWF_SCROLL) AND ZCWF_PERMANENT = f AND ZCWF_PERMANENT"
  for f :: "32 word"
proof -
  have a: "(2 :: 32 word) AND 1 = 0" by simp
  have b: "NOT (2 :: 32 word) AND 1 = 1" by simp
  show "(f OR ZCWF_SCROLL) AND ZCWF_PERMANENT = f AND ZCWF_PERMANENT"
    by (simp add: ZCWF_SCROLL_def ZCWF_PERMANENT_def bit.conj_disj_distrib2 a)
  have "(f AND NOT 2) AND 1 = f AND (NOT 2 AND 1)"
    by (simp only: and.assoc)
  then show "(f AND NOT ZCWF_SCROLL) AND ZCWF_PERMANENT = f AND ZCWF_PERMANENT"
    by (simp only: ZCWF_SCROLL_def ZCWF_PERMANENT_def b)
qed

lemma map_update_same: "(map f ws)[i := f (ws ! i)] = map f ws"
  by (simp add: map_update [symmetric])

lemma perm_update_same:
  "(map (\<lambda>w. flags w AND ZCWF_PERMANENT) ws)[i := flags (ws ! i) AND ZCWF_PERMANENT] =
   map (\<lambda>w. flags w AND ZCWF_PERMANENT) ws"
  using map_update_same [of "\<lambda>w. flags w AND ZCWF_PERMANENT" ws i] by simp

lemma colorset_apply_frame:
  "colorset_apply e st w p = (r, st') \<Longrightarrow>
   zcurses_windows st' = zcurses_windows st \<and> zc_color_phase st' = zc_color_phase st \<and>
   zcurses_colorpairs st' = zcurses_colorpairs st \<and> next_cp st' = next_cp st \<and>
   trace st' = trace st @ [Wcolor_set w p] \<and> diags st' = diags st \<and>
   r = (if lib_ok e (trace st) (Wcolor_set w p) then 0 else 1)"
  by (auto simp add: colorset_apply_def libcall_def)

lemma colorset_alloc_frame:
  "colorset_alloc e st w k = Some (r, st') \<Longrightarrow>
   zcurses_windows st' = zcurses_windows st \<and> zc_color_phase st' = 2 \<and>
   (zcurses_colorpairs st' = zcurses_colorpairs st \<or>
    (\<exists>ht. zcurses_colorpairs st = Some ht \<and>
          zcurses_colorpairs st' = Some (ht(k \<mapsto> next_cp st + 1))))"
  by (auto simp add: colorset_alloc_def colorset_apply_def libcall_def Let_def
      split: option.splits if_splits)

lemma scroll_frame_case:
  "case zccmd_scroll e st a0 a1 of (r, st') \<Rightarrow>
     map name (zcurses_windows st') = map name (zcurses_windows st) \<and>
     map (\<lambda>w. flags w AND ZCWF_PERMANENT) (zcurses_windows st') =
       map (\<lambda>w. flags w AND ZCWF_PERMANENT) (zcurses_windows st) \<and>
     zc_color_phase st' = zc_color_phase st \<and>
     zcurses_colorpairs st' = zcurses_colorpairs st \<and> next_cp st' = next_cp st"
  by (simp add: zccmd_scroll_def validate_used zwarnnam_def libcall_def Let_def map_update
      perm_bit_scroll map_update_same perm_update_same split: option.split prod.split)

lemma addwin_colors_case:
  "case zccmd_addwin e st a0 a1 a2 a3 a4 of (r, st') \<Rightarrow>
     zc_color_phase st' = zc_color_phase st \<and>
     zcurses_colorpairs st' = zcurses_colorpairs st \<and> next_cp st' = next_cp st"
  by (simp add: zccmd_addwin_def validate_unused zwarnnam_def libcall_def libwin_def Let_def
      split: option.split)

lemma delwin_colors_case:
  "case zccmd_delwin e st a0 of (r, st') \<Rightarrow>
     zc_color_phase st' = zc_color_phase st \<and>
     zcurses_colorpairs st' = zcurses_colorpairs st \<and> next_cp st' = next_cp st"
  by (simp add: zccmd_delwin_def validate_used zwarnnam_def libcall_def Let_def
      split: option.split)

lemma setsparam_frame_case:
  "case setsparam e st var val of (r, st') \<Rightarrow>
     zcurses_windows st' = zcurses_windows st \<and> zc_color_phase st' = zc_color_phase st \<and>
     zcurses_colorpairs st' = zcurses_colorpairs st \<and> next_cp st' = next_cp st"
  by (simp add: setsparam_def libcall_def)

lemma input_frame_case:
  "case zccmd_input e st a0 a1 a2 of (r, st') \<Rightarrow>
     zcurses_windows st' = zcurses_windows st \<and> zc_color_phase st' = zc_color_phase st \<and>
     zcurses_colorpairs st' = zcurses_colorpairs st \<and> next_cp st' = next_cp st"
  by (simp add: zccmd_input_def validate_used zwarnnam_def libcall_def libread_def Let_def
      setsparam_def split: option.split prod.split key_read.split)

lemma init_started:
  "zcurses_getwindowbyname (zcurses_windows st) ''stdscr'' = Some i \<Longrightarrow>
   zccmd_init e st = (0, st\<lparr>trace := trace st @ [Settyinfo Curses_tty_state]\<rparr>)"
  by (simp add: zccmd_init_def libcall_def)

lemma attribute_frame_case:
  "case zcurses_attribute e st w a op of (r, st') \<Rightarrow>
     zcurses_windows st' = zcurses_windows st \<and> zc_color_phase st' = zc_color_phase st \<and>
     zcurses_colorpairs st' = zcurses_colorpairs st \<and> next_cp st' = next_cp st"
  by (simp add: zcurses_attribute_def libcall_def split: option.split)

lemma addwin_frame:
  assumes "zccmd_addwin e st a0 a1 a2 a3 a4 = (r, st')"
  shows "zc_color_phase st' = zc_color_phase st \<and>
     zcurses_colorpairs st' = zcurses_colorpairs st \<and> next_cp st' = next_cp st \<and>
     ((r = 1 \<and> zcurses_windows st' = zcurses_windows st) \<or>
      (r = 0 \<and> (\<exists>h. zcurses_windows st' = zcurses_windows st @ [\<lparr>win = h, name = a0, flags = 0\<rparr>])))"
  using addwin_colors_case [where e = e and st = st and ?a0.0 = a0 and ?a1.0 = a1 and ?a2.0 = a2
      and ?a3.0 = a3 and ?a4.0 = a4]
    addwin_windows_case [where e = e and st = st and ?a0.0 = a0 and ?a1.0 = a1 and ?a2.0 = a2
      and ?a3.0 = a3 and ?a4.0 = a4] assms
  by simp

lemma delwin_frame:
  assumes "zccmd_delwin e st a0 = (r, st')"
  shows "zc_color_phase st' = zc_color_phase st \<and>
     zcurses_colorpairs st' = zcurses_colorpairs st \<and> next_cp st' = next_cp st \<and>
     ((r = 1 \<and> zcurses_windows st' = zcurses_windows st) \<or>
      (r = 0 \<and> a0 \<noteq> [] \<and> (\<exists>i. zcurses_getwindowbyname (zcurses_windows st) a0 = Some i \<and>
        flags (zcurses_windows st ! i) AND ZCWF_PERMANENT = 0 \<and>
        zcurses_windows st' = remnode (zcurses_windows st) i)))"
  using delwin_colors_case [where e = e and st = st and ?a0.0 = a0]
    delwin_windows_case [where e = e and st = st and ?a0.0 = a0] assms
  by simp

lemma scroll_frame:
  assumes "zccmd_scroll e st a0 a1 = (r, st')"
  shows "map name (zcurses_windows st') = map name (zcurses_windows st) \<and>
     map (\<lambda>w. flags w AND ZCWF_PERMANENT) (zcurses_windows st') =
       map (\<lambda>w. flags w AND ZCWF_PERMANENT) (zcurses_windows st) \<and>
     zc_color_phase st' = zc_color_phase st \<and>
     zcurses_colorpairs st' = zcurses_colorpairs st \<and> next_cp st' = next_cp st"
  using scroll_frame_case [where e = e and st = st and ?a0.0 = a0 and ?a1.0 = a1] assms
  by simp

lemma input_frame:
  assumes "zccmd_input e st a0 a1 a2 = (r, st')"
  shows "zcurses_windows st' = zcurses_windows st \<and> zc_color_phase st' = zc_color_phase st \<and>
     zcurses_colorpairs st' = zcurses_colorpairs st \<and> next_cp st' = next_cp st"
  using input_frame_case [where e = e and st = st and ?a0.0 = a0 and ?a1.0 = a1 and ?a2.0 = a2] assms
  by simp

lemma attribute_frame:
  assumes "zcurses_attribute e st w a op = (r, st')"
  shows "zcurses_windows st' = zcurses_windows st \<and> zc_color_phase st' = zc_color_phase st \<and>
     zcurses_colorpairs st' = zcurses_colorpairs st \<and> next_cp st' = next_cp st"
  using attribute_frame_case [where e = e and st = st and w = w and a = a and op = op] assms
  by simp

lemma colorset_windows:
  "zcurses_colorset e st w k = Some (r, st') \<Longrightarrow> zcurses_windows st' = zcurses_windows st"
  by (auto simp add: zcurses_colorset_def dest: colorset_alloc_frame colorset_apply_frame
      split: if_splits option.splits)

lemma attr_token_windows:
  assumes "attr_token e st w a = Some (r, st')"
  shows "zcurses_windows st' = zcurses_windows st"
proof (cases "strchr a (CHR ''/'') \<noteq> None")
  case True
  with assms show ?thesis
    by (auto simp add: attr_token_def dest: colorset_windows split: option.splits)
next
  case False
  obtain onoff ptr where op: "(case a of [] \<Rightarrow> (ZCURSES_ATTRON, a)
               | c # rest \<Rightarrow>
                   if c = CHR ''-'' then (ZCURSES_ATTROFF, rest)
                   else if c = CHR ''+'' then (ZCURSES_ATTRON, rest)
                   else (ZCURSES_ATTRON, a)) = (onoff, ptr)"
    by fastforce
  obtain r1 st1 where at: "zcurses_attribute e st w ptr onoff = (r1, st1)"
    by fastforce
  from assms False op at have "st' = zwarnnam st1 (Attr_not_known ptr) \<or> st' = st1"
    by (auto simp add: attr_token_def split: if_splits)
  with attribute_frame [OF at] show ?thesis
    by (auto simp add: zwarnnam_def)
qed

lemma attr_loop_windows:
  "attr_loop e w as (ret, st) = Some (r, st') \<Longrightarrow> zcurses_windows st' = zcurses_windows st"
proof (induction as arbitrary: ret st)
  case Nil
  then show ?case by simp
next
  case (Cons a as)
  then obtain f st1 where t: "attr_token e st w a = Some (f, st1)"
    and l: "attr_loop e w as (if f \<noteq> 0 then 1 else ret, st1) = Some (r, st')"
    by (auto split: option.splits)
  from Cons.IH [OF l] attr_token_windows [OF t] show ?case by simp
qed

lemma attr_windows:
  "zccmd_attr e st a0 as = Some (r, st') \<Longrightarrow> zcurses_windows st' = zcurses_windows st"
  by (auto simp add: zccmd_attr_def validate_used zwarnnam_def Let_def dest: attr_loop_windows
      split: option.splits if_splits)

lemma remnode_Cons:
  "remnode (w # ws) 0 = ws" "remnode (w # ws) (Suc j) = w # remnode ws j"
  by (simp_all add: remnode_def)

lemma getwindowbyname_remnode:
  "zcurses_getwindowbyname ws nm = Some i \<Longrightarrow> name (ws ! j) \<noteq> nm \<Longrightarrow> j < length ws \<Longrightarrow>
   \<exists>i'. zcurses_getwindowbyname (remnode ws j) nm = Some i' \<and> remnode ws j ! i' = ws ! i"
proof (induction ws arbitrary: i j)
  case Nil
  then show ?case by simp
next
  case (Cons w ws)
  show ?case
  proof (cases j)
    case 0
    with Cons.prems show ?thesis
      by (auto simp add: remnode_Cons split: if_splits)
  next
    case (Suc j')
    show ?thesis
    proof (cases "name w = nm")
      case True
      with Cons.prems Suc show ?thesis by (simp add: remnode_Cons)
    next
      case False
      with Cons.prems obtain i0 where i0: "zcurses_getwindowbyname ws nm = Some i0" and i: "i = Suc i0"
        by auto
      from Cons.IH [OF i0, of j'] Cons.prems Suc
      obtain i' where "zcurses_getwindowbyname (remnode ws j') nm = Some i'"
        and "remnode ws j' ! i' = ws ! i0" by auto
      with False Suc i show ?thesis by (simp add: remnode_Cons)
    qed
  qed
qed

lemma names_found:
  "a \<in> name ` set ws \<longleftrightarrow> (\<exists>i. zcurses_getwindowbyname ws a = Some i)"
  using getwindowbyname_None [of ws a] by auto

lemma names_remnode:
  assumes "a \<in> name ` set ws" and "zcurses_getwindowbyname ws b = Some j" and "b \<noteq> a"
  shows "a \<in> name ` set (remnode ws j)"
proof -
  from assms(1) obtain i where i: "zcurses_getwindowbyname ws a = Some i"
    by (auto simp add: names_found)
  from getwindowbyname_bound [OF assms(2)] assms(3)
  have "name (ws ! j) \<noteq> a" and "j < length ws" by auto
  from getwindowbyname_remnode [OF i this] show ?thesis
    by (auto simp add: names_found)
qed

lemma names_map: "name ` set ws = set (map name ws)"
  by simp

lemma bin_zcurses_names:
  assumes "bin_zcurses e st c = Some (r, st')"
    and "a \<in> name ` set (zcurses_windows st)"
    and "c = Cmd_delwin a \<longrightarrow> r \<noteq> 0"
  shows "a \<in> name ` set (zcurses_windows st')"
proof (cases "zcurses_windows st' = zcurses_windows st")
  case True
  with assms(2) show ?thesis by simp
next
  case changed: False
  show ?thesis
  proof (cases c)
    case Cmd_init
    with assms(1) have "zccmd_init e st = (r, st')"
      by (simp add: bin_zcurses_def)
    with init_windows_case [where e = e and st = st] changed assms(2) show ?thesis
      by auto
  next
    case (Cmd_addwin a0 a1 a2 a3 a4)
    with assms(1) changed have "zccmd_addwin e st a0 a1 a2 a3 a4 = (r, st')"
      by (auto simp add: bin_zcurses_def zwarnnam_def split: if_splits)
    from addwin_frame [OF this] changed assms(2) show ?thesis by auto
  next
    case (Cmd_delwin a0)
    with assms(1) changed have d: "zccmd_delwin e st a0 = (r, st')"
      by (auto simp add: bin_zcurses_def zwarnnam_def split: if_splits)
    from delwin_frame [OF d] changed obtain i where r: "r = 0"
      and i: "zcurses_getwindowbyname (zcurses_windows st) a0 = Some i"
      and w: "zcurses_windows st' = remnode (zcurses_windows st) i" by auto
    from r assms(3) Cmd_delwin have "a0 \<noteq> a" by auto
    from names_remnode [OF assms(2) i this] w show ?thesis by simp
  next
    case (Cmd_attr a0 as)
    with assms(1) changed have "zccmd_attr e st (Some a0) as = Some (r, st')"
      by (auto simp add: bin_zcurses_def zwarnnam_def split: if_splits)
    from attr_windows [OF this] changed show ?thesis by simp
  next
    case (Cmd_scroll a0 a1)
    with assms(1) changed have "zccmd_scroll e st a0 a1 = (r, st')"
      by (auto simp add: bin_zcurses_def zwarnnam_def split: if_splits)
    from scroll_frame [OF this] have "map name (zcurses_windows st') = map name (zcurses_windows st)"
      by simp
    with assms(2) show ?thesis by (simp only: names_map)
  next
    case (Cmd_input a0 a1 a2)
    with assms(1) changed have "zccmd_input e st a0 a1 a2 = (r, st')"
      by (auto simp add: bin_zcurses_def zwarnnam_def split: if_splits)
    from input_frame [OF this] changed show ?thesis by simp
  qed
qed

lemma conv_examples:
  "atoi_dec ''0'' = 0" "atoi_dec ''1'' = 1" "atoi_dec ''5'' = 5" "atoi_dec ''10'' = 10"
  "atoi_dec ''40'' = 40" "zstrtol_dec ''3'' = (3, [])" "zstrtol_dec ''-2'' = (- 2, [])"
  "zstrtol_dec ''3x'' = (3, ''x'')"
  by (simp_all add: atoi_dec_def zstrtol_dec_def read_number_def digit_val_def)

lemmas const_defs =
  ZCWF_PERMANENT_def ZCWF_SCROLL_def ZCURSES_EINVALID_def ZCURSES_EDEFINED_def
  ZCURSES_EUNDEFINED_def ZCURSES_UNUSED_def ZCURSES_USED_def ZCURSES_ATTRON_def
  ZCURSES_ATTROFF_def KEY_F0_def

lemmas step_defs =
  libcall_def libwin_def libread_def zwarnnam_def zcurses_strerror_def
  zcurses_validate_window_def remnode_def Let_def conv_examples

lemma s_init_eq:
  "s_init = \<lparr>zcurses_windows = [\<lparr>win = 2, name = ''stdscr'', flags = 1\<rparr>],
             zcurses_colorpairs = Some Map.empty, zc_errno = 0, zc_color_phase = 1,
             next_cp = 0, params = Map.empty,
             trace = [Zshcalloc, Gettyinfo Saved_tty_state, Initscr, Start_color, Cbreak,
                      Noecho, Gettyinfo Curses_tty_state],
             diags = []\<rparr>"
  by (simp add: s_init_def zccmd_init_def zstate0_def env_ok_def step_defs const_defs)

lemma s_w_eq:
  "s_w = \<lparr>zcurses_windows = [\<lparr>win = 2, name = ''stdscr'', flags = 1\<rparr>,
                              \<lparr>win = 8, name = ''w'', flags = 0\<rparr>],
          zcurses_colorpairs = Some Map.empty, zc_errno = 0, zc_color_phase = 1,
          next_cp = 0, params = Map.empty,
          trace = [Zshcalloc, Gettyinfo Saved_tty_state, Initscr, Start_color, Cbreak,
                   Noecho, Gettyinfo Curses_tty_state, Zshcalloc, Newwin 10 40 0 0],
          diags = []\<rparr>"
  by (simp add: s_w_def s_init_eq zccmd_addwin_def env_ok_def step_defs const_defs)

lemma validate_resolves:
  "fst (zcurses_validate_window st (Some nm) ZCURSES_USED) = Some i \<longleftrightarrow>
   nm \<noteq> [] \<and> zcurses_getwindowbyname (zcurses_windows st) nm = Some i"
  by (simp add: validate_used split: option.split)

section \<open>Destroying a window\<close>

text \<open>
  C4. When the name given to \<open>delwin\<close> resolves to a window that is not permanent and
  the library's \<open>delwin\<close> on its handle fails, \<open>zccmd_delwin\<close> returns 1 without a
  diagnostic, and the list of windows is as before: the name still resolves to the same
  node, with its record untouched.
\<close>

theorem delwin_release_failure:
  assumes "fst (zcurses_validate_window st (Some a0) ZCURSES_USED) = Some i"
    and "flags (zcurses_windows st ! i) AND ZCWF_PERMANENT = 0"
    and "\<not> lib_ok e (trace st) (Delwin (win (zcurses_windows st ! i)))"
  shows "zccmd_delwin e st a0 =
           (1, st\<lparr>zc_errno := 0, trace := trace st @ [Delwin (win (zcurses_windows st ! i))]\<rparr>)
         \<and> zcurses_windows (snd (zccmd_delwin e st a0)) = zcurses_windows st
         \<and> zcurses_getwindowbyname (zcurses_windows (snd (zccmd_delwin e st a0))) a0 = Some i"
proof -
  from assms(1) have "a0 \<noteq> []" and "zcurses_getwindowbyname (zcurses_windows st) a0 = Some i"
    by (simp_all add: validate_resolves)
  with assms(2,3) show ?thesis
    by (simp add: zccmd_delwin_def validate_used libcall_def Let_def)
qed

theorem delwin_release_failure_witness:
  "zccmd_delwin env_err s_w ''w'' =
     (1, s_w\<lparr>zc_errno := 0, trace := trace s_w @ [Delwin 8]\<rparr>)
   \<and> zcurses_windows (snd (zccmd_delwin env_err s_w ''w'')) =
       [\<lparr>win = 2, name = ''stdscr'', flags = 1\<rparr>, \<lparr>win = 8, name = ''w'', flags = 0\<rparr>]"
proof -
  have 1: "fst (zcurses_validate_window s_w (Some ''w'') ZCURSES_USED) = Some 1"
    by (simp add: s_w_eq step_defs const_defs)
  have 2: "flags (zcurses_windows s_w ! 1) AND ZCWF_PERMANENT = 0"
    by (simp add: s_w_eq const_defs)
  have 3: "\<not> lib_ok env_err (trace s_w) (Delwin (win (zcurses_windows s_w ! 1)))"
    by (simp add: env_err_def env_ok_def)
  from delwin_release_failure [OF 1 2 3] show ?thesis
    by (simp add: s_w_eq)
qed

lemma run_names:
  "run e cs st = Some (rs, st') \<Longrightarrow> a \<in> name ` set (zcurses_windows st) \<Longrightarrow>
   (\<forall>j < length cs. cs ! j = Cmd_delwin a \<longrightarrow> rs ! j \<noteq> 0) \<Longrightarrow>
   a \<in> name ` set (zcurses_windows st')"
proof (induction cs arbitrary: st rs)
  case Nil
  then show ?case by simp
next
  case (Cons c cs)
  from Cons.prems(1) obtain r st1 rs1 where b: "bin_zcurses e st c = Some (r, st1)"
    and r: "run e cs st1 = Some (rs1, st')" and rs: "rs = r # rs1"
    by (auto split: option.splits)
  from Cons.prems(3) rs have "c = Cmd_delwin a \<longrightarrow> r \<noteq> 0"
    by fastforce
  from bin_zcurses_names [OF b Cons.prems(2) this]
  have 1: "a \<in> name ` set (zcurses_windows st1)" .
  from Cons.prems(3) rs have "\<forall>j < length cs. cs ! j = Cmd_delwin a \<longrightarrow> rs1 ! j \<noteq> 0"
    by fastforce
  from Cons.IH [OF r 1 this] show ?case .
qed

lemma run_length: "run e cs st = Some (rs, st') \<Longrightarrow> length rs = length cs"
  by (induction cs arbitrary: st rs) (auto split: option.splits)

section \<open>Creating a window twice\<close>

text \<open>
  C5. When \<open>addwin\<close> has created a window named \<open>a0\<close> (which makes \<open>a0\<close> non-empty), and
  none of the commands run since then is a \<open>delwin\<close> of \<open>a0\<close> that returned 0, another
  \<open>addwin\<close> of \<open>a0\<close>, with whatever geometry, returns 1, sets \<open>zc_errno\<close> to
  \<open>ZCURSES_EDEFINED\<close> and reports "window already defined"; it calls nothing in the
  library and the list of windows is as before.
\<close>

theorem addwin_already_defined:
  assumes "zccmd_addwin e st a0 a1 a2 a3 a4 = (0, st1)"
    and "run e cs st1 = Some (rs, st2)"
    and "\<forall>j < length cs. cs ! j = Cmd_delwin a0 \<longrightarrow> rs ! j \<noteq> 0"
  shows "a0 \<noteq> [] \<and>
         zccmd_addwin e st2 a0 b1 b2 b3 b4 =
           (1, st2\<lparr>zc_errno := ZCURSES_EDEFINED,
                    diags := diags st2 @ [Win_error ''window already defined'' a0]\<rparr>) \<and>
         zcurses_windows (snd (zccmd_addwin e st2 a0 b1 b2 b3 b4)) = zcurses_windows st2"
proof -
  from assms(1) have ne: "a0 \<noteq> []"
    by (auto simp add: zccmd_addwin_def validate_unused errno_nonzero)
  from addwin_frame [OF assms(1)] have "a0 \<in> name ` set (zcurses_windows st1)"
    by auto
  from run_names [OF assms(2) this assms(3)]
  have "a0 \<in> name ` set (zcurses_windows st2)" .
  from addwin_defined [OF ne this] ne show ?thesis by simp
qed

theorem addwin_already_defined_witness:
  "zccmd_addwin env_ok s_init ''w'' ''10'' ''40'' ''0'' ''0'' = (0, s_w) \<and>
   run env_ok [Cmd_delwin ''v'', Cmd_addwin ''v'' ''1'' ''1'' ''0'' ''0''] s_w =
     Some ([1, 0], snd (the (run env_ok [Cmd_delwin ''v'', Cmd_addwin ''v'' ''1'' ''1'' ''0'' ''0''] s_w))) \<and>
   fst (zccmd_addwin env_ok
         (snd (the (run env_ok [Cmd_delwin ''v'', Cmd_addwin ''v'' ''1'' ''1'' ''0'' ''0''] s_w)))
         ''w'' ''5'' ''5'' ''0'' ''0'') = 1 \<and>
   zc_errno (snd (zccmd_addwin env_ok
         (snd (the (run env_ok [Cmd_delwin ''v'', Cmd_addwin ''v'' ''1'' ''1'' ''0'' ''0''] s_w)))
         ''w'' ''5'' ''5'' ''0'' ''0'')) = ZCURSES_EDEFINED \<and>
   map name (zcurses_windows (snd (zccmd_addwin env_ok
         (snd (the (run env_ok [Cmd_delwin ''v'', Cmd_addwin ''v'' ''1'' ''1'' ''0'' ''0''] s_w)))
         ''w'' ''5'' ''5'' ''0'' ''0''))) = [''stdscr'', ''w'', ''v'']"
proof -
  let ?cs = "[Cmd_delwin ''v'', Cmd_addwin ''v'' ''1'' ''1'' ''0'' ''0'']"
  have 1: "zccmd_addwin env_ok s_init ''w'' ''10'' ''40'' ''0'' ''0'' = (0, s_w)"
    by (simp add: s_w_eq s_init_eq zccmd_addwin_def env_ok_def step_defs const_defs)
  have 2: "run env_ok ?cs s_w = Some ([1, 0], snd (the (run env_ok ?cs s_w)))"
    by (simp add: s_w_eq bin_zcurses_def zccmd_addwin_def zccmd_delwin_def env_ok_def step_defs
        const_defs)
  have 3: "\<forall>j < length ?cs. ?cs ! j = Cmd_delwin ''w'' \<longrightarrow> [1, 0 :: int] ! j \<noteq> 0"
    by (simp add: less_Suc_eq)
  have 4: "map name (zcurses_windows (snd (the (run env_ok ?cs s_w)))) = [''stdscr'', ''w'', ''v'']"
    by (simp add: s_w_eq bin_zcurses_def zccmd_addwin_def zccmd_delwin_def env_ok_def step_defs
        const_defs)
  from addwin_already_defined [OF 1 2 3, of "''5''" "''5''" "''0''" "''0''"] 1 2 4
  show ?thesis by simp
qed

text \<open>
  C6, as the program has it. \<open>bin_zcurses\<close> calls \<open>zccmd_delwin\<close> only while \<open>stdscr\<close> is in the
  list. Then \<open>delwin\<close> of a non-empty name that is not in the list returns 1 with
  \<open>zc_errno = ZCURSES_EUNDEFINED\<close> and the report "window undefined", and \<open>delwin\<close> of a name
  that resolves to a permanent window, as \<open>stdscr\<close> does in a session, returns 1 with the
  report "window ... can't be deleted" and \<open>zc_errno = 0\<close>. While \<open>stdscr\<close> is not in the
  list, every \<open>delwin\<close>, that of \<open>stdscr\<close> too, returns 1 with the report "can't be used
  before zcurses init", and \<open>zc_errno\<close> is left as it was. In each case nothing is called in
  the library and the list of windows is as before. (The empty name is in no list, and
  \<open>delwin\<close> of it in a session reports \<open>ZCURSES_EINVALID\<close>.) A state that a script reaches
  from the initial one is a session or has no \<open>stdscr\<close> (lemma \<open>run_started\<close>).
\<close>

theorem delwin_undefined_or_permanent:
  "(zcurses_getwindowbyname (zcurses_windows st) ''stdscr'' \<noteq> None \<and>
    a0 \<noteq> [] \<and> a0 \<notin> name ` set (zcurses_windows st) \<longrightarrow>
      bin_zcurses e st (Cmd_delwin a0) =
        Some (1, st\<lparr>zc_errno := ZCURSES_EUNDEFINED,
                     diags := diags st @ [Win_error ''window undefined'' a0]\<rparr>)) \<and>
   (zcurses_getwindowbyname (zcurses_windows st) ''stdscr'' \<noteq> None \<and>
    fst (zcurses_validate_window st (Some a0) ZCURSES_USED) = Some i \<and>
    flags (zcurses_windows st ! i) AND ZCWF_PERMANENT \<noteq> 0 \<longrightarrow>
      bin_zcurses e st (Cmd_delwin a0) =
        Some (1, st\<lparr>zc_errno := 0, diags := diags st @ [Cant_be_deleted a0]\<rparr>)) \<and>
   (session st \<longrightarrow>
      bin_zcurses e st (Cmd_delwin ''stdscr'') =
        Some (1, st\<lparr>zc_errno := 0, diags := diags st @ [Cant_be_deleted ''stdscr'']\<rparr>)) \<and>
   (zcurses_getwindowbyname (zcurses_windows st) ''stdscr'' = None \<longrightarrow>
      bin_zcurses e st (Cmd_delwin a0) =
        Some (1, st\<lparr>diags := diags st @ [Cant_be_used_before_init]\<rparr>)) \<and>
   (zcurses_getwindowbyname (zcurses_windows st) ''stdscr'' \<noteq> None \<longrightarrow>
      bin_zcurses e st (Cmd_delwin []) =
        Some (1, st\<lparr>zc_errno := ZCURSES_EINVALID,
                     diags := diags st @ [Win_error ''window name invalid'' []]\<rparr>))"
proof -
  have missing: "zccmd_delwin e st a =
        (1, st\<lparr>zc_errno := ZCURSES_EUNDEFINED,
                diags := diags st @ [Win_error ''window undefined'' a]\<rparr>)"
    if "a \<noteq> []" and "zcurses_getwindowbyname (zcurses_windows st) a = None" for a
    using that by (simp add: zccmd_delwin_def validate_used zwarnnam_def strerror_simps)
  have perm: "zccmd_delwin e st a =
        (1, st\<lparr>zc_errno := 0, diags := diags st @ [Cant_be_deleted a]\<rparr>)"
    if "a \<noteq> []" and "zcurses_getwindowbyname (zcurses_windows st) a = Some j"
      and "flags (zcurses_windows st ! j) AND ZCWF_PERMANENT \<noteq> 0" for a j
    using that by (simp add: zccmd_delwin_def validate_used zwarnnam_def)
  have empty: "zccmd_delwin e st [] =
        (1, st\<lparr>zc_errno := ZCURSES_EINVALID,
                diags := diags st @ [Win_error ''window name invalid'' []]\<rparr>)"
    by (simp add: zccmd_delwin_def zcurses_validate_window_def zwarnnam_def strerror_simps)
  have here: "bin_zcurses e st (Cmd_delwin a) = Some (zccmd_delwin e st a)"
    if "zcurses_getwindowbyname (zcurses_windows st) ''stdscr'' \<noteq> None" for a
    using that by (simp add: bin_zcurses_def del: not_None_eq)
  have nowhere: "bin_zcurses e st (Cmd_delwin a) =
        Some (1, st\<lparr>diags := diags st @ [Cant_be_used_before_init]\<rparr>)"
    if "zcurses_getwindowbyname (zcurses_windows st) ''stdscr'' = None" for a
    using that by (simp add: bin_zcurses_def zwarnnam_def)
  have 1: "bin_zcurses e st (Cmd_delwin a0) =
        Some (1, st\<lparr>zc_errno := ZCURSES_EUNDEFINED,
                     diags := diags st @ [Win_error ''window undefined'' a0]\<rparr>)"
    if "zcurses_getwindowbyname (zcurses_windows st) ''stdscr'' \<noteq> None" and "a0 \<noteq> []"
      and "a0 \<notin> name ` set (zcurses_windows st)"
  proof -
    from that(3) have "zcurses_getwindowbyname (zcurses_windows st) a0 = None"
      by (simp add: getwindowbyname_None)
    from missing [OF that(2) this] here [OF that(1)] show ?thesis
      by simp
  qed
  have 2: "bin_zcurses e st (Cmd_delwin a0) =
        Some (1, st\<lparr>zc_errno := 0, diags := diags st @ [Cant_be_deleted a0]\<rparr>)"
    if "zcurses_getwindowbyname (zcurses_windows st) ''stdscr'' \<noteq> None"
      and "fst (zcurses_validate_window st (Some a0) ZCURSES_USED) = Some i"
      and "flags (zcurses_windows st ! i) AND ZCWF_PERMANENT \<noteq> 0"
  proof -
    from that(2) have "a0 \<noteq> []" and "zcurses_getwindowbyname (zcurses_windows st) a0 = Some i"
      by (simp_all add: validate_resolves)
    from perm [OF this that(3)] here [OF that(1)] show ?thesis
      by simp
  qed
  have 3: "bin_zcurses e st (Cmd_delwin ''stdscr'') =
        Some (1, st\<lparr>zc_errno := 0, diags := diags st @ [Cant_be_deleted ''stdscr'']\<rparr>)"
    if "session st"
  proof -
    from that obtain j where j: "zcurses_getwindowbyname (zcurses_windows st) ''stdscr'' = Some j"
      and "flags (zcurses_windows st ! j) AND ZCWF_PERMANENT \<noteq> 0"
      by (auto simp add: session_def split: option.splits)
    from j have "zcurses_getwindowbyname (zcurses_windows st) ''stdscr'' \<noteq> None"
      by simp
    from perm [OF _ j \<open>flags (zcurses_windows st ! j) AND ZCWF_PERMANENT \<noteq> 0\<close>] here [OF this]
    show ?thesis
      by simp
  qed
  have 4: "bin_zcurses e st (Cmd_delwin a0) =
        Some (1, st\<lparr>diags := diags st @ [Cant_be_used_before_init]\<rparr>)"
    if "zcurses_getwindowbyname (zcurses_windows st) ''stdscr'' = None"
    using that by (rule nowhere)
  have 5: "bin_zcurses e st (Cmd_delwin []) =
        Some (1, st\<lparr>zc_errno := ZCURSES_EINVALID,
                     diags := diags st @ [Win_error ''window name invalid'' []]\<rparr>)"
    if "zcurses_getwindowbyname (zcurses_windows st) ''stdscr'' \<noteq> None"
    using here [OF that] empty by simp
  from 1 2 3 4 5 show ?thesis
    by blast
qed

theorem delwin_undefined_or_permanent_witness:
  "session s_w \<and>
   bin_zcurses env_ok s_w (Cmd_delwin ''v'') =
     Some (1, s_w\<lparr>zc_errno := ZCURSES_EUNDEFINED,
                   diags := [Win_error ''window undefined'' ''v'']\<rparr>) \<and>
   bin_zcurses env_ok s_w (Cmd_delwin ''stdscr'') =
     Some (1, s_w\<lparr>zc_errno := 0, diags := [Cant_be_deleted ''stdscr'']\<rparr>) \<and>
   bin_zcurses env_ok zstate0 (Cmd_delwin ''stdscr'') =
     Some (1, zstate0\<lparr>diags := [Cant_be_used_before_init]\<rparr>) \<and>
   bin_zcurses env_ok s_w (Cmd_delwin []) =
     Some (1, s_w\<lparr>zc_errno := ZCURSES_EINVALID,
                   diags := [Win_error ''window name invalid'' []]\<rparr>)"
proof -
  have 0: "zcurses_getwindowbyname (zcurses_windows s_w) ''stdscr'' \<noteq> None"
    by (simp add: s_w_eq)
  have 1: "''v'' \<noteq> [] \<and> ''v'' \<notin> name ` set (zcurses_windows s_w)"
    by (simp add: s_w_eq)
  have 2: "zcurses_getwindowbyname (zcurses_windows zstate0) ''stdscr'' = None"
    by (simp add: zstate0_def)
  have 3: "fst (zcurses_validate_window s_w (Some ''stdscr'') ZCURSES_USED) = Some 0 \<and>
    flags (zcurses_windows s_w ! 0) AND ZCWF_PERMANENT \<noteq> 0"
    by (simp add: s_w_eq step_defs const_defs)
  have 4: "session s_w"
    by (simp add: session_def s_w_eq const_defs)
  from delwin_undefined_or_permanent [of s_w "''v''" env_ok 0]
    delwin_undefined_or_permanent [of zstate0 "''stdscr''" env_ok 0]
    delwin_undefined_or_permanent [of s_w "''stdscr''" env_ok 0] 0 1 2 3 4
  show ?thesis
    by (simp add: s_w_eq zstate0_def)
qed

text \<open>
  The empty name is not in the list of windows, and \<open>delwin\<close> of it does not report
  \<open>ZCURSES_EUNDEFINED\<close>: the test for an empty name comes first. And while there is no
  \<open>stdscr\<close>, \<open>delwin stdscr\<close> does not report \<open>ZCURSES_EUNDEFINED\<close> either: \<open>bin_zcurses\<close>
  refuses the command and \<open>zc_errno\<close> stays what it was, here 0.
\<close>

theorem delwin_empty_name_invalid:
  "[] \<notin> name ` set (zcurses_windows s_w) \<and>
   zc_errno (snd (zccmd_delwin env_ok s_w [])) = ZCURSES_EINVALID \<and>
   zc_errno (snd (zccmd_delwin env_ok s_w [])) \<noteq> ZCURSES_EUNDEFINED \<and>
   diags (snd (zccmd_delwin env_ok s_w [])) = [Win_error ''window name invalid'' []] \<and>
   bin_zcurses env_ok s_w (Cmd_delwin []) = Some (zccmd_delwin env_ok s_w []) \<and>
   run env_ok [Cmd_init, Cmd_addwin ''w'' ''10'' ''40'' ''0'' ''0''] zstate0 = Some ([0, 0], s_w) \<and>
   ''stdscr'' \<notin> name ` set (zcurses_windows zstate0) \<and>
   bin_zcurses env_ok zstate0 (Cmd_delwin ''stdscr'') =
     Some (1, zstate0\<lparr>diags := [Cant_be_used_before_init]\<rparr>) \<and>
   zc_errno zstate0 \<noteq> ZCURSES_EUNDEFINED"
  by (simp add: s_w_eq zccmd_delwin_def bin_zcurses_def zccmd_init_def zccmd_addwin_def
      zstate0_def env_ok_def step_defs const_defs)

section \<open>Scrolling by a number\<close>

text \<open>
  C8. When the window name resolves, and the mode is not \<open>on\<close> or \<open>off\<close> and is read by
  \<open>zstrtol\<close> to its end as the integer \<open>sl\<close>: if the window's \<open>ZCWF_SCROLL\<close> flag is off,
  \<open>zccmd_scroll\<close> calls \<open>scrollok(TRUE)\<close>, then \<open>wscrl\<close> once, then \<open>scrollok(FALSE)\<close>, and
  nothing else; if the flag is on, it calls \<open>wscrl\<close> only. In both cases the window
  records, and so the flag, are as before, and the return value is 1 exactly when
  \<open>wscrl\<close> failed.
\<close>

theorem scroll_numeric:
  assumes "fst (zcurses_validate_window st (Some a0) ZCURSES_USED) = Some i"
    and "a1 \<noteq> ''on''" and "a1 \<noteq> ''off''"
    and "zstrtol e a1 = (sl, [])"
  shows "zcurses_windows (snd (zccmd_scroll e st a0 a1)) = zcurses_windows st \<and>
         trace (snd (zccmd_scroll e st a0 a1)) =
           trace st @
             (let w = win (zcurses_windows st ! i); n = sint (word_of_int sl :: 32 word) in
              if flags (zcurses_windows st ! i) AND ZCWF_SCROLL = 0
              then [Scrollok w True, Wscrl w n, Scrollok w False]
              else [Wscrl w n]) \<and>
         fst (zccmd_scroll e st a0 a1) =
           (let w = win (zcurses_windows st ! i); n = sint (word_of_int sl :: 32 word) in
            if lib_ok e (trace st @ (if flags (zcurses_windows st ! i) AND ZCWF_SCROLL = 0
                                     then [Scrollok w True] else []))
                 (Wscrl w n)
            then 0 else 1)"
proof -
  from assms(1) have "a0 \<noteq> []" and "zcurses_getwindowbyname (zcurses_windows st) a0 = Some i"
    by (simp_all add: validate_resolves)
  with assms(2-4) show ?thesis
    by (simp add: zccmd_scroll_def validate_used libcall_def Let_def)
qed

lemma s_on_eq:
  "s_on = s_w\<lparr>zcurses_windows := [\<lparr>win = 2, name = ''stdscr'', flags = 1\<rparr>,
                                      \<lparr>win = 8, name = ''w'', flags = 2\<rparr>],
               trace := trace s_w @ [Scrollok 8 True]\<rparr>"
  by (simp add: s_on_def s_w_eq zccmd_scroll_def env_ok_def step_defs const_defs)

theorem scroll_numeric_witness:
  "zcurses_windows (snd (zccmd_scroll env_ok s_w ''w'' ''3'')) = zcurses_windows s_w \<and>
   trace (snd (zccmd_scroll env_ok s_w ''w'' ''3'')) =
     trace s_w @ [Scrollok 8 True, Wscrl 8 3, Scrollok 8 False] \<and>
   fst (zccmd_scroll env_ok s_w ''w'' ''3'') = 0 \<and>
   zcurses_windows (snd (zccmd_scroll env_ok s_on ''w'' ''3'')) = zcurses_windows s_on \<and>
   trace (snd (zccmd_scroll env_ok s_on ''w'' ''3'')) = trace s_on @ [Wscrl 8 3] \<and>
   flags (zcurses_windows (snd (zccmd_scroll env_ok s_on ''w'' ''3'')) ! 1) AND ZCWF_SCROLL \<noteq> 0"
proof -
  have 1: "fst (zcurses_validate_window s_w (Some ''w'') ZCURSES_USED) = Some 1"
    by (simp add: s_w_eq step_defs const_defs)
  have 2: "fst (zcurses_validate_window s_on (Some ''w'') ZCURSES_USED) = Some 1"
    by (simp add: s_on_eq s_w_eq step_defs const_defs)
  have 3: "''3'' \<noteq> ''on''" "''3'' \<noteq> ''off''" "zstrtol env_ok ''3'' = (3, [])"
    by (simp_all add: env_ok_def conv_examples)
  from scroll_numeric [OF 1 3] scroll_numeric [OF 2 3]
  show ?thesis
    by (simp add: s_on_eq s_w_eq env_ok_def const_defs)
qed

section \<open>The symbolic name of a key\<close>




text \<open>
  The key code \<open>KEY_F0\<close> itself is in the table of the example and is given its name from
  there.
\<close>

lemma input_key_f0_named:
  "lib_read env_f0 (trace s_w @ [Keypad 8 True]) (Wgetch 8) = Read_key KEY_F0 \<and>
   fst (zccmd_input env_f0 s_w ''w'' (Some ''k'') (Some ''n'')) = 0 \<and>
   params (snd (zccmd_input env_f0 s_w ''w'' (Some ''k'') (Some ''n''))) ''n'' = Some ''F0''"
  by (simp add: s_w_eq zccmd_input_def setsparam_def env_f0_def env_ok_def step_defs const_defs)

section \<open>The tokens of a batch, one by one\<close>

lemma attr_loop_each:
  "attr_loop e w as (ret, st) =
     (case attr_each e w as st of
        None \<Rightarrow> None
      | Some (fs, st') \<Rightarrow> Some (if \<exists>f \<in> set fs. f \<noteq> 0 then 1 else ret, st'))"
proof (induction as arbitrary: ret st)
  case Nil
  then show ?case by simp
next
  case (Cons a as)
  show ?case
  proof (cases "attr_token e st w a")
    case None
    then show ?thesis by simp
  next
    case (Some p)
    obtain f st1 where p: "p = (f, st1)" by (cases p)
    show ?thesis
    proof (cases "attr_each e w as st1")
      case None
      with Some p Cons.IH [of "if f \<noteq> 0 then 1 else ret" st1] show ?thesis by simp
    next
      case (Some q)
      obtain fs st2 where q: "q = (fs, st2)" by (cases q)
      from Some q \<open>attr_token e st w a = Some p\<close> p
        Cons.IH [of "if f \<noteq> 0 then 1 else ret" st1]
      show ?thesis by auto
    qed
  qed
qed

lemma attr_each_length:
  "attr_each e w as st = Some (fs, st') \<Longrightarrow> length fs = length as"
  by (induction as arbitrary: st fs) (auto split: option.splits)

lemma attr_token_flag:
  assumes "attr_token e s w a = Some (f, s')"
  shows "(f = 0 \<or> f = 1) \<and>
         (f \<noteq> 0 \<longleftrightarrow>
           (if strchr a (CHR ''/'') \<noteq> None
            then \<exists>r. zcurses_colorset e s w a = Some (r, s') \<and> r \<noteq> 0
            else find_name zcurses_attributes (attr_name a) = None))"
proof (cases "strchr a (CHR ''/'') \<noteq> None")
  case True
  show ?thesis
  proof (cases "zcurses_colorset e s w a")
    case None
    with assms True show ?thesis by (simp add: attr_token_def)
  next
    case (Some p)
    obtain r st1 where p: "p = (r, st1)" by (cases p)
    from assms True Some p have "f = (if r \<noteq> 0 then 1 else 0)" and "s' = st1"
      by (simp_all add: attr_token_def)
    with True Some p show ?thesis by simp
  qed
next
  case False
  define onoff where "onoff = (if a \<noteq> [] \<and> hd a = CHR ''-'' then ZCURSES_ATTROFF else ZCURSES_ATTRON)"
  have op: "(case a of [] \<Rightarrow> (ZCURSES_ATTRON, a)
               | c # rest \<Rightarrow>
                   if c = CHR ''-'' then (ZCURSES_ATTROFF, rest)
                   else if c = CHR ''+'' then (ZCURSES_ATTRON, rest)
                   else (ZCURSES_ATTRON, a)) = (onoff, attr_name a)"
    by (cases a) (simp_all add: attr_name_def onoff_def)
  obtain r1 st1 where z: "zcurses_attribute e s w (attr_name a) onoff = (r1, st1)"
    by (cases "zcurses_attribute e s w (attr_name a) onoff")
  have "fst (zcurses_attribute e s w (attr_name a) onoff) =
          (if find_name zcurses_attributes (attr_name a) = None then 1 else 0)"
    by (simp add: zcurses_attribute_def split: option.split)
  with z have r1: "r1 = (if find_name zcurses_attributes (attr_name a) = None then 1 else 0)"
    by simp
  from False have t: "attr_token e s w a =
      (if r1 \<noteq> 0 then Some (1, zwarnnam st1 (Attr_not_known (attr_name a))) else Some (0, st1))"
    unfolding attr_token_def op by (simp add: z)
  show ?thesis
  proof (cases "find_name zcurses_attributes (attr_name a) = None")
    case True
    with assms t r1 False show ?thesis by simp
  next
    case nf: False
    with assms t r1 False show ?thesis by simp
  qed
qed

lemmas color_defs =
  zcurses_colorset_def colorset_alloc_def colorset_apply_def zcurses_color_def zcurses_colors_def

lemmas attr_defs =
  zccmd_attr_def attr_token_def zcurses_attribute_def zcurses_attributes_def

section \<open>Properties of the colour pair cache\<close>

lemma colorset_hit:
  assumes "zc_color_phase st \<noteq> 1" and "zcurses_colorpairs st = Some ht" and "ht k = Some p"
  shows "zcurses_colorset e st w k =
           Some (if lib_ok e (trace st) (Wcolor_set w p) then 0 else 1,
                 st\<lparr>trace := trace st @ [Wcolor_set w p]\<rparr>)"
  using assms by (simp add: zcurses_colorset_def colorset_apply_def libcall_def)

lemma colorset_miss:
  assumes "zc_color_phase st = 1 \<or> (\<exists>ht. zcurses_colorpairs st = Some ht \<and> ht k = None)"
  shows "zcurses_colorset e st w k = colorset_alloc e st w k"
  using assms by (auto simp add: zcurses_colorset_def)

lemma alloc_rejected_key:
  assumes "key_colors k = None"
  shows "\<exists>st'. colorset_alloc e st w k = Some (1, st') \<and> zc_color_phase st' = 2 \<and>
           zcurses_colorpairs st' = zcurses_colorpairs st \<and> next_cp st' = next_cp st \<and>
           trace st' = trace st \<and> zcurses_windows st' = zcurses_windows st"
proof (cases "strchr k (CHR ''/'')")
  case None
  then show ?thesis
    by (simp add: colorset_alloc_def)
next
  case (Some i)
  with assms have "zcurses_color (take i k) = - 1 \<or> zcurses_color (drop (Suc i) k) = - 1"
    by (simp add: key_colors_def Let_def split: if_splits)
  with Some show ?thesis
    by (simp add: colorset_alloc_def Let_def)
qed

lemma alloc_valid_key:
  assumes "key_colors k = Some (f, b)"
  shows "colorset_alloc e st w k =
     (let n = next_cp st + 1; st2 = st\<lparr>zc_color_phase := 2, next_cp := n\<rparr> in
      if COLOR_PAIRS e \<le> sint n then Some (1, st2)
      else if \<not> lib_ok e (trace st) (Init_pair n f b)
        then Some (1, st2\<lparr>trace := trace st @ [Init_pair n f b]\<rparr>)
      else if \<not> lib_ok e (trace st @ [Init_pair n f b]) Zalloc
        then Some (1, st2\<lparr>trace := trace st @ [Init_pair n f b, Zalloc]\<rparr>)
      else
        case zcurses_colorpairs st of
          None \<Rightarrow> None
        | Some ht \<Rightarrow>
            Some (if lib_ok e (trace st @ [Init_pair n f b, Zalloc]) (Wcolor_set w n) then 0 else 1,
                  st2\<lparr>zcurses_colorpairs := Some (ht(k \<mapsto> n)),
                      trace := trace st @ [Init_pair n f b, Zalloc, Wcolor_set w n]\<rparr>))"
proof -
  from assms obtain i where i: "strchr k (CHR ''/'') = Some i"
    and f: "zcurses_color (take i k) = f" and b: "zcurses_color (drop (Suc i) k) = b"
    and ne: "f \<noteq> - 1" "b \<noteq> - 1"
    by (auto simp add: key_colors_def Let_def split: option.splits if_splits)
  show ?thesis
    by (simp add: colorset_alloc_def colorset_apply_def libcall_def Let_def i f b ne
        split: option.split)
qed

lemma sint_succ_16:
  assumes "sint x < 32767"
  shows "sint (x + 1 :: 16 word) = sint x + 1"
proof -
  have "- (2 ^ 15) \<le> sint x"
    using sint_ge [of x] by simp
  with assms have "signed_take_bit 15 (sint x + 1) = sint x + 1"
    by (intro signed_take_bit_int_eq_self) simp_all
  then show ?thesis
    by (simp add: sint_word_ariths)
qed

text \<open>One fresh, well-formed key, with a library that accepts the pair.\<close>

lemma colorset_fresh:
  assumes "key_colors k \<noteq> None"
    and "zcurses_colorpairs st = Some ht" and "ht k = None"
    and "\<forall>h p f b. lib_ok e h (Init_pair p f b)" and "\<forall>h. lib_ok e h Zalloc"
  shows "\<exists>r st1. zcurses_colorset e st w k = Some (r, st1) \<and>
           next_cp st1 = next_cp st + 1 \<and>
           (COLOR_PAIRS e \<le> sint (next_cp st + 1) \<longrightarrow> r = 1 \<and> zcurses_colorpairs st1 = Some ht) \<and>
           (\<not> COLOR_PAIRS e \<le> sint (next_cp st + 1) \<longrightarrow>
              zcurses_colorpairs st1 = Some (ht(k \<mapsto> next_cp st + 1)))"
proof -
  from assms(1) obtain f b where fb: "key_colors k = Some (f, b)" by auto
  from assms(2,3) have "zcurses_colorset e st w k = colorset_alloc e st w k"
    by (simp add: colorset_miss)
  with assms(2,4,5) show ?thesis
    by (simp add: alloc_valid_key [OF fb] Let_def)
qed

lemma sint_add_nat_16:
  assumes "0 \<le> sint x" and "sint x + int m \<le> 32767"
  shows "sint (x + of_nat m :: 16 word) = sint x + int m"
  using assms
proof (induction m)
  case 0
  then show ?case by simp
next
  case (Suc m)
  then have "sint (x + of_nat m) = sint x + int m" by simp
  moreover from this Suc.prems have "sint (x + of_nat m) < 32767" by simp
  ultimately show ?case
    using sint_succ_16 [of "x + of_nat m"] by (simp add: ac_simps)
qed

lemma resolve_fresh:
  assumes "distinct ks"
    and "\<forall>k \<in> set ks. key_colors k \<noteq> None"
    and "zcurses_colorpairs st = Some ht"
    and "\<forall>k \<in> set ks. ht k = None"
    and "\<forall>h p f b. lib_ok e h (Init_pair p f b)" and "\<forall>h. lib_ok e h Zalloc"
    and "0 \<le> sint (next_cp st)"
    and "sint (next_cp st) + int (length ks) \<le> 32767"
  shows "\<exists>rs st' ht'. resolve_all e w ks st = Some (rs, st') \<and> length rs = length ks \<and>
           zcurses_colorpairs st' = Some ht' \<and>
           next_cp st' = next_cp st + of_nat (length ks) \<and>
           (\<forall>k. k \<notin> set ks \<longrightarrow> ht' k = ht k) \<and>
           (\<forall>n < length ks.
              ht' (ks ! n) =
                (if COLOR_PAIRS e \<le> sint (next_cp st) + int n + 1 then None
                 else Some (next_cp st + of_nat (n + 1))) \<and>
              (COLOR_PAIRS e \<le> sint (next_cp st) + int n + 1 \<longrightarrow> rs ! n = 1))"
  using assms
proof (induction ks arbitrary: st ht)
  case Nil
  then show ?case by simp
next
  case (Cons k ks)
  from Cons.prems have k: "key_colors k \<noteq> None" "ht k = None" and kn: "k \<notin> set ks"
    by simp_all
  from Cons.prems have s1: "sint (next_cp st + 1) = sint (next_cp st) + 1"
    by (intro sint_succ_16) simp
  from colorset_fresh [OF k(1) Cons.prems(3) k(2) Cons.prems(5,6), of w]
  obtain r st1 where c: "zcurses_colorset e st w k = Some (r, st1)"
    and n1: "next_cp st1 = next_cp st + 1"
    and full: "COLOR_PAIRS e \<le> sint (next_cp st + 1) \<Longrightarrow> r = 1 \<and> zcurses_colorpairs st1 = Some ht"
    and room: "\<not> COLOR_PAIRS e \<le> sint (next_cp st + 1) \<Longrightarrow>
                 zcurses_colorpairs st1 = Some (ht(k \<mapsto> next_cp st + 1))"
    by blast
  define ht1 where "ht1 = (if COLOR_PAIRS e \<le> sint (next_cp st + 1) then ht
                            else ht(k \<mapsto> next_cp st + 1))"
  from full room have t1: "zcurses_colorpairs st1 = Some ht1"
    by (cases "COLOR_PAIRS e \<le> sint (next_cp st + 1)") (simp_all add: ht1_def)
  from Cons.prems kn have fresh1: "\<forall>k' \<in> set ks. ht1 k' = None"
    by (auto simp add: ht1_def)
  from Cons.prems s1 n1 have b1: "0 \<le> sint (next_cp st1)"
    and b2: "sint (next_cp st1) + int (length ks) \<le> 32767"
    by simp_all
  from Cons.prems have d: "distinct ks" and v: "\<forall>k \<in> set ks. key_colors k \<noteq> None"
    by simp_all
  from Cons.IH [OF d v t1 fresh1 Cons.prems(5,6) b1 b2]
  obtain rs st' ht' where r: "resolve_all e w ks st1 = Some (rs, st')"
    and len: "length rs = length ks"
    and t': "zcurses_colorpairs st' = Some ht'"
    and n': "next_cp st' = next_cp st1 + of_nat (length ks)"
    and keep: "\<forall>k'. k' \<notin> set ks \<longrightarrow> ht' k' = ht1 k'"
    and each: "\<forall>n < length ks.
              ht' (ks ! n) =
                (if COLOR_PAIRS e \<le> sint (next_cp st1) + int n + 1 then None
                 else Some (next_cp st1 + of_nat (n + 1))) \<and>
              (COLOR_PAIRS e \<le> sint (next_cp st1) + int n + 1 \<longrightarrow> rs ! n = 1)"
    by blast
  have res: "resolve_all e w (k # ks) st = Some (r # rs, st')"
    by (simp add: c r)
  have cnt: "next_cp st' = next_cp st + of_nat (length (k # ks))"
    by (simp add: n' n1 add.assoc)
  have frame: "\<forall>k'. k' \<notin> set (k # ks) \<longrightarrow> ht' k' = ht k'"
    using keep by (simp add: ht1_def)
  have nth: "ht' ((k # ks) ! n) =
                (if COLOR_PAIRS e \<le> sint (next_cp st) + int n + 1 then None
                 else Some (next_cp st + of_nat (n + 1))) \<and>
              (COLOR_PAIRS e \<le> sint (next_cp st) + int n + 1 \<longrightarrow> (r # rs) ! n = 1)"
    if "n < length (k # ks)" for n
  proof (cases n)
    case 0
    from keep kn have "ht' k = ht1 k" by simp
    with 0 k(2) s1 full show ?thesis
      by (auto simp add: ht1_def)
  next
    case (Suc m)
    with that have m: "m < length ks" by simp
    from each m have "ht' (ks ! m) =
                (if COLOR_PAIRS e \<le> sint (next_cp st1) + int m + 1 then None
                 else Some (next_cp st1 + of_nat (m + 1)))"
      and "COLOR_PAIRS e \<le> sint (next_cp st1) + int m + 1 \<longrightarrow> rs ! m = 1"
      by simp_all
    with Suc n1 s1 show ?thesis
      by (simp add: add.assoc add.commute)
  qed
  from res len t' cnt frame nth show ?case
    by (intro exI [of _ "r # rs"] exI [of _ st'] exI [of _ ht']) simp
qed

lemma strchr_Some: "strchr k c = Some i \<Longrightarrow> i < length k \<and> k ! i = c"
  by (induction k arbitrary: i) (auto split: if_splits)

lemma find_name_Some: "find_name t s = Some v \<Longrightarrow> s \<in> fst ` set t"
  by (induction t) (auto split: if_splits)

lemma color_known: "zcurses_color x \<noteq> - 1 \<Longrightarrow> x \<in> fst ` set zcurses_colors"
  by (cases "find_name zcurses_colors x") (auto simp add: zcurses_color_def dest: find_name_Some)

lemma valid_key_shape:
  assumes "key_colors k \<noteq> None"
  shows "k \<in> (\<lambda>(f, b). f @ CHR ''/'' # b) ` (fst ` set zcurses_colors \<times> fst ` set zcurses_colors)"
proof -
  from assms obtain i where i: "strchr k (CHR ''/'') = Some i"
    and f: "zcurses_color (take i k) \<noteq> - 1" and b: "zcurses_color (drop (Suc i) k) \<noteq> - 1"
    by (auto simp add: key_colors_def Let_def split: option.splits if_splits)
  from strchr_Some [OF i] have "k = take i k @ CHR ''/'' # drop (Suc i) k"
    using id_take_nth_drop [of i k] by simp
  with color_known [OF f] color_known [OF b] show ?thesis
    by (intro image_eqI [where x = "(take i k, drop (Suc i) k)"]) simp_all
qed

lemma valid_keys_bound:
  assumes "distinct ks" and "\<forall>k \<in> set ks. key_colors k \<noteq> None"
  shows "length ks \<le> 64"
proof -
  let ?N = "fst ` set zcurses_colors"
  let ?K = "(\<lambda>(f, b). f @ CHR ''/'' # b) ` (?N \<times> ?N)"
  have "card ?N \<le> 8"
    using card_image_le [of "set zcurses_colors" fst] card_length [of zcurses_colors]
    by (simp add: zcurses_colors_def)
  then have "card (?N \<times> ?N) \<le> 8 * 8"
    unfolding card_cartesian_product by (intro mult_le_mono)
  moreover have "card ?K \<le> card (?N \<times> ?N)"
    by (intro card_image_le) simp
  moreover from assms(2) have "set ks \<subseteq> ?K"
    using valid_key_shape by blast
  then have "card (set ks) \<le> card ?K"
    by (intro card_mono) simp_all
  ultimately show ?thesis
    using distinct_card [OF assms(1)] by simp
qed

section \<open>A batch of attribute tokens\<close>

text \<open>With a table, \<open>zcurses_colorset\<close> returns, and there is a table afterwards.\<close>

lemma colorset_returns:
  assumes "zcurses_colorpairs st = Some ht"
  shows "\<exists>r st'. zcurses_colorset e st w k = Some (r, st') \<and> zcurses_colorpairs st' \<noteq> None"
proof (cases "zc_color_phase st \<noteq> 1 \<and> ht k \<noteq> None")
  case True
  then obtain p where "ht k = Some p" by auto
  with True assms colorset_hit [of st ht k p e w] show ?thesis by simp
next
  case False
  with assms have a: "zcurses_colorset e st w k = colorset_alloc e st w k"
    by (intro colorset_miss) auto
  have "\<exists>r st'. colorset_alloc e st w k = Some (r, st')"
  proof (cases "key_colors k")
    case None
    from alloc_rejected_key [OF this, of e st w] show ?thesis by blast
  next
    case (Some fb)
    obtain f b where "fb = (f, b)" by (cases fb)
    with Some assms show ?thesis
      by (simp add: alloc_valid_key [of k f b] Let_def)
  qed
  then obtain r st' where c: "colorset_alloc e st w k = Some (r, st')" by blast
  from colorset_alloc_frame [OF c] assms have "zcurses_colorpairs st' \<noteq> None" by auto
  with a c show ?thesis by simp
qed

lemma attr_token_returns:
  assumes "zcurses_colorpairs st \<noteq> None \<or> strchr a (CHR ''/'') = None"
  shows "\<exists>f st'. attr_token e st w a = Some (f, st') \<and>
           (zcurses_colorpairs st \<noteq> None \<longrightarrow> zcurses_colorpairs st' \<noteq> None)"
proof (cases "strchr a (CHR ''/'') \<noteq> None")
  case True
  with assms obtain ht where "zcurses_colorpairs st = Some ht" by auto
  from colorset_returns [OF this, of e w a] True show ?thesis
    by (auto simp add: attr_token_def)
next
  case False
  obtain onoff ptr where op: "(case a of [] \<Rightarrow> (ZCURSES_ATTRON, a)
               | c # rest \<Rightarrow>
                   if c = CHR ''-'' then (ZCURSES_ATTROFF, rest)
                   else if c = CHR ''+'' then (ZCURSES_ATTRON, rest)
                   else (ZCURSES_ATTRON, a)) = (onoff, ptr)"
    by fastforce
  obtain r1 st1 where at: "zcurses_attribute e st w ptr onoff = (r1, st1)"
    by fastforce
  from False op at have "attr_token e st w a =
      (if r1 \<noteq> 0 then Some (1, zwarnnam st1 (Attr_not_known ptr)) else Some (0, st1))"
    by (simp add: attr_token_def)
  with attribute_frame [OF at] show ?thesis
    by (auto simp add: zwarnnam_def)
qed

lemma attr_each_returns:
  assumes "zcurses_colorpairs st \<noteq> None \<or> (\<forall>a \<in> set as. strchr a (CHR ''/'') = None)"
  shows "\<exists>fs st'. attr_each e w as st = Some (fs, st')"
  using assms
proof (induction as arbitrary: st)
  case Nil
  then show ?case by simp
next
  case (Cons a as)
  then have "zcurses_colorpairs st \<noteq> None \<or> strchr a (CHR ''/'') = None" by auto
  from attr_token_returns [OF this, of e w]
  obtain f st1 where t: "attr_token e st w a = Some (f, st1)"
    and k: "zcurses_colorpairs st \<noteq> None \<longrightarrow> zcurses_colorpairs st1 \<noteq> None" by blast
  from Cons.prems k have "zcurses_colorpairs st1 \<noteq> None \<or> (\<forall>a \<in> set as. strchr a (CHR ''/'') = None)"
    by auto
  from Cons.IH [OF this] obtain fs st' where "attr_each e w as st1 = Some (fs, st')" by blast
  with t show ?case by simp
qed

lemma s_mono_eq:
  "s_mono = \<lparr>zcurses_windows = [\<lparr>win = 2, name = ''stdscr'', flags = 1\<rparr>],
             zcurses_colorpairs = None, zc_errno = 0, zc_color_phase = 0,
             next_cp = 0, params = Map.empty,
             trace = [Zshcalloc, Gettyinfo Saved_tty_state, Initscr, Start_color, Cbreak,
                      Noecho, Gettyinfo Curses_tty_state],
             diags = []\<rparr>"
  by (simp add: s_mono_def zccmd_init_def zstate0_def env_mono_def env_ok_def step_defs const_defs)

text \<open>
  What \<open>zccmd_attr\<close> does with its tokens. When the window name resolves, it does what taking the
  tokens one at a time from left to right does, every one of them on the state its
  predecessor left, whether or not an earlier one failed. A token with a slash
  reports failure exactly when \<open>zcurses_colorset\<close> returns non-zero for it; a token without
  one exactly when its name, without a leading sign, is not in \<open>zcurses_attributes\<close>. When
  there is a colour table, or no token has a slash, every token is taken (there is one
  report for each) and the command returns 1 exactly when one of the tokens reported
  failure, and 0 otherwise. (Without a table, a token with a slash hands the NULL pointer
  to \<open>gethashnode\<close>, and nothing is returned.)
\<close>

theorem attr_batch:
  assumes "fst (zcurses_validate_window st (Some a0) ZCURSES_USED) = Some i"
    and "w = win (zcurses_windows st ! i)"
  shows "zccmd_attr e st (Some a0) as =
           (case attr_each e w as (st\<lparr>zc_errno := 0\<rparr>) of
              None \<Rightarrow> None
            | Some (fs, st') \<Rightarrow> Some (if \<exists>f \<in> set fs. f \<noteq> 0 then 1 else 0, st')) \<and>
         (\<forall>fs st'. attr_each e w as (st\<lparr>zc_errno := 0\<rparr>) = Some (fs, st') \<longrightarrow>
            length fs = length as) \<and>
         (\<forall>s a f s'. attr_token e s w a = Some (f, s') \<longrightarrow>
            (f \<noteq> 0 \<longleftrightarrow>
               (if strchr a (CHR ''/'') \<noteq> None
                then \<exists>r. zcurses_colorset e s w a = Some (r, s') \<and> r \<noteq> 0
                else find_name zcurses_attributes (attr_name a) = None))) \<and>
         (zcurses_colorpairs st \<noteq> None \<or> (\<forall>a \<in> set as. strchr a (CHR ''/'') = None) \<longrightarrow>
            (\<exists>fs st'. attr_each e w as (st\<lparr>zc_errno := 0\<rparr>) = Some (fs, st') \<and>
               length fs = length as \<and>
               zccmd_attr e st (Some a0) as =
                 Some (if \<exists>f \<in> set fs. f \<noteq> 0 then 1 else 0, st')))"
proof -
  from assms(1) have "a0 \<noteq> []" and "zcurses_getwindowbyname (zcurses_windows st) a0 = Some i"
    by (simp_all add: validate_resolves)
  then have "zccmd_attr e st (Some a0) as = attr_loop e w as (0, st\<lparr>zc_errno := 0\<rparr>)"
    by (simp add: zccmd_attr_def validate_used assms(2))
  then have eq: "zccmd_attr e st (Some a0) as =
           (case attr_each e w as (st\<lparr>zc_errno := 0\<rparr>) of
              None \<Rightarrow> None
            | Some (fs, st') \<Rightarrow> Some (if \<exists>f \<in> set fs. f \<noteq> 0 then 1 else 0, st'))"
    by (simp add: attr_loop_each)
  have ret: "\<exists>fs st'. attr_each e w as (st\<lparr>zc_errno := 0\<rparr>) = Some (fs, st') \<and>
               length fs = length as \<and>
               zccmd_attr e st (Some a0) as =
                 Some (if \<exists>f \<in> set fs. f \<noteq> 0 then 1 else 0, st')"
    if "zcurses_colorpairs st \<noteq> None \<or> (\<forall>a \<in> set as. strchr a (CHR ''/'') = None)"
  proof -
    from that have "zcurses_colorpairs (st\<lparr>zc_errno := 0\<rparr>) \<noteq> None \<or>
        (\<forall>a \<in> set as. strchr a (CHR ''/'') = None)" by simp
    from attr_each_returns [OF this, of e w] obtain fs st'
      where a: "attr_each e w as (st\<lparr>zc_errno := 0\<rparr>) = Some (fs, st')" by blast
    from attr_each_length [OF a] have "length fs = length as" .
    with eq a show ?thesis by simp
  qed
  have len: "\<forall>fs st'. attr_each e w as (st\<lparr>zc_errno := 0\<rparr>) = Some (fs, st') \<longrightarrow>
            length fs = length as"
    using attr_each_length [of e w as "st\<lparr>zc_errno := 0\<rparr>"] by blast
  have flag: "\<forall>s a f s'. attr_token e s w a = Some (f, s') \<longrightarrow>
            (f \<noteq> 0 \<longleftrightarrow>
               (if strchr a (CHR ''/'') \<noteq> None
                then \<exists>r. zcurses_colorset e s w a = Some (r, s') \<and> r \<noteq> 0
                else find_name zcurses_attributes (attr_name a) = None))"
    using attr_token_flag [of e _ w] by blast
  from ret have "zcurses_colorpairs st \<noteq> None \<or> (\<forall>a \<in> set as. strchr a (CHR ''/'') = None) \<longrightarrow>
            (\<exists>fs st'. attr_each e w as (st\<lparr>zc_errno := 0\<rparr>) = Some (fs, st') \<and>
               length fs = length as \<and>
               zccmd_attr e st (Some a0) as =
                 Some (if \<exists>f \<in> set fs. f \<noteq> 0 then 1 else 0, st'))"
    by blast
  with eq len flag show ?thesis
    by (intro conjI)
qed

theorem attr_batch_witness:
  "zccmd_attr env_ok s_w (Some ''w'') [''bold'', ''bogus'', ''+reverse'', ''red/blue''] =
     Some (1, s_w\<lparr>zc_color_phase := 2, next_cp := 1,
                   zcurses_colorpairs := Some [''red/blue'' \<mapsto> 1],
                   trace := trace s_w @ [Wattron 8 2097152, Wattron 8 262144, Init_pair 1 1 4,
                                         Zalloc, Wcolor_set 8 1],
                   diags := [Attr_not_known ''bogus'']\<rparr>) \<and>
   map_option fst (attr_each env_ok 8 [''bold'', ''bogus'', ''+reverse'', ''red/blue''] s_w) =
     Some [0, 1, 0, 0] \<and>
   map_option fst (zccmd_attr env_ok s_w (Some ''stdscr'') [''bold'', ''+reverse'']) = Some 0 \<and>
   zcurses_colorpairs s_w \<noteq> None"
proof -
  have 1: "fst (zcurses_validate_window s_w (Some ''w'') ZCURSES_USED) = Some 1"
    by (simp add: s_w_eq step_defs const_defs)
  have 2: "8 = win (zcurses_windows s_w ! 1)"
    by (simp add: s_w_eq)
  have 3: "s_w\<lparr>zc_errno := 0\<rparr> = s_w"
    by (simp add: s_w_eq)
  have 4: "attr_each env_ok 8 [''bold'', ''bogus'', ''+reverse'', ''red/blue''] s_w =
     Some ([0, 1, 0, 0],
           s_w\<lparr>zc_color_phase := 2, next_cp := 1,
                   zcurses_colorpairs := Some [''red/blue'' \<mapsto> 1],
                   trace := trace s_w @ [Wattron 8 2097152, Wattron 8 262144, Init_pair 1 1 4,
                                         Zalloc, Wcolor_set 8 1],
                   diags := [Attr_not_known ''bogus'']\<rparr>)"
    by (simp add: s_w_eq attr_defs color_defs env_ok_def step_defs const_defs)
  have 5: "fst (zcurses_validate_window s_w (Some ''stdscr'') ZCURSES_USED) = Some 0"
    by (simp add: s_w_eq step_defs const_defs)
  have 6: "2 = win (zcurses_windows s_w ! 0)"
    by (simp add: s_w_eq)
  have 7: "map_option fst (attr_each env_ok 2 [''bold'', ''+reverse''] s_w) = Some [0, 0]"
    by (simp add: s_w_eq attr_defs color_defs env_ok_def step_defs const_defs)
  have 8: "zcurses_colorpairs s_w \<noteq> None"
    by (simp add: s_w_eq)
  from attr_batch [OF 1 2, of env_ok "[''bold'', ''bogus'', ''+reverse'', ''red/blue'']"]
    attr_batch [OF 5 6, of env_ok "[''bold'', ''+reverse'']"] 3 4 7 8
  show ?thesis
    by (auto split: option.splits)
qed

text \<open>
  C7 says that \<open>attr\<close> on a valid window takes every token and returns failure exactly
  when one of them failed. On a terminal where \<open>start_color\<close> fails, \<open>zcurses init\<close> returns
  0 and leaves the table pointer NULL. \<open>zcurses attr stdscr red/blue bold\<close> then names a valid
  window, and its first token makes \<open>zcurses_colorset\<close> hand the NULL pointer to
  \<open>gethashnode\<close>: the command has no result, failure is not returned, and \<open>bold\<close>, which
  is switched on when it stands alone, is not reached. (\<open>cleanup_\<close> tests the pointer
  before it uses it; \<open>zcurses_colorset\<close> does not.)
\<close>

theorem attr_null_table:
  "lib_ok env_mono [Zshcalloc, Gettyinfo Saved_tty_state, Initscr] Start_color = False \<and>
   run env_mono [Cmd_init] zstate0 = Some ([0], s_mono) \<and>
   zcurses_colorpairs s_mono = None \<and>
   fst (zcurses_validate_window s_mono (Some ''stdscr'') ZCURSES_USED) = Some 0 \<and>
   zccmd_attr env_mono s_mono (Some ''stdscr'') [''red/blue'', ''bold''] = None \<and>
   run env_mono [Cmd_init, Cmd_attr ''stdscr'' [''red/blue'', ''bold'']] zstate0 = None \<and>
   attr_token env_mono s_mono 2 ''red/blue'' = None \<and>
   attr_token env_mono s_mono 2 ''bold'' =
     Some (0, s_mono\<lparr>trace := trace s_mono @ [Wattron 2 2097152]\<rparr>) \<and>
   map_option fst (zccmd_attr env_mono s_mono (Some ''stdscr'') [''bold'', ''bogus'']) = Some 1"
proof -
  have 1: "bin_zcurses env_mono zstate0 Cmd_init = Some (0, s_mono)"
    by (simp add: s_mono_eq bin_zcurses_def zccmd_init_def zstate0_def env_mono_def env_ok_def
        step_defs const_defs)
  have 2: "zccmd_attr env_mono s_mono (Some ''stdscr'') [''red/blue'', ''bold''] = None"
    by (simp add: s_mono_eq attr_defs color_defs env_mono_def env_ok_def step_defs const_defs)
  have 3: "map_option fst (zccmd_attr env_mono s_mono (Some ''stdscr'') [''bold'', ''bogus'']) = Some 1"
    by (simp add: s_mono_eq attr_defs color_defs env_mono_def env_ok_def step_defs const_defs)
  have 4: "bin_zcurses env_mono s_mono (Cmd_attr ''stdscr'' [''red/blue'', ''bold'']) = None"
    using 2 by (simp add: bin_zcurses_def s_mono_eq)
  have 5: "attr_token env_mono s_mono 2 ''red/blue'' = None"
    by (simp add: s_mono_eq attr_defs color_defs env_mono_def env_ok_def step_defs const_defs)
  have 6: "attr_token env_mono s_mono 2 ''bold'' =
     Some (0, s_mono\<lparr>trace := trace s_mono @ [Wattron 2 2097152]\<rparr>)"
    by (simp add: s_mono_eq attr_defs color_defs env_mono_def env_ok_def step_defs const_defs)
  have 7: "fst (zcurses_validate_window s_mono (Some ''stdscr'') ZCURSES_USED) = Some 0"
    by (simp add: s_mono_eq step_defs const_defs)
  have 8: "lib_ok env_mono [Zshcalloc, Gettyinfo Saved_tty_state, Initscr] Start_color = False"
    by (simp add: env_mono_def)
  from 1 2 3 4 5 6 7 8 show ?thesis
    by (simp add: s_mono_eq)
qed

section \<open>Capacity\<close>

text \<open>
  C3. Take pairwise distinct well-formed keys that are not in the table, a counter at 0,
  and a library that accepts every \<open>init_pair\<close> (and an allocator that never fails), and
  resolve the keys one after the other. Then every resolution returns, the n-th of them
  (counting from 1) is given the identifier n and entered in the table when n is at
  most \<open>COLOR_PAIRS - 1\<close>, and fails, returning 1 with its key not entered, exactly when n
  exceeds \<open>COLOR_PAIRS - 1\<close>. The counter ends at the number of keys. (There are at most 64
  such keys, so the counter does not wrap.)
\<close>

theorem pair_capacity:
  assumes "distinct ks"
    and "\<forall>k \<in> set ks. key_colors k \<noteq> None"
    and "zcurses_colorpairs st = Some ht"
    and "\<forall>k \<in> set ks. ht k = None"
    and "next_cp st = 0"
    and "\<forall>h p f b. lib_ok e h (Init_pair p f b)" and "\<forall>h. lib_ok e h Zalloc"
  shows "\<exists>rs st' ht'. resolve_all e w ks st = Some (rs, st') \<and> length rs = length ks \<and>
           zcurses_colorpairs st' = Some ht' \<and>
           next_cp st' = of_nat (length ks) \<and>
           (\<forall>n < length ks.
              ht' (ks ! n) =
                (if int (n + 1) > COLOR_PAIRS e - 1 then None else Some (of_nat (n + 1))) \<and>
              (int (n + 1) > COLOR_PAIRS e - 1 \<longrightarrow> rs ! n = 1) \<and>
              sint (of_nat (n + 1) :: short) = int (n + 1))"
proof -
  from valid_keys_bound [OF assms(1,2)] have len: "length ks \<le> 64" .
  from assms(5) have z: "0 \<le> sint (next_cp st)" "sint (next_cp st) = 0"
    by simp_all
  from len z have b: "sint (next_cp st) + int (length ks) \<le> 32767"
    by simp
  from resolve_fresh [OF assms(1-4) assms(6,7) z(1) b, of w]
  obtain rs st' ht' where r: "resolve_all e w ks st = Some (rs, st')"
    and l: "length rs = length ks"
    and t: "zcurses_colorpairs st' = Some ht'"
    and n: "next_cp st' = next_cp st + of_nat (length ks)"
    and each: "\<forall>n < length ks.
              ht' (ks ! n) =
                (if COLOR_PAIRS e \<le> sint (next_cp st) + int n + 1 then None
                 else Some (next_cp st + of_nat (n + 1))) \<and>
              (COLOR_PAIRS e \<le> sint (next_cp st) + int n + 1 \<longrightarrow> rs ! n = 1)"
    by blast
  have s: "sint (of_nat (m + 1) :: short) = int (m + 1)" if "m < length ks" for m
    using sint_add_nat_16 [of "0 :: short" "m + 1"] that len by simp
  have "ht' (ks ! m) =
                (if int (m + 1) > COLOR_PAIRS e - 1 then None else Some (of_nat (m + 1))) \<and>
              (int (m + 1) > COLOR_PAIRS e - 1 \<longrightarrow> rs ! m = 1) \<and>
              sint (of_nat (m + 1) :: short) = int (m + 1)"
    if "m < length ks" for m
    using each that s [OF that] assms(5) by (auto simp add: z(2))
  with r l t n assms(5) show ?thesis
    by (intro exI [of _ rs] exI [of _ st'] exI [of _ ht']) simp
qed

lemmas key_defs = key_colors_def zcurses_color_def zcurses_colors_def

theorem pair_capacity_witness:
  "distinct [''red/blue'', ''green/blue'', ''white/black''] \<and>
   key_colors ''red/blue'' = Some (1, 4) \<and> key_colors ''green/blue'' = Some (2, 4) \<and>
   key_colors ''white/black'' = Some (7, 0) \<and> next_cp s_w = 0 \<and>
   (\<exists>rs st' ht'.
      resolve_all env_cap3 8 [''red/blue'', ''green/blue'', ''white/black''] s_w = Some (rs, st') \<and>
      zcurses_colorpairs st' = Some ht' \<and> next_cp st' = 3 \<and>
      ht' ''red/blue'' = Some 1 \<and> ht' ''green/blue'' = Some 2 \<and> ht' ''white/black'' = None \<and>
      rs ! 2 = 1)"
proof -
  let ?ks = "[''red/blue'', ''green/blue'', ''white/black'']"
  have k: "key_colors ''red/blue'' = Some (1, 4)" "key_colors ''green/blue'' = Some (2, 4)"
    "key_colors ''white/black'' = Some (7, 0)"
    by (simp_all add: key_defs)
  have 1: "distinct ?ks" by simp
  have 2: "\<forall>k \<in> set ?ks. key_colors k \<noteq> None"
    using k by simp
  have 3: "zcurses_colorpairs s_w = Some Map.empty"
    by (simp add: s_w_eq)
  have 4: "\<forall>k \<in> set ?ks. Map.empty k = (None :: short option)"
    by simp
  have 5: "next_cp s_w = 0"
    by (simp add: s_w_eq)
  have 6: "\<forall>h p f b. lib_ok env_cap3 h (Init_pair p f b)" and 7: "\<forall>h. lib_ok env_cap3 h Zalloc"
    by (simp_all add: env_cap3_def env_ok_def)
  from pair_capacity [OF 1 2 3 4 5 6 7, of 8]
  obtain rs st' ht' where r: "resolve_all env_cap3 8 ?ks s_w = Some (rs, st')"
    and t: "zcurses_colorpairs st' = Some ht'" and n: "next_cp st' = of_nat (length ?ks)"
    and each: "\<forall>n < length ?ks.
              ht' (?ks ! n) =
                (if int (n + 1) > COLOR_PAIRS env_cap3 - 1 then None else Some (of_nat (n + 1))) \<and>
              (int (n + 1) > COLOR_PAIRS env_cap3 - 1 \<longrightarrow> rs ! n = 1) \<and>
              sint (of_nat (n + 1) :: short) = int (n + 1)"
    by blast
  from each [rule_format, of 0] each [rule_format, of 1] each [rule_format, of 2]
  have "ht' ''red/blue'' = Some 1 \<and> ht' ''green/blue'' = Some 2 \<and> ht' ''white/black'' = None \<and>
      rs ! 2 = 1"
    by (simp add: env_cap3_def env_ok_def)
  with r t n k 1 5 show ?thesis
    by (intro conjI exI [of _ rs] exI [of _ st'] exI [of _ ht']) simp_all
qed

section \<open>Invariants of a script\<close>

lemma attr_loop_inv:
  assumes step: "\<And>s a f s'. P s \<Longrightarrow> attr_token e s w a = Some (f, s') \<Longrightarrow> P s'"
    and "P st" and "attr_loop e w as (ret, st) = Some (r, st')"
  shows "P st'"
  using assms(2,3)
proof (induction as arbitrary: ret st)
  case Nil
  then show ?case by simp
next
  case (Cons a as)
  from Cons.prems(2) obtain f st1 where t: "attr_token e st w a = Some (f, st1)"
    and l: "attr_loop e w as (if f \<noteq> 0 then 1 else ret, st1) = Some (r, st')"
    by (auto split: option.splits)
  from Cons.IH [OF step [OF Cons.prems(1) t] l] show ?case .
qed

lemma run_inv:
  assumes step: "\<And>s c r s'. P s \<Longrightarrow> bin_zcurses e s c = Some (r, s') \<Longrightarrow> P s'"
    and "P st" and "run e cs st = Some (rs, st')"
  shows "P st'"
  using assms(2,3)
proof (induction cs arbitrary: st rs)
  case Nil
  then show ?case by simp
next
  case (Cons c cs)
  from Cons.prems(2) obtain r st1 rs1 where b: "bin_zcurses e st c = Some (r, st1)"
    and r: "run e cs st1 = Some (rs1, st')"
    by (auto split: option.splits)
  from Cons.IH [OF step [OF Cons.prems(1) b] r] show ?case .
qed

text \<open>What a token of \<open>attr\<close> can do to the colour state: nothing, or what \<open>zcurses_colorset\<close> does.\<close>

lemma attr_token_colors:
  assumes "attr_token e st w a = Some (f, st')"
  shows "(zc_color_phase st' = zc_color_phase st \<and> zcurses_colorpairs st' = zcurses_colorpairs st \<and>
          next_cp st' = next_cp st) \<or>
         (\<exists>r. zcurses_colorset e st w a = Some (r, st'))"
proof (cases "strchr a (CHR ''/'') \<noteq> None")
  case True
  with assms show ?thesis
    by (auto simp add: attr_token_def split: option.splits)
next
  case False
  obtain onoff ptr where op: "(case a of [] \<Rightarrow> (ZCURSES_ATTRON, a)
               | c # rest \<Rightarrow>
                   if c = CHR ''-'' then (ZCURSES_ATTROFF, rest)
                   else if c = CHR ''+'' then (ZCURSES_ATTRON, rest)
                   else (ZCURSES_ATTRON, a)) = (onoff, ptr)"
    by fastforce
  obtain r1 st1 where at: "zcurses_attribute e st w ptr onoff = (r1, st1)"
    by fastforce
  from assms False op at have "st' = zwarnnam st1 (Attr_not_known ptr) \<or> st' = st1"
    by (auto simp add: attr_token_def split: if_splits)
  with attribute_frame [OF at] show ?thesis
    by (auto simp add: zwarnnam_def)
qed

text \<open>What a command can do to the colour state.\<close>

lemma colorset_phase:
  assumes "zcurses_colorset e st w k = Some (r, st')"
  shows "zc_color_phase st' = zc_color_phase st \<or> zc_color_phase st' = 2"
  using assms
  by (auto simp add: zcurses_colorset_def dest: colorset_alloc_frame colorset_apply_frame
      split: if_splits option.splits)

lemma init_phase:
  "case zccmd_init e st of (r, st') \<Rightarrow>
     zc_color_phase st' = zc_color_phase st \<or> (zc_color_phase st = 0 \<and> zc_color_phase st' = 1)"
  by (simp add: zccmd_init_def libcall_def libwin_def Let_def split: option.split)

lemma bin_zcurses_phase2:
  assumes "zc_color_phase st = 2" and "bin_zcurses e st c = Some (r, st')"
  shows "zc_color_phase st' = 2"
proof (cases "st' = zwarnnam st Too_few_arguments \<or> st' = zwarnnam st Cant_be_used_before_init")
  case True
  with assms(1) show ?thesis by (auto simp add: zwarnnam_def)
next
  case False
  show ?thesis
  proof (cases c)
    case Cmd_init
    with assms(2) have "zccmd_init e st = (r, st')"
      by (simp add: bin_zcurses_def)
    with init_phase [where e = e and st = st] assms(1) show ?thesis by auto
  next
    case (Cmd_addwin a0 a1 a2 a3 a4)
    with assms(2) False have "zccmd_addwin e st a0 a1 a2 a3 a4 = (r, st')"
      by (auto simp add: bin_zcurses_def split: if_splits)
    from addwin_frame [OF this] assms(1) show ?thesis by simp
  next
    case (Cmd_delwin a0)
    with assms(2) False have "zccmd_delwin e st a0 = (r, st')"
      by (auto simp add: bin_zcurses_def split: if_splits)
    from delwin_frame [OF this] assms(1) show ?thesis by simp
  next
    case (Cmd_attr a0 as)
    with assms(2) False have a: "zccmd_attr e st (Some a0) as = Some (r, st')"
      by (auto simp add: bin_zcurses_def split: if_splits)
    show ?thesis
    proof (cases "fst (zcurses_validate_window st (Some a0) ZCURSES_USED)")
      case None
      with a assms(1) show ?thesis
        by (auto simp add: zccmd_attr_def zwarnnam_def validate_used split: prod.splits if_splits option.splits)
    next
      case (Some i)
      then have "a0 \<noteq> []" and "zcurses_getwindowbyname (zcurses_windows st) a0 = Some i"
        by (simp_all add: validate_resolves)
      with a have l: "attr_loop e (win (zcurses_windows st ! i)) as (0, st\<lparr>zc_errno := 0\<rparr>) = Some (r, st')"
        by (simp add: zccmd_attr_def validate_used)
      have "zc_color_phase s' = 2" if "zc_color_phase s = 2" and "attr_token e s w a = Some (f, s')"
        for s w a f s'
        using attr_token_colors [OF that(2)] that(1) by (auto dest: colorset_phase)
      from attr_loop_inv [where P = "\<lambda>s. zc_color_phase s = 2", OF this _ l] assms(1)
      show ?thesis by simp
    qed
  next
    case (Cmd_scroll a0 a1)
    with assms(2) False have "zccmd_scroll e st a0 a1 = (r, st')"
      by (auto simp add: bin_zcurses_def split: if_splits)
    from scroll_frame [OF this] assms(1) show ?thesis by simp
  next
    case (Cmd_input a0 a1 a2)
    with assms(2) False have "zccmd_input e st a0 a1 a2 = (r, st')"
      by (auto simp add: bin_zcurses_def split: if_splits)
    from input_frame [OF this] assms(1) show ?thesis by simp
  qed
qed

lemma run_phase2:
  "zc_color_phase st = 2 \<Longrightarrow> run e cs st = Some (rs, st') \<Longrightarrow> zc_color_phase st' = 2"
  using run_inv [where P = "\<lambda>s. zc_color_phase s = 2"] bin_zcurses_phase2 by blast

lemma init_colors:
  "case zccmd_init e st of (r, st') \<Rightarrow>
     next_cp st' = next_cp st \<and>
     ((zc_color_phase st' = zc_color_phase st \<and> zcurses_colorpairs st' = zcurses_colorpairs st) \<or>
      (zcurses_colorpairs st' = Some Map.empty \<and>
       zc_color_phase st' = (if zc_color_phase st = 0 then 1 else zc_color_phase st)))"
  by (simp add: zccmd_init_def libcall_def libwin_def Let_def split: option.split)

lemma colorset_table_fresh:
  assumes "table_fresh s" and "zcurses_colorset e s w a = Some (r, s')"
  shows "table_fresh s'"
proof (cases "zc_color_phase s = 1")
  case True
  with assms(2) have "colorset_alloc e s w a = Some (r, s')"
    by (simp add: zcurses_colorset_def)
  from colorset_alloc_frame [OF this] show ?thesis
    by (simp add: table_fresh_def)
next
  case False
  with assms(2) have "zcurses_colorpairs s \<noteq> None"
    by (cases "zcurses_colorpairs s") (simp_all add: zcurses_colorset_def)
  with assms(1) have "zc_color_phase s \<noteq> 0"
    by (auto simp add: table_fresh_def)
  with False colorset_phase [OF assms(2)] show ?thesis
    by (auto simp add: table_fresh_def)
qed

lemma bin_zcurses_table_fresh:
  assumes "table_fresh st" and "bin_zcurses e st c = Some (r, st')"
  shows "table_fresh st'"
proof (cases "st' = zwarnnam st Too_few_arguments \<or> st' = zwarnnam st Cant_be_used_before_init")
  case True
  with assms(1) show ?thesis by (auto simp add: zwarnnam_def table_fresh_def)
next
  case False
  show ?thesis
  proof (cases c)
    case Cmd_init
    with assms(2) have "zccmd_init e st = (r, st')"
      by (simp add: bin_zcurses_def)
    with init_colors [where e = e and st = st] assms(1) show ?thesis
      by (auto simp add: table_fresh_def split: if_splits)
  next
    case (Cmd_addwin a0 a1 a2 a3 a4)
    with assms(2) False have "zccmd_addwin e st a0 a1 a2 a3 a4 = (r, st')"
      by (auto simp add: bin_zcurses_def split: if_splits)
    from addwin_frame [OF this] assms(1) show ?thesis by (simp add: table_fresh_def)
  next
    case (Cmd_delwin a0)
    with assms(2) False have "zccmd_delwin e st a0 = (r, st')"
      by (auto simp add: bin_zcurses_def split: if_splits)
    from delwin_frame [OF this] assms(1) show ?thesis by (simp add: table_fresh_def)
  next
    case (Cmd_attr a0 as)
    with assms(2) False have a: "zccmd_attr e st (Some a0) as = Some (r, st')"
      by (auto simp add: bin_zcurses_def split: if_splits)
    show ?thesis
    proof (cases "fst (zcurses_validate_window st (Some a0) ZCURSES_USED)")
      case None
      with a assms(1) show ?thesis
        by (auto simp add: zccmd_attr_def zwarnnam_def validate_used table_fresh_def
            split: prod.splits if_splits option.splits)
    next
      case (Some i)
      then have "a0 \<noteq> []" and "zcurses_getwindowbyname (zcurses_windows st) a0 = Some i"
        by (simp_all add: validate_resolves)
      with a have l: "attr_loop e (win (zcurses_windows st ! i)) as (0, st\<lparr>zc_errno := 0\<rparr>) = Some (r, st')"
        by (simp add: zccmd_attr_def validate_used)
      have "table_fresh s'" if "table_fresh s" and "attr_token e s w a = Some (f, s')"
        for s w a f s'
        using attr_token_colors [OF that(2)] that(1) colorset_table_fresh [OF that(1)]
        by (auto simp add: table_fresh_def)
      from attr_loop_inv [where P = table_fresh, OF this _ l] assms(1)
      show ?thesis by (simp add: table_fresh_def)
    qed
  next
    case (Cmd_scroll a0 a1)
    with assms(2) False have "zccmd_scroll e st a0 a1 = (r, st')"
      by (auto simp add: bin_zcurses_def split: if_splits)
    from scroll_frame [OF this] assms(1) show ?thesis by (simp add: table_fresh_def)
  next
    case (Cmd_input a0 a1 a2)
    with assms(2) False have "zccmd_input e st a0 a1 a2 = (r, st')"
      by (auto simp add: bin_zcurses_def split: if_splits)
    from input_frame [OF this] assms(1) show ?thesis by (simp add: table_fresh_def)
  qed
qed

lemma run_table_fresh:
  assumes "run e cs zstate0 = Some (rs, st)"
  shows "table_fresh st"
proof -
  have "table_fresh zstate0"
    by (simp add: table_fresh_def zstate0_def)
  from run_inv [where P = table_fresh, OF bin_zcurses_table_fresh this assms]
  show ?thesis .
qed

section \<open>The end of the bypass phase\<close>

text \<open>
  C10, as the code has it. In phase 1, with a table, \<open>zcurses_colorset\<close> returns and leaves
  phase 2 behind whatever the outcome: when the key is malformed or names an unknown
  colour it returns 1 with the table and the counter as they were and without a call to
  the library; when the capacity test or \<open>init_pair\<close> fails it returns 1 with the table
  as it was. After any script run from there the phase is still 2, and a key that is in
  the table is then answered from the table: the only effect is \<open>wcolor_set\<close> with the
  cached identifier. No entry of the table is older than the bypass phase, though: in a
  state that a script reaches from the initial one, the table of phase 1 is empty.
\<close>

theorem bypass_ends_on_first_attempt:
  assumes "zc_color_phase st = 1" and "zcurses_colorpairs st = Some ht"
  shows "\<exists>r st1. zcurses_colorset e st w k = Some (r, st1) \<and> zc_color_phase st1 = 2 \<and>
     (key_colors k = None \<longrightarrow>
        r = 1 \<and> zcurses_colorpairs st1 = Some ht \<and> next_cp st1 = next_cp st \<and>
        trace st1 = trace st) \<and>
     (\<forall>f b. key_colors k = Some (f, b) \<and>
            (COLOR_PAIRS e \<le> sint (next_cp st + 1) \<or>
             \<not> lib_ok e (trace st) (Init_pair (next_cp st + 1) f b)) \<longrightarrow>
        r = 1 \<and> zcurses_colorpairs st1 = Some ht) \<and>
     (\<forall>cs rs st2. run e cs st1 = Some (rs, st2) \<longrightarrow>
        zc_color_phase st2 = 2 \<and>
        (\<forall>ht2 k2 p w2. zcurses_colorpairs st2 = Some ht2 \<and> ht2 k2 = Some p \<longrightarrow>
           zcurses_colorset e st2 w2 k2 =
             Some (if lib_ok e (trace st2) (Wcolor_set w2 p) then 0 else 1,
                   st2\<lparr>trace := trace st2 @ [Wcolor_set w2 p]\<rparr>))) \<and>
     ((\<exists>cs rs. run e cs zstate0 = Some (rs, st)) \<longrightarrow> ht = Map.empty)"
proof -
  from assms(1) have a: "zcurses_colorset e st w k = colorset_alloc e st w k"
    by (simp add: colorset_miss)
  have ex: "\<exists>r st1. colorset_alloc e st w k = Some (r, st1)"
  proof (cases "key_colors k")
    case None
    from alloc_rejected_key [OF this, of e st w] show ?thesis by blast
  next
    case (Some fb)
    obtain f b where "fb = (f, b)" by (cases fb)
    with Some assms(2) show ?thesis
      by (simp add: alloc_valid_key [of k f b] Let_def)
  qed
  then obtain r st1 where c: "colorset_alloc e st w k = Some (r, st1)" by blast
  from colorset_alloc_frame [OF c] have p2: "zc_color_phase st1 = 2" by simp
  have rej: "r = 1 \<and> zcurses_colorpairs st1 = Some ht \<and> next_cp st1 = next_cp st \<and>
        trace st1 = trace st" if "key_colors k = None"
    using alloc_rejected_key [OF that, of e st w] c assms(2) by auto
  have full: "r = 1 \<and> zcurses_colorpairs st1 = Some ht"
    if "key_colors k = Some (f, b)"
      and "COLOR_PAIRS e \<le> sint (next_cp st + 1) \<or>
             \<not> lib_ok e (trace st) (Init_pair (next_cp st + 1) f b)" for f b
  proof (cases "COLOR_PAIRS e \<le> sint (next_cp st + 1)")
    case True
    with c assms(2) show ?thesis
      by (auto simp add: alloc_valid_key [OF that(1)] Let_def)
  next
    case False
    with that(2) have "\<not> lib_ok e (trace st) (Init_pair (next_cp st + 1) f b)" by simp
    with False c assms(2) show ?thesis
      by (auto simp add: alloc_valid_key [OF that(1)] Let_def)
  qed
  have later: "zc_color_phase st2 = 2 \<and>
        (\<forall>ht2 k2 p w2. zcurses_colorpairs st2 = Some ht2 \<and> ht2 k2 = Some p \<longrightarrow>
           zcurses_colorset e st2 w2 k2 =
             Some (if lib_ok e (trace st2) (Wcolor_set w2 p) then 0 else 1,
                   st2\<lparr>trace := trace st2 @ [Wcolor_set w2 p]\<rparr>))"
    if "run e cs st1 = Some (rs, st2)" for cs rs st2
  proof -
    from run_phase2 [OF p2 that] have "zc_color_phase st2 = 2" .
    then show ?thesis
      using colorset_hit [of st2] by simp
  qed
  have fresh: "ht = Map.empty" if "\<exists>cs rs. run e cs zstate0 = Some (rs, st)"
    using that run_table_fresh assms by (auto simp add: table_fresh_def)
  have 1: "zcurses_colorset e st w k = Some (r, st1)"
    using a c by simp
  have 3: "key_colors k = None \<longrightarrow>
        r = 1 \<and> zcurses_colorpairs st1 = Some ht \<and> next_cp st1 = next_cp st \<and>
        trace st1 = trace st"
    by (intro impI) (rule rej)
  have 4: "\<forall>f b. key_colors k = Some (f, b) \<and>
            (COLOR_PAIRS e \<le> sint (next_cp st + 1) \<or>
             \<not> lib_ok e (trace st) (Init_pair (next_cp st + 1) f b)) \<longrightarrow>
        r = 1 \<and> zcurses_colorpairs st1 = Some ht"
    using full by (intro allI impI) (elim conjE)
  have 5: "\<forall>cs rs st2. run e cs st1 = Some (rs, st2) \<longrightarrow>
        zc_color_phase st2 = 2 \<and>
        (\<forall>ht2 k2 p w2. zcurses_colorpairs st2 = Some ht2 \<and> ht2 k2 = Some p \<longrightarrow>
           zcurses_colorset e st2 w2 k2 =
             Some (if lib_ok e (trace st2) (Wcolor_set w2 p) then 0 else 1,
                   st2\<lparr>trace := trace st2 @ [Wcolor_set w2 p]\<rparr>))"
    by (intro allI impI) (rule later)
  have 6: "(\<exists>cs rs. run e cs zstate0 = Some (rs, st)) \<longrightarrow> ht = Map.empty"
    by (intro impI) (rule fresh)
  from 1 p2 3 4 5 6 show ?thesis
    by (intro exI [of _ r] exI [of _ st1] conjI)
qed

theorem bypass_ends_on_first_attempt_witness:
  "zc_color_phase s_w = 1 \<and> zcurses_colorpairs s_w = Some Map.empty \<and>
   key_colors ''red/bogus'' = None \<and>
   (\<exists>r st1. zcurses_colorset env_ok s_w 8 ''red/bogus'' = Some (r, st1) \<and>
      zc_color_phase st1 = 2 \<and> r = 1 \<and> zcurses_colorpairs st1 = Some Map.empty \<and>
      next_cp st1 = 0 \<and> trace st1 = trace s_w)"
proof -
  have 1: "zc_color_phase s_w = 1" and 2: "zcurses_colorpairs s_w = Some Map.empty"
    and 3: "key_colors ''red/bogus'' = None" and 4: "next_cp s_w = 0"
    by (simp_all add: s_w_eq key_defs)
  from bypass_ends_on_first_attempt [OF 1 2, of env_ok 8 "''red/bogus''"] 1 2 3 4
  show ?thesis by auto
qed

text \<open>
  After \<open>init\<close> and a first attempt that fails on an unknown colour, the next resolution
  finds nothing in the table and defines pair 1. And no script from the initial state
  reaches phase 1 with a key in the table: there is no entry from before the bypass phase
  that a later lookup could return.
\<close>

theorem no_entry_older_than_bypass:
  "map_option (\<lambda>(rs, s). (rs, trace s))
     (run env_ok [Cmd_init, Cmd_attr ''stdscr'' [''red/bogus''], Cmd_attr ''stdscr'' [''red/blue'']]
        zstate0) =
     Some ([0, 1, 0],
           [Zshcalloc, Gettyinfo Saved_tty_state, Initscr, Start_color, Cbreak, Noecho,
            Gettyinfo Curses_tty_state, Init_pair 1 1 4, Zalloc, Wcolor_set 2 1]) \<and>
   \<not> (\<exists>e cs rs st ht k p. run e cs zstate0 = Some (rs, st) \<and> zc_color_phase st = 1 \<and>
         zcurses_colorpairs st = Some ht \<and> ht k = Some p)"
proof -
  have "map_option (\<lambda>(rs, s). (rs, trace s))
     (run env_ok [Cmd_init, Cmd_attr ''stdscr'' [''red/bogus''], Cmd_attr ''stdscr'' [''red/blue'']]
        zstate0) =
     Some ([0, 1, 0],
           [Zshcalloc, Gettyinfo Saved_tty_state, Initscr, Start_color, Cbreak, Noecho,
            Gettyinfo Curses_tty_state, Init_pair 1 1 4, Zalloc, Wcolor_set 2 1])"
    by (simp add: bin_zcurses_def zccmd_init_def zstate0_def attr_defs color_defs
        env_ok_def step_defs const_defs)
  moreover have "\<not> (\<exists>e cs rs st ht k p. run e cs zstate0 = Some (rs, st) \<and> zc_color_phase st = 1 \<and>
         zcurses_colorpairs st = Some ht \<and> ht k = Some p)"
    using run_table_fresh by (fastforce simp add: table_fresh_def)
  ultimately show ?thesis by blast
qed

section \<open>A resolved key keeps its pair\<close>

lemma session_windows:
  assumes "session st"
    and "map name ws = map name (zcurses_windows st)"
    and "map (\<lambda>w. flags w AND ZCWF_PERMANENT) ws =
         map (\<lambda>w. flags w AND ZCWF_PERMANENT) (zcurses_windows st)"
    and "zcurses_windows st' = ws"
  shows "session st'"
proof -
  from assms(1) obtain i where i: "zcurses_getwindowbyname (zcurses_windows st) ''stdscr'' = Some i"
    and p: "flags (zcurses_windows st ! i) AND ZCWF_PERMANENT \<noteq> 0"
    by (auto simp add: session_def split: option.splits)
  from getwindowbyname_names [OF assms(2)] i
  have i': "zcurses_getwindowbyname ws ''stdscr'' = Some i" by simp
  from getwindowbyname_bound [OF i] have "i < length (zcurses_windows st)" by simp
  moreover from assms(2) have "length ws = length (zcurses_windows st)"
    using length_map by metis
  ultimately have "flags (ws ! i) AND ZCWF_PERMANENT = flags (zcurses_windows st ! i) AND ZCWF_PERMANENT"
    using arg_cong [OF assms(3), of "\<lambda>xs. xs ! i"] by simp
  with p i' assms(4) show ?thesis
    by (simp add: session_def)
qed

lemma session_append:
  assumes "session st" and "zcurses_windows st' = zcurses_windows st @ xs"
  shows "session st'"
proof -
  from assms(1) obtain i where i: "zcurses_getwindowbyname (zcurses_windows st) ''stdscr'' = Some i"
    and p: "flags (zcurses_windows st ! i) AND ZCWF_PERMANENT \<noteq> 0"
    by (auto simp add: session_def split: option.splits)
  from getwindowbyname_bound [OF i] have "i < length (zcurses_windows st)" by simp
  with getwindowbyname_append [OF i, of xs] p assms(2) show ?thesis
    by (simp add: session_def nth_append)
qed

lemma session_remnode:
  assumes "session st"
    and "zcurses_getwindowbyname (zcurses_windows st) a0 = Some j"
    and "flags (zcurses_windows st ! j) AND ZCWF_PERMANENT = 0"
    and "zcurses_windows st' = remnode (zcurses_windows st) j"
  shows "session st'"
proof -
  from assms(1) obtain i where i: "zcurses_getwindowbyname (zcurses_windows st) ''stdscr'' = Some i"
    and p: "flags (zcurses_windows st ! i) AND ZCWF_PERMANENT \<noteq> 0"
    by (auto simp add: session_def split: option.splits)
  from i assms(2,3) p have "a0 \<noteq> ''stdscr''" by auto
  with getwindowbyname_bound [OF assms(2)]
  have "name (zcurses_windows st ! j) \<noteq> ''stdscr''" and "j < length (zcurses_windows st)"
    by auto
  from getwindowbyname_remnode [OF i this] p assms(4) show ?thesis
    by (auto simp add: session_def)
qed

lemma bin_zcurses_session:
  assumes "session st" and "bin_zcurses e st c = Some (r, st')"
  shows "session st'"
proof (cases "zcurses_windows st' = zcurses_windows st")
  case True
  from assms(1) show ?thesis
    unfolding session_def True .
next
  case changed: False
  show ?thesis
  proof (cases c)
    case Cmd_init
    with assms(2) have "zccmd_init e st = (r, st')"
      by (simp add: bin_zcurses_def)
    with init_windows_case [where e = e and st = st] changed assms(1) show ?thesis
      by (auto simp add: session_def)
  next
    case (Cmd_addwin a0 a1 a2 a3 a4)
    with assms(2) changed have "zccmd_addwin e st a0 a1 a2 a3 a4 = (r, st')"
      by (auto simp add: bin_zcurses_def zwarnnam_def split: if_splits)
    from addwin_frame [OF this] changed session_append [OF assms(1)] show ?thesis by auto
  next
    case (Cmd_delwin a0)
    with assms(2) changed have "zccmd_delwin e st a0 = (r, st')"
      by (auto simp add: bin_zcurses_def zwarnnam_def split: if_splits)
    from delwin_frame [OF this] changed session_remnode [OF assms(1)] show ?thesis by auto
  next
    case (Cmd_attr a0 as)
    with assms(2) changed have "zccmd_attr e st (Some a0) as = Some (r, st')"
      by (auto simp add: bin_zcurses_def zwarnnam_def split: if_splits)
    from attr_windows [OF this] changed show ?thesis by simp
  next
    case (Cmd_scroll a0 a1)
    with assms(2) changed have "zccmd_scroll e st a0 a1 = (r, st')"
      by (auto simp add: bin_zcurses_def zwarnnam_def split: if_splits)
    from scroll_frame [OF this]
    have "map name (zcurses_windows st') = map name (zcurses_windows st)"
      and "map (\<lambda>w. flags w AND ZCWF_PERMANENT) (zcurses_windows st') =
           map (\<lambda>w. flags w AND ZCWF_PERMANENT) (zcurses_windows st)"
      by simp_all
    from session_windows [OF assms(1) this refl] show ?thesis .
  next
    case (Cmd_input a0 a1 a2)
    with assms(2) changed have "zccmd_input e st a0 a1 a2 = (r, st')"
      by (auto simp add: bin_zcurses_def zwarnnam_def split: if_splits)
    from input_frame [OF this] changed show ?thesis by simp
  qed
qed

text \<open>
  Every state that a script reaches from the initial one is that of a started session, or
  has no \<open>stdscr\<close> yet: only \<open>zccmd_init\<close> is let through without one.
\<close>

lemma getwindowbyname_append_new:
  "zcurses_getwindowbyname ws nm = None \<Longrightarrow> name w = nm \<Longrightarrow>
   zcurses_getwindowbyname (ws @ [w]) nm = Some (length ws)"
  by (induction ws) (auto split: if_splits)

lemma bin_zcurses_started:
  assumes "zcurses_getwindowbyname (zcurses_windows st) ''stdscr'' = None \<or> session st"
    and "bin_zcurses e st c = Some (r, st')"
  shows "zcurses_getwindowbyname (zcurses_windows st') ''stdscr'' = None \<or> session st'"
proof (cases "session st")
  case True
  from bin_zcurses_session [OF True assms(2)] show ?thesis by simp
next
  case False
  with assms(1) have none: "zcurses_getwindowbyname (zcurses_windows st) ''stdscr'' = None"
    by simp
  show ?thesis
  proof (cases "c = Cmd_init")
    case True
    with assms(2) have i: "zccmd_init e st = (r, st')"
      by (simp add: bin_zcurses_def)
    show ?thesis
    proof (cases "zcurses_windows st' = zcurses_windows st")
      case True
      with none show ?thesis by simp
    next
      case False
      with init_windows_case [where e = e and st = st] i
      obtain h where w: "zcurses_windows st' =
          zcurses_windows st @ [\<lparr>win = h, name = ''stdscr'', flags = ZCWF_PERMANENT\<rparr>]"
        by auto
      from getwindowbyname_append_new [OF none, of "\<lparr>win = h, name = ''stdscr'', flags = ZCWF_PERMANENT\<rparr>"]
      have "zcurses_getwindowbyname (zcurses_windows st') ''stdscr'' = Some (length (zcurses_windows st))"
        by (simp add: w)
      then have "session st'"
        by (simp add: session_def w ZCWF_PERMANENT_def)
      then show ?thesis by simp
    qed
  next
    case False
    with assms(2) none have "zcurses_windows st' = zcurses_windows st"
      by (auto simp add: bin_zcurses_def zwarnnam_def split: if_splits)
    with none show ?thesis by simp
  qed
qed

lemma run_started:
  assumes "run e cs zstate0 = Some (rs, st)"
  shows "zcurses_getwindowbyname (zcurses_windows st) ''stdscr'' = None \<or> session st"
proof -
  have "zcurses_getwindowbyname (zcurses_windows zstate0) ''stdscr'' = None \<or> session zstate0"
    by (simp add: zstate0_def)
  from run_inv [where P = "\<lambda>s. zcurses_getwindowbyname (zcurses_windows s) ''stdscr'' = None \<or> session s",
      OF bin_zcurses_started this assms]
  show ?thesis .
qed

lemma colorset_cached:
  assumes "cached k p s" and "zcurses_colorset e s w a = Some (r, s')"
  shows "cached k p s'"
proof -
  from assms(1) obtain ht where ph: "zc_color_phase s \<noteq> 1"
    and t: "zcurses_colorpairs s = Some ht" and k: "ht k = Some p"
    by (auto simp add: cached_def split: option.splits)
  show ?thesis
  proof (cases "ht a")
    case (Some q)
    from colorset_hit [OF ph t Some, of e w] assms(2) ph t k show ?thesis
      by (auto simp add: cached_def)
  next
    case None
    with k have ne: "a \<noteq> k" by auto
    from ph t None assms(2) have "colorset_alloc e s w a = Some (r, s')"
      by (simp add: zcurses_colorset_def)
    from colorset_alloc_frame [OF this] t k ne show ?thesis
      by (auto simp add: cached_def)
  qed
qed

lemma cached_same:
  "zc_color_phase s' = zc_color_phase s \<Longrightarrow> zcurses_colorpairs s' = zcurses_colorpairs s \<Longrightarrow>
   cached k p s \<Longrightarrow> cached k p s'"
  by (simp add: cached_def)

lemma bin_zcurses_cached:
  assumes "session st" and "cached k p st" and "bin_zcurses e st c = Some (r, st')"
  shows "cached k p st'"
proof (cases "st' = zwarnnam st Too_few_arguments \<or> st' = zwarnnam st Cant_be_used_before_init")
  case True
  with assms(2) show ?thesis by (auto simp add: zwarnnam_def cached_def)
next
  case False
  show ?thesis
  proof (cases c)
    case Cmd_init
    from assms(1) obtain i where "zcurses_getwindowbyname (zcurses_windows st) ''stdscr'' = Some i"
      by (auto simp add: session_def split: option.splits)
    from init_started [OF this, of e] Cmd_init assms(3)
    have "st' = st\<lparr>trace := trace st @ [Settyinfo Curses_tty_state]\<rparr>"
      by (simp add: bin_zcurses_def)
    with assms(2) show ?thesis by (simp add: cached_def)
  next
    case (Cmd_addwin a0 a1 a2 a3 a4)
    with assms(3) False have "zccmd_addwin e st a0 a1 a2 a3 a4 = (r, st')"
      by (auto simp add: bin_zcurses_def split: if_splits)
    from addwin_frame [OF this] assms(2) show ?thesis by (simp add: cached_same)
  next
    case (Cmd_delwin a0)
    with assms(3) False have "zccmd_delwin e st a0 = (r, st')"
      by (auto simp add: bin_zcurses_def split: if_splits)
    from delwin_frame [OF this] assms(2) show ?thesis by (simp add: cached_same)
  next
    case (Cmd_attr a0 as)
    with assms(3) False have a: "zccmd_attr e st (Some a0) as = Some (r, st')"
      by (auto simp add: bin_zcurses_def split: if_splits)
    show ?thesis
    proof (cases "fst (zcurses_validate_window st (Some a0) ZCURSES_USED)")
      case None
      with a assms(2) show ?thesis
        by (auto simp add: zccmd_attr_def zwarnnam_def validate_used cached_def
            split: prod.splits if_splits option.splits)
    next
      case (Some i)
      then have "a0 \<noteq> []" and "zcurses_getwindowbyname (zcurses_windows st) a0 = Some i"
        by (simp_all add: validate_resolves)
      with a have l: "attr_loop e (win (zcurses_windows st ! i)) as (0, st\<lparr>zc_errno := 0\<rparr>) = Some (r, st')"
        by (simp add: zccmd_attr_def validate_used)
      have "cached k p s'" if "cached k p s" and "attr_token e s w a = Some (f, s')"
        for s w a f s'
        using attr_token_colors [OF that(2)] that(1) colorset_cached [OF that(1)]
        by (auto simp add: cached_same)
      from attr_loop_inv [where P = "cached k p", OF this _ l] assms(2)
      show ?thesis by (simp add: cached_def)
    qed
  next
    case (Cmd_scroll a0 a1)
    with assms(3) False have "zccmd_scroll e st a0 a1 = (r, st')"
      by (auto simp add: bin_zcurses_def split: if_splits)
    from scroll_frame [OF this] assms(2) show ?thesis by (simp add: cached_same)
  next
    case (Cmd_input a0 a1 a2)
    with assms(3) False have "zccmd_input e st a0 a1 a2 = (r, st')"
      by (auto simp add: bin_zcurses_def split: if_splits)
    from input_frame [OF this] assms(2) show ?thesis by (simp add: cached_same)
  qed
qed

lemma run_cached:
  assumes "session st" and "cached k p st" and "run e cs st = Some (rs, st')"
  shows "cached k p st'"
proof -
  have "session s' \<and> cached k p s'"
    if "session s \<and> cached k p s" and "bin_zcurses e s c = Some (r, s')" for s c r s'
    using that bin_zcurses_session bin_zcurses_cached by blast
  from run_inv [where P = "\<lambda>s. session s \<and> cached k p s", OF this _ assms(3)] assms(1,2)
  show ?thesis by simp
qed

lemma cached_hit:
  assumes "cached k p s"
  shows "zcurses_colorset e s w k =
           Some (if lib_ok e (trace s) (Wcolor_set w p) then 0 else 1,
                 s\<lparr>trace := trace s @ [Wcolor_set w p]\<rparr>)"
proof -
  from assms obtain ht where "zc_color_phase s \<noteq> 1"
    and "zcurses_colorpairs s = Some ht" and "ht k = Some p"
    by (auto simp add: cached_def split: option.splits)
  then show ?thesis by (rule colorset_hit)
qed

text \<open>What a resolution that returns 0 has done.\<close>

lemma colorset_success:
  assumes "zcurses_colorset e st w k = Some (0, st1)"
  shows "(zc_color_phase st \<noteq> 1 \<and>
          (\<exists>ht p. zcurses_colorpairs st = Some ht \<and> ht k = Some p \<and>
                   st1 = st\<lparr>trace := trace st @ [Wcolor_set w p]\<rparr>)) \<or>
         (\<exists>ht f b. zcurses_colorpairs st = Some ht \<and> key_colors k = Some (f, b) \<and>
            (zc_color_phase st = 1 \<or> ht k = None) \<and>
            st1 = st\<lparr>zc_color_phase := 2, next_cp := next_cp st + 1,
                      zcurses_colorpairs := Some (ht(k \<mapsto> next_cp st + 1)),
                      trace := trace st @ [Init_pair (next_cp st + 1) f b, Zalloc,
                                           Wcolor_set w (next_cp st + 1)]\<rparr>)"
proof (cases "zc_color_phase st \<noteq> 1 \<and> (\<exists>ht p. zcurses_colorpairs st = Some ht \<and> ht k = Some p)")
  case True
  then obtain ht p where ph: "zc_color_phase st \<noteq> 1" and t: "zcurses_colorpairs st = Some ht"
    and k: "ht k = Some p" by blast
  from colorset_hit [OF ph t k, of e w] assms ph t k show ?thesis
    by auto
next
  case False
  with assms have a: "colorset_alloc e st w k = Some (0, st1)"
    and m: "zc_color_phase st = 1 \<or> (\<exists>ht. zcurses_colorpairs st = Some ht \<and> ht k = None)"
    by (auto simp add: zcurses_colorset_def split: if_splits option.splits)
  show ?thesis
  proof (cases "key_colors k")
    case None
    from alloc_rejected_key [OF this, of e st w] a show ?thesis by auto
  next
    case (Some fb)
    obtain f b where fb: "key_colors k = Some (f, b)" using Some by (cases fb) simp
    from a obtain ht where t: "zcurses_colorpairs st = Some ht"
      and s: "st1 = st\<lparr>zc_color_phase := 2, next_cp := next_cp st + 1,
                      zcurses_colorpairs := Some (ht(k \<mapsto> next_cp st + 1)),
                      trace := trace st @ [Init_pair (next_cp st + 1) f b, Zalloc,
                                           Wcolor_set w (next_cp st + 1)]\<rparr>"
      by (auto simp add: alloc_valid_key [OF fb] Let_def split: if_splits option.splits)
    from m t have "zc_color_phase st = 1 \<or> ht k = None" by auto
    with t fb s show ?thesis by blast
  qed
qed

text \<open>
  C1, as the code has it. When \<open>zcurses_colorset\<close> has returned 0 for a key, it has applied
  an identifier \<open>p\<close> with \<open>wcolor_set\<close>, and after any script run from there in a started
  session, every resolution of the same key string, on whatever window, does nothing
  but call \<open>wcolor_set\<close> with the same \<open>p\<close>: no \<open>init_pair\<close>, and the counter and the table
  stay as they are. When that first resolution was made in phase 1, it did not look at
  the table: it advanced the counter, defined the pair of the new counter value with
  \<open>init_pair\<close> and bound the key to it, whatever the table had for the key. (A resolution
  in phase 1 that does not return 0 because the key, the capacity or the library stops
  it has allocated nothing.)
\<close>

theorem resolved_key_keeps_pair:
  assumes "zcurses_colorset e st w k = Some (0, st1)"
  shows "\<exists>p. trace st1 \<noteq> [] \<and> last (trace st1) = Wcolor_set w p \<and>
           (\<forall>cs rs st2 w2. session st1 \<and> run e cs st1 = Some (rs, st2) \<longrightarrow>
              zcurses_colorset e st2 w2 k =
                Some (if lib_ok e (trace st2) (Wcolor_set w2 p) then 0 else 1,
                      st2\<lparr>trace := trace st2 @ [Wcolor_set w2 p]\<rparr>)) \<and>
           (zc_color_phase st = 1 \<longrightarrow>
              p = next_cp st + 1 \<and> next_cp st1 = next_cp st + 1 \<and>
              (\<exists>f b. key_colors k = Some (f, b) \<and>
                     trace st1 = trace st @ [Init_pair p f b, Zalloc, Wcolor_set w p]) \<and>
              (\<exists>ht. zcurses_colorpairs st = Some ht \<and>
                    zcurses_colorpairs st1 = Some (ht(k \<mapsto> p))))"
proof -
  from colorset_success [OF assms]
  consider (hit) ht p where "zc_color_phase st \<noteq> 1" "zcurses_colorpairs st = Some ht"
      "ht k = Some p" "st1 = st\<lparr>trace := trace st @ [Wcolor_set w p]\<rparr>"
    | (new) ht f b where "zcurses_colorpairs st = Some ht" "key_colors k = Some (f, b)"
      "st1 = st\<lparr>zc_color_phase := 2, next_cp := next_cp st + 1,
                      zcurses_colorpairs := Some (ht(k \<mapsto> next_cp st + 1)),
                      trace := trace st @ [Init_pair (next_cp st + 1) f b, Zalloc,
                                           Wcolor_set w (next_cp st + 1)]\<rparr>"
    by blast
  then show ?thesis
  proof cases
    case hit
    then have c: "cached k p st1"
      by (simp add: cached_def)
    have later: "zcurses_colorset e st2 w2 k =
                Some (if lib_ok e (trace st2) (Wcolor_set w2 p) then 0 else 1,
                      st2\<lparr>trace := trace st2 @ [Wcolor_set w2 p]\<rparr>)"
      if "session st1 \<and> run e cs st1 = Some (rs, st2)" for cs rs st2 w2
      using that run_cached [OF _ c] cached_hit by blast
    have 1: "trace st1 \<noteq> []" and 2: "last (trace st1) = Wcolor_set w p"
      using hit(4) by simp_all
    have 3: "\<forall>cs rs st2 w2. session st1 \<and> run e cs st1 = Some (rs, st2) \<longrightarrow>
              zcurses_colorset e st2 w2 k =
                Some (if lib_ok e (trace st2) (Wcolor_set w2 p) then 0 else 1,
                      st2\<lparr>trace := trace st2 @ [Wcolor_set w2 p]\<rparr>)"
      by (intro allI impI) (rule later)
    have 4: "zc_color_phase st = 1 \<longrightarrow>
              p = next_cp st + 1 \<and> next_cp st1 = next_cp st + 1 \<and>
              (\<exists>f b. key_colors k = Some (f, b) \<and>
                     trace st1 = trace st @ [Init_pair p f b, Zalloc, Wcolor_set w p]) \<and>
              (\<exists>ht. zcurses_colorpairs st = Some ht \<and>
                    zcurses_colorpairs st1 = Some (ht(k \<mapsto> p)))"
      using hit(1) by simp
    from 1 2 3 4 show ?thesis
      by (intro exI [of _ p] conjI)
  next
    case new
    define p where "p = next_cp st + 1"
    from new(3) have c: "cached k p st1"
      by (simp add: cached_def p_def)
    have later: "zcurses_colorset e st2 w2 k =
                Some (if lib_ok e (trace st2) (Wcolor_set w2 p) then 0 else 1,
                      st2\<lparr>trace := trace st2 @ [Wcolor_set w2 p]\<rparr>)"
      if "session st1 \<and> run e cs st1 = Some (rs, st2)" for cs rs st2 w2
      using that run_cached [OF _ c] cached_hit by blast
    have 1: "trace st1 \<noteq> []" and 2: "last (trace st1) = Wcolor_set w p"
      using new(3) by (simp_all add: p_def)
    have 3: "\<forall>cs rs st2 w2. session st1 \<and> run e cs st1 = Some (rs, st2) \<longrightarrow>
              zcurses_colorset e st2 w2 k =
                Some (if lib_ok e (trace st2) (Wcolor_set w2 p) then 0 else 1,
                      st2\<lparr>trace := trace st2 @ [Wcolor_set w2 p]\<rparr>)"
      by (intro allI impI) (rule later)
    have 4: "zc_color_phase st = 1 \<longrightarrow>
              p = next_cp st + 1 \<and> next_cp st1 = next_cp st + 1 \<and>
              (\<exists>f b. key_colors k = Some (f, b) \<and>
                     trace st1 = trace st @ [Init_pair p f b, Zalloc, Wcolor_set w p]) \<and>
              (\<exists>ht. zcurses_colorpairs st = Some ht \<and>
                    zcurses_colorpairs st1 = Some (ht(k \<mapsto> p)))"
      using new by (simp add: p_def)
    from 1 2 3 4 show ?thesis
      by (intro exI [of _ p] conjI)
  qed
qed

theorem resolved_key_keeps_pair_witness:
  "zcurses_colorset env_ok s_w 8 ''red/blue'' = Some (0, s_rb) \<and> session s_rb \<and>
   map_option fst (run env_ok [Cmd_attr ''w'' [''green/blue''], Cmd_scroll ''w'' ''on''] s_rb) =
     Some [0, 0] \<and>
   (\<exists>st2. map_option snd (run env_ok [Cmd_attr ''w'' [''green/blue''], Cmd_scroll ''w'' ''on''] s_rb) =
            Some st2 \<and>
          zcurses_colorset env_ok st2 2 ''red/blue'' =
            Some (0, st2\<lparr>trace := trace st2 @ [Wcolor_set 2 1]\<rparr>) \<and>
          next_cp st2 = 2) \<and>
   zc_color_phase s_w = 1 \<and> next_cp s_rb = next_cp s_w + 1 \<and>
   trace s_rb = trace s_w @ [Init_pair 1 1 4, Zalloc, Wcolor_set 8 1]"
proof -
  let ?cs = "[Cmd_attr ''w'' [''green/blue''], Cmd_scroll ''w'' ''on'']"
  have 1: "zcurses_colorset env_ok s_w 8 ''red/blue'' = Some (0, s_rb)"
    by (simp add: s_rb_def s_w_eq color_defs env_ok_def step_defs const_defs)
  have 2: "session s_rb"
    by (simp add: session_def s_rb_def s_w_eq const_defs)
  obtain rs st2 where 3: "run env_ok ?cs s_rb = Some (rs, st2)"
    by (simp add: s_rb_def s_w_eq bin_zcurses_def zccmd_scroll_def attr_defs color_defs env_ok_def
        step_defs const_defs)
  then have 4: "rs = [0, 0]" and 5: "next_cp st2 = 2"
    by (auto simp add: s_rb_def s_w_eq bin_zcurses_def zccmd_scroll_def attr_defs color_defs
        env_ok_def step_defs const_defs)
  from resolved_key_keeps_pair [OF 1] obtain p where
    l: "last (trace s_rb) = Wcolor_set 8 p"
    and a: "\<forall>cs rs st2 w2. session s_rb \<and> run env_ok cs s_rb = Some (rs, st2) \<longrightarrow>
              zcurses_colorset env_ok st2 w2 ''red/blue'' =
                Some (if lib_ok env_ok (trace st2) (Wcolor_set w2 p) then 0 else 1,
                      st2\<lparr>trace := trace st2 @ [Wcolor_set w2 p]\<rparr>)"
    by blast
  from l have p: "p = 1"
    by (simp add: s_rb_def)
  from a [rule_format, of ?cs rs st2 2] 2 3 p
  have 6: "zcurses_colorset env_ok st2 2 ''red/blue'' =
            Some (0, st2\<lparr>trace := trace st2 @ [Wcolor_set 2 1]\<rparr>)"
    by (simp add: env_ok_def)
  have 7: "zc_color_phase s_w = 1 \<and> next_cp s_rb = next_cp s_w + 1 \<and>
   trace s_rb = trace s_w @ [Init_pair 1 1 4, Zalloc, Wcolor_set 8 1]"
    by (simp add: s_rb_def s_w_eq)
  from 1 2 3 4 5 6 7 show ?thesis
    by simp
qed

text \<open>
  The first resolution after \<open>init\<close>, with a library that rejects the pair: it returns 1,
  the table is still empty and no pair has been defined.
\<close>

theorem first_resolution_may_fail:
  "map_option fst (run env_err [Cmd_init, Cmd_addwin ''w'' ''10'' ''40'' ''0'' ''0''] zstate0) =
     Some [0, 0] \<and>
   map_option snd (run env_err [Cmd_init, Cmd_addwin ''w'' ''10'' ''40'' ''0'' ''0''] zstate0) =
     Some s_w \<and>
   zc_color_phase s_w = 1 \<and>
   zcurses_colorset env_err s_w 8 ''red/blue'' =
     Some (1, s_w\<lparr>zc_color_phase := 2, next_cp := 1,
                   trace := trace s_w @ [Init_pair 1 1 4]\<rparr>) \<and>
   zcurses_colorpairs s_w = Some Map.empty"
  by (simp add: s_w_eq zstate0_def bin_zcurses_def zccmd_init_def zccmd_addwin_def color_defs
      env_err_def env_ok_def step_defs const_defs)

section \<open>A failed allocation keeps the counter advanced\<close>

lemma colorset_counter:
  assumes "zcurses_colorset e s w k = Some (r, s')"
  shows "next_cp s' = next_cp s \<or> next_cp s' = next_cp s + 1"
proof (cases "colorset_alloc e s w k = Some (r, s')")
  case True
  show ?thesis
  proof (cases "key_colors k")
    case None
    from alloc_rejected_key [OF this, of e s w] True show ?thesis by auto
  next
    case (Some fb)
    obtain f b where fb: "key_colors k = Some (f, b)" using Some by (cases fb) simp
    from True show ?thesis
      by (auto simp add: alloc_valid_key [OF fb] Let_def split: if_splits option.splits)
  qed
next
  case False
  with assms obtain p where "colorset_apply e s w p = (r, s')"
    by (auto simp add: zcurses_colorset_def split: if_splits option.splits)
  from colorset_apply_frame [OF this] show ?thesis by simp
qed

text \<open>
  What \<open>pairs_left\<close> counts. With a library that accepts the pair and a counter that has not
  reached 32767, an attempt for a well-formed key that is not served from the table
  enters the key exactly when an identifier is left; when none is left it fails at the
  capacity test, without a call to the library.
\<close>

lemma pairs_left_decides:
  assumes "zcurses_colorpairs st = Some ht"
    and "zc_color_phase st = 1 \<or> ht k = None"
    and "key_colors k = Some (f, b)"
    and "sint (next_cp st) < 32767"
    and "\<forall>h p f b. lib_ok e h (Init_pair p f b)" and "\<forall>h. lib_ok e h Zalloc"
  shows "if pairs_left e st = 0
         then zcurses_colorset e st w k =
                Some (1, st\<lparr>zc_color_phase := 2, next_cp := next_cp st + 1\<rparr>)
         else \<exists>r st'. zcurses_colorset e st w k = Some (r, st') \<and>
                zcurses_colorpairs st' = Some (ht(k \<mapsto> next_cp st + 1)) \<and>
                pairs_left e st' + 1 = pairs_left e st"
proof -
  from assms(1,2) have a: "zcurses_colorset e st w k = colorset_alloc e st w k"
    by (auto simp add: colorset_miss)
  from sint_succ_16 [OF assms(4)] have s: "sint (next_cp st + 1) = sint (next_cp st) + 1" .
  show ?thesis
  proof (cases "pairs_left e st = 0")
    case True
    with s have "COLOR_PAIRS e \<le> sint (next_cp st + 1)"
      by (simp add: pairs_left_def)
    with True a show ?thesis
      by (simp add: alloc_valid_key [OF assms(3)] Let_def)
  next
    case False
    with s have "\<not> COLOR_PAIRS e \<le> sint (next_cp st + 1)"
      by (simp add: pairs_left_def)
    with False a assms(1,5,6) s show ?thesis
      by (auto simp add: alloc_valid_key [OF assms(3)] Let_def pairs_left_def)
  qed
qed

text \<open>
  The counter is a \<open>short\<close>: from 32767 it goes to -32768, which is below any capacity, so
  the capacity test lets the attempt through again and \<open>init_pair\<close> is asked for the pair
  -32768 (the word 32768 read as a signed number).
\<close>

lemma counter_wraps:
  "zcurses_colorset env_ok (s_w\<lparr>next_cp := 32767\<rparr>) 8 ''red/blue'' =
     Some (0, s_w\<lparr>zc_color_phase := 2, next_cp := 32768,
                   zcurses_colorpairs := Some [''red/blue'' \<mapsto> 32768],
                   trace := trace s_w @ [Init_pair 32768 1 4, Zalloc, Wcolor_set 8 32768]\<rparr>) \<and>
   sint (32768 :: short) = - 32768"
  by (simp add: s_w_eq color_defs env_ok_def step_defs const_defs)

text \<open>
  A call that allocates a pair: the key is well formed and was not in the table, the
  counter is below the capacity after its increment, and the key is entered with it.
\<close>

lemma allocated_step:
  assumes "zcurses_colorpairs s = Some ht"
    and "zc_color_phase s = 1 \<longrightarrow> ht = Map.empty"
    and "zcurses_colorset e s w k = Some (r, s1)"
    and "allocated s k s1"
  shows "key_colors k \<noteq> None \<and> ht k = None \<and> \<not> COLOR_PAIRS e \<le> sint (next_cp s + 1) \<and>
         zcurses_colorpairs s1 = Some (ht(k \<mapsto> next_cp s + 1)) \<and> zc_color_phase s1 = 2 \<and>
         next_cp s1 = next_cp s + 1"
proof (cases "zc_color_phase s \<noteq> 1 \<and> ht k \<noteq> None")
  case True
  then obtain p where p: "ht k = Some p" by auto
  from colorset_hit [OF _ assms(1) p, of e w] True assms(3)
  have "next_cp s1 = next_cp s" by auto
  with assms(4) show ?thesis
    by (simp add: allocated_def)
next
  case False
  with assms(2) have fresh: "ht k = None" by auto
  with assms(1) have a: "zcurses_colorset e s w k = colorset_alloc e s w k"
    by (simp add: colorset_miss)
  show ?thesis
  proof (cases "key_colors k")
    case None
    from alloc_rejected_key [OF this, of e s w] a assms(3)
    have "next_cp s1 = next_cp s" by auto
    with assms(4) show ?thesis
      by (simp add: allocated_def)
  next
    case (Some fb)
    obtain f b where fb: "key_colors k = Some (f, b)" using Some by (cases fb) simp
    from a assms(3) have c: "colorset_alloc e s w k = Some (r, s1)" by simp
    have t: "zcurses_colorpairs s1 = Some ht \<or>
             (\<not> COLOR_PAIRS e \<le> sint (next_cp s + 1) \<and>
              zcurses_colorpairs s1 = Some (ht(k \<mapsto> next_cp s + 1)))"
      and n: "next_cp s1 = next_cp s + 1" and ph: "zc_color_phase s1 = 2"
      using c assms(1) unfolding alloc_valid_key [OF fb] Let_def
      by (auto split: if_splits)
    from assms(4) n fresh have "zcurses_colorpairs s1 \<noteq> Some ht"
      by (auto simp add: allocated_def)
    with t n ph fb fresh show ?thesis by auto
  qed
qed

lemma allocates_all_keys:
  assumes "allocates_all e w ks s" and "distinct ks"
    and "zcurses_colorpairs s = Some ht" and "zc_color_phase s = 1 \<longrightarrow> ht = Map.empty"
  shows "\<forall>k \<in> set ks. key_colors k \<noteq> None \<and> ht k = None"
  using assms
proof (induction ks arbitrary: s ht)
  case Nil
  then show ?case by simp
next
  case (Cons k ks)
  from Cons.prems(1) obtain r s1 where c: "zcurses_colorset e s w k = Some (r, s1)"
    and al: "allocated s k s1" and rest: "allocates_all e w ks s1"
    by (auto split: option.splits)
  from allocated_step [OF Cons.prems(3,4) c al]
  have k: "key_colors k \<noteq> None" "ht k = None"
    and t1: "zcurses_colorpairs s1 = Some (ht(k \<mapsto> next_cp s + 1))"
    and p1: "zc_color_phase s1 = 2"
    by simp_all
  from Cons.prems(2) have d: "distinct ks" and kn: "k \<notin> set ks" by simp_all
  from p1 have "zc_color_phase s1 = 1 \<longrightarrow> ht(k \<mapsto> next_cp s + 1) = Map.empty" by simp
  from Cons.IH [OF rest d t1 this]
  have "\<forall>k' \<in> set ks. key_colors k' \<noteq> None \<and> (ht(k \<mapsto> next_cp s + 1)) k' = None" .
  with kn have "\<forall>k' \<in> set ks. key_colors k' \<noteq> None \<and> ht k' = None"
    by (auto split: if_splits)
  with k show ?case by simp
qed

lemma allocates_all_room:
  assumes "allocates_all e w ks s" and "ks \<noteq> []"
    and "zcurses_colorpairs s = Some ht" and "zc_color_phase s = 1 \<longrightarrow> ht = Map.empty"
    and "sint (next_cp s) + int (length ks) \<le> 32767"
  shows "sint (next_cp s) + int (length ks) < COLOR_PAIRS e"
  using assms
proof (induction ks arbitrary: s ht)
  case Nil
  then show ?case by simp
next
  case (Cons k ks)
  from Cons.prems(1) obtain r s1 where c: "zcurses_colorset e s w k = Some (r, s1)"
    and al: "allocated s k s1" and rest: "allocates_all e w ks s1"
    by (auto split: option.splits)
  from Cons.prems(5) have "sint (next_cp s) < 32767" by simp
  from sint_succ_16 [OF this] have s1: "sint (next_cp s + 1) = sint (next_cp s) + 1" .
  from allocated_step [OF Cons.prems(3,4) c al]
  have room: "\<not> COLOR_PAIRS e \<le> sint (next_cp s + 1)"
    and t1: "zcurses_colorpairs s1 = Some (ht(k \<mapsto> next_cp s + 1))"
    and p1: "zc_color_phase s1 = 2" and n1: "next_cp s1 = next_cp s + 1"
    by simp_all
  show ?case
  proof (cases "ks = []")
    case True
    with room s1 show ?thesis by simp
  next
    case False
    from p1 have ph: "zc_color_phase s1 = 1 \<longrightarrow> ht(k \<mapsto> next_cp s + 1) = Map.empty" by simp
    from Cons.prems(5) n1 s1 have "sint (next_cp s1) + int (length ks) \<le> 32767" by simp
    from Cons.IH [OF rest False t1 ph this] n1 s1 show ?thesis by simp
  qed
qed

lemma allocates_all_fresh:
  assumes "distinct ks"
    and "\<forall>k \<in> set ks. key_colors k \<noteq> None \<and> ht k = None"
    and "zcurses_colorpairs s = Some ht"
    and "\<forall>h p f b. lib_ok e h (Init_pair p f b)" and "\<forall>h. lib_ok e h Zalloc"
    and "sint (next_cp s) + int (length ks) \<le> 32767"
    and "ks \<noteq> [] \<longrightarrow> sint (next_cp s) + int (length ks) < COLOR_PAIRS e"
  shows "allocates_all e w ks s"
  using assms
proof (induction ks arbitrary: s ht)
  case Nil
  then show ?case by simp
next
  case (Cons k ks)
  from Cons.prems(2) obtain f b where fb: "key_colors k = Some (f, b)" and fresh: "ht k = None"
    by auto
  from Cons.prems(6) have "sint (next_cp s) < 32767" by simp
  from sint_succ_16 [OF this] have s1: "sint (next_cp s + 1) = sint (next_cp s) + 1" .
  from Cons.prems(7) s1 have room: "\<not> COLOR_PAIRS e \<le> sint (next_cp s + 1)" by simp
  from Cons.prems(3) fresh have a: "zcurses_colorset e s w k = colorset_alloc e s w k"
    by (simp add: colorset_miss)
  define s' where "s' = s\<lparr>zc_color_phase := 2, next_cp := next_cp s + 1,
                           zcurses_colorpairs := Some (ht(k \<mapsto> next_cp s + 1)),
                           trace := trace s @ [Init_pair (next_cp s + 1) f b, Zalloc,
                                               Wcolor_set w (next_cp s + 1)]\<rparr>"
  from room Cons.prems(3,4,5) have "\<exists>r. colorset_alloc e s w k = Some (r, s')"
    by (simp add: alloc_valid_key [OF fb] Let_def s'_def)
  with a obtain r where c: "zcurses_colorset e s w k = Some (r, s')" by auto
  have al: "allocated s k s'"
    by (simp add: allocated_def s'_def)
  from Cons.prems(1) have d: "distinct ks" and kn: "k \<notin> set ks" by simp_all
  from Cons.prems(2) kn have v: "\<forall>k' \<in> set ks. key_colors k' \<noteq> None \<and> (ht(k \<mapsto> next_cp s + 1)) k' = None"
    by auto
  have t: "zcurses_colorpairs s' = Some (ht(k \<mapsto> next_cp s + 1))"
    by (simp add: s'_def)
  from Cons.prems(6) s1 have b1: "sint (next_cp s') + int (length ks) \<le> 32767"
    by (simp add: s'_def)
  from Cons.prems(7) s1 have b2: "ks \<noteq> [] \<longrightarrow> sint (next_cp s') + int (length ks) < COLOR_PAIRS e"
    by (simp add: s'_def)
  from Cons.IH [OF d v t Cons.prems(4,5) b1 b2] have "allocates_all e w ks s'" .
  with c al show ?case by simp
qed


text \<open>There are 64 well-formed keys: a colour name, a slash, a colour name.\<close>

lemma strchr_append:
  "c \<notin> set f \<Longrightarrow> strchr (f @ c # b) c = Some (length f)"
  by (induction f) auto

lemma color_names:
  "fst ` set zcurses_colors =
     {''black'', ''red'', ''green'', ''yellow'', ''blue'', ''magenta'', ''cyan'', ''white''}"
  by (auto simp add: zcurses_colors_def)

lemma color_name_ok:
  assumes "x \<in> fst ` set zcurses_colors"
  shows "CHR ''/'' \<notin> set x \<and> zcurses_color x \<noteq> - 1"
  using assms unfolding color_names by (auto simp add: zcurses_color_def zcurses_colors_def)

lemma valid_key_built:
  assumes "f \<in> fst ` set zcurses_colors" and "b \<in> fst ` set zcurses_colors"
  shows "key_colors (f @ CHR ''/'' # b) \<noteq> None"
  using color_name_ok [OF assms(1)] color_name_ok [OF assms(2)]
  by (simp add: key_colors_def strchr_append Let_def)

lemma valid_keys_eq:
  "{k. key_colors k \<noteq> None} =
     (\<lambda>(f, b). f @ CHR ''/'' # b) ` (fst ` set zcurses_colors \<times> fst ` set zcurses_colors)"
proof (rule set_eqI)
  fix k
  show "k \<in> {k. key_colors k \<noteq> None} \<longleftrightarrow>
        k \<in> (\<lambda>(f, b). f @ CHR ''/'' # b) ` (fst ` set zcurses_colors \<times> fst ` set zcurses_colors)"
  proof
    assume "k \<in> {k. key_colors k \<noteq> None}"
    then have "key_colors k \<noteq> None" by (simp del: not_None_eq)
    from valid_key_shape [OF this] show "k \<in> (\<lambda>(f, b). f @ CHR ''/'' # b) `
        (fst ` set zcurses_colors \<times> fst ` set zcurses_colors)" .
  next
    assume "k \<in> (\<lambda>(f, b). f @ CHR ''/'' # b) ` (fst ` set zcurses_colors \<times> fst ` set zcurses_colors)"
    then obtain f b where "k = f @ CHR ''/'' # b" and "f \<in> fst ` set zcurses_colors"
      and "b \<in> fst ` set zcurses_colors"
      by (auto simp del: not_None_eq)
    with valid_key_built [of f b] show "k \<in> {k. key_colors k \<noteq> None}"
      by (simp del: not_None_eq)
  qed
qed

lemma key_inj:
  "inj_on (\<lambda>(f, b). f @ CHR ''/'' # b) (fst ` set zcurses_colors \<times> fst ` set zcurses_colors)"
proof (rule inj_onI)
  fix x y
  assume x: "x \<in> fst ` set zcurses_colors \<times> fst ` set zcurses_colors"
    and y: "y \<in> fst ` set zcurses_colors \<times> fst ` set zcurses_colors"
    and xy: "(case x of (f, b) \<Rightarrow> f @ CHR ''/'' # b) = (case y of (f, b) \<Rightarrow> f @ CHR ''/'' # b)"
  obtain f b where xe: "x = (f, b)" by (cases x)
  obtain f' b' where ye: "y = (f', b')" by (cases y)
  from x xe have f: "f \<in> fst ` set zcurses_colors" by simp
  from y ye have f': "f' \<in> fst ` set zcurses_colors" by simp
  from xy xe ye have eq: "f @ CHR ''/'' # b = f' @ CHR ''/'' # b'" by simp
  from color_name_ok [OF f] color_name_ok [OF f']
  have "strchr (f @ CHR ''/'' # b) (CHR ''/'') = Some (length f)"
    and "strchr (f' @ CHR ''/'' # b') (CHR ''/'') = Some (length f')"
    by (simp_all add: strchr_append)
  with eq have "length f = length f'" by simp
  with eq have "f = f' \<and> b = b'" by simp
  with xe ye show "x = y" by simp
qed

lemma card_valid_keys: "card {k. key_colors k \<noteq> None} = 64"
proof -
  have "card (fst ` set zcurses_colors) = 8"
    unfolding color_names by simp
  then have "card (fst ` set zcurses_colors \<times> fst ` set zcurses_colors) = 64"
    by (simp add: card_cartesian_product)
  with card_image [OF key_inj] show ?thesis
    unfolding valid_keys_eq by simp
qed

lemma finite_valid_keys: "finite {k. key_colors k \<noteq> None}"
  unfolding valid_keys_eq by simp

lemma free_keys_bound: "finite (free_keys s) \<and> card (free_keys s) \<le> 64"
proof -
  have sub: "free_keys s \<subseteq> {k. key_colors k \<noteq> None}"
    by (auto simp add: free_keys_def)
  from finite_subset [OF sub finite_valid_keys] card_mono [OF finite_valid_keys sub]
  show ?thesis unfolding card_valid_keys by simp
qed

lemma free_keys_empty:
  "zcurses_colorpairs s = Some Map.empty \<Longrightarrow> card (free_keys s) = 64"
  using card_valid_keys by (simp add: free_keys_def del: not_None_eq)

text \<open>
  How many further keys can be allocated: as many as there are identifiers and well-formed
  keys left.
\<close>

lemma can_allocate_iff:
  assumes "zcurses_colorpairs s = Some ht"
    and "zc_color_phase s = 1 \<longrightarrow> ht = Map.empty"
    and "sint (next_cp s) + 64 \<le> 32767"
  shows "can_allocate e s m \<longleftrightarrow> m \<le> keys_left e s"
proof
  assume "can_allocate e s m"
  then obtain e' w ks where cp: "COLOR_PAIRS e' = COLOR_PAIRS e" and len: "length ks = m"
    and d: "distinct ks" and al: "allocates_all e' w ks s"
    by (auto simp add: can_allocate_def)
  from allocates_all_keys [OF al d assms(1,2)] assms(1) have "set ks \<subseteq> free_keys s"
    by (auto simp add: free_keys_def)
  with free_keys_bound [of s] have "card (set ks) \<le> card (free_keys s)"
    by (intro card_mono) simp_all
  with d len have m1: "m \<le> card (free_keys s)"
    by (simp add: distinct_card)
  with free_keys_bound [of s] have "m \<le> 64" by simp
  with assms(3) len have b: "sint (next_cp s) + int (length ks) \<le> 32767" by simp
  have "m \<le> pairs_left e s"
  proof (cases "ks = []")
    case True
    with len show ?thesis by simp
  next
    case False
    from allocates_all_room [OF al False assms(1,2) b] cp len show ?thesis
      by (simp add: pairs_left_def)
  qed
  with m1 show "m \<le> keys_left e s"
    by (simp add: keys_left_def)
next
  assume "m \<le> keys_left e s"
  then have m1: "m \<le> card (free_keys s)" and m2: "m \<le> pairs_left e s"
    by (simp_all add: keys_left_def)
  from obtain_subset_with_card_n [OF m1] obtain T where T: "T \<subseteq> free_keys s" "card T = m" "finite T"
    by blast
  from finite_distinct_list [OF T(3)] obtain ks where ks: "set ks = T" "distinct ks"
    by blast
  with T(2) have len: "length ks = m"
    by (simp add: distinct_card [symmetric])
  from ks(1) T(1) assms(1) have v: "\<forall>k \<in> set ks. key_colors k \<noteq> None \<and> ht k = None"
    by (auto simp add: free_keys_def)
  from m1 free_keys_bound [of s] have "m \<le> 64" by simp
  with assms(3) len have b: "sint (next_cp s) + int (length ks) \<le> 32767" by simp
  define e' where "e' = e\<lparr>lib_ok := (\<lambda>h c. True)\<rparr>"
  have acc: "\<forall>h p f b. lib_ok e' h (Init_pair p f b)" "\<forall>h. lib_ok e' h Zalloc"
    and cp: "COLOR_PAIRS e' = COLOR_PAIRS e"
    by (simp_all add: e'_def)
  have r: "ks \<noteq> [] \<longrightarrow> sint (next_cp s) + int (length ks) < COLOR_PAIRS e'"
  proof
    assume "ks \<noteq> []"
    then have "0 < length ks" by simp
    with m2 len cp show "sint (next_cp s) + int (length ks) < COLOR_PAIRS e'"
      unfolding pairs_left_def by linarith
  qed
  from allocates_all_fresh [OF ks(2) v assms(1) acc b r, of 0] have "allocates_all e' 0 ks s" .
  with cp len ks(2) show "can_allocate e s m"
    by (auto simp add: can_allocate_def)
qed

text \<open>
  C9, as the code has it. Take an attempt that reaches \<open>++next_cp\<close> (the key is well formed
  and is looked for in vain, or the phase is 1) and then fails: the counter has reached
  \<open>COLOR_PAIRS\<close>, or \<open>init_pair\<close> rejects the pair, or the node cannot be allocated. It
  returns 1 with the table as it was and the counter one higher, and no call of
  \<open>zcurses_colorset\<close>, in whatever state, does anything to the counter but leave it or
  add 1 to it. While the counter has not reached 32767:
  when an identifier was left, there is one less afterwards; when none was left
  (the failure at the capacity bound), there is still none. And in a state that a script
  reaches (the table is empty in phase 1), with the counter at most 32702: before the
  attempt and after it, \<open>m\<close> further distinct keys can be allocated exactly when \<open>m\<close> is at
  most \<open>keys_left\<close>, the smaller of the number of identifiers left and the number of
  well-formed keys not in the table; this number is one less after the failed attempt when
  an identifier was left and there were no more identifiers than keys, and is what it was
  otherwise.
\<close>

theorem failed_attempt_keeps_counter:
  assumes "zcurses_colorpairs st = Some ht"
    and "zc_color_phase st = 1 \<or> ht k = None"
    and "key_colors k = Some (f, b)"
    and "n = next_cp st + 1"
    and "COLOR_PAIRS e \<le> sint n \<or> \<not> lib_ok e (trace st) (Init_pair n f b) \<or>
         \<not> lib_ok e (trace st @ [Init_pair n f b]) Zalloc"
  shows "\<exists>st'. zcurses_colorset e st w k = Some (1, st') \<and>
           next_cp st' = next_cp st + 1 \<and> zcurses_colorpairs st' = Some ht \<and>
           (\<forall>e2 s w2 k2 r2 st2. zcurses_colorset e2 s w2 k2 = Some (r2, st2) \<longrightarrow>
              next_cp st2 = next_cp s \<or> next_cp st2 = next_cp s + 1) \<and>
           (sint (next_cp st) < 32767 \<longrightarrow>
              (if pairs_left e st = 0 then pairs_left e st' = 0
               else pairs_left e st' + 1 = pairs_left e st) \<and>
              (COLOR_PAIRS e \<le> sint n \<longrightarrow> pairs_left e st = 0)) \<and>
           ((zc_color_phase st = 1 \<longrightarrow> ht = Map.empty) \<and> sint (next_cp st) + 65 \<le> 32767 \<longrightarrow>
              (\<forall>m. can_allocate e st m \<longleftrightarrow> m \<le> keys_left e st) \<and>
              (\<forall>m. can_allocate e st' m \<longleftrightarrow> m \<le> keys_left e st') \<and>
              keys_left e st' =
                (if 0 < pairs_left e st \<and> pairs_left e st \<le> card (free_keys st)
                 then keys_left e st - 1 else keys_left e st))"
proof -
  from assms(1,2) have a: "zcurses_colorset e st w k = colorset_alloc e st w k"
    by (auto simp add: colorset_miss)
  define st' where "st' =
     (if COLOR_PAIRS e \<le> sint n then st\<lparr>zc_color_phase := 2, next_cp := n\<rparr>
      else if \<not> lib_ok e (trace st) (Init_pair n f b)
        then st\<lparr>zc_color_phase := 2, next_cp := n, trace := trace st @ [Init_pair n f b]\<rparr>
      else st\<lparr>zc_color_phase := 2, next_cp := n, trace := trace st @ [Init_pair n f b, Zalloc]\<rparr>)"
  have c: "colorset_alloc e st w k = Some (1, st')"
    using assms(5) unfolding alloc_valid_key [OF assms(3)] assms(4) [symmetric] st'_def Let_def
    by auto
  have n: "next_cp st' = next_cp st + 1" and t: "zcurses_colorpairs st' = Some ht"
    and ph: "zc_color_phase st' = 2"
    using assms(1) by (simp_all add: st'_def assms(4))
  have 1: "zcurses_colorset e st w k = Some (1, st')"
    using a c by simp
  have 2: "\<forall>e2 s w2 k2 r2 st2. zcurses_colorset e2 s w2 k2 = Some (r2, st2) \<longrightarrow>
              next_cp st2 = next_cp s \<or> next_cp st2 = next_cp s + 1"
    using colorset_counter by blast
  have 3: "sint (next_cp st) < 32767 \<longrightarrow>
              (if pairs_left e st = 0 then pairs_left e st' = 0
               else pairs_left e st' + 1 = pairs_left e st) \<and>
              (COLOR_PAIRS e \<le> sint n \<longrightarrow> pairs_left e st = 0)"
  proof
    assume "sint (next_cp st) < 32767"
    from sint_succ_16 [OF this] have "sint (next_cp st + 1) = sint (next_cp st) + 1" .
    with n assms(4) show "(if pairs_left e st = 0 then pairs_left e st' = 0
               else pairs_left e st' + 1 = pairs_left e st) \<and>
              (COLOR_PAIRS e \<le> sint n \<longrightarrow> pairs_left e st = 0)"
      unfolding pairs_left_def by auto
  qed
  have 4: "(zc_color_phase st = 1 \<longrightarrow> ht = Map.empty) \<and> sint (next_cp st) + 65 \<le> 32767 \<longrightarrow>
              (\<forall>m. can_allocate e st m \<longleftrightarrow> m \<le> keys_left e st) \<and>
              (\<forall>m. can_allocate e st' m \<longleftrightarrow> m \<le> keys_left e st') \<and>
              keys_left e st' =
                (if 0 < pairs_left e st \<and> pairs_left e st \<le> card (free_keys st)
                 then keys_left e st - 1 else keys_left e st)"
  proof
    assume h: "(zc_color_phase st = 1 \<longrightarrow> ht = Map.empty) \<and> sint (next_cp st) + 65 \<le> 32767"
    then have fr: "zc_color_phase st = 1 \<longrightarrow> ht = Map.empty"
      and b: "sint (next_cp st) + 64 \<le> 32767" and lt: "sint (next_cp st) < 32767"
      by simp_all
    from sint_succ_16 [OF lt] have s1: "sint (next_cp st + 1) = sint (next_cp st) + 1" .
    from h s1 n have b': "sint (next_cp st') + 64 \<le> 32767" by simp
    from ph have fr': "zc_color_phase st' = 1 \<longrightarrow> ht = Map.empty" by simp
    have fk: "free_keys st' = free_keys st"
      by (simp add: free_keys_def t assms(1))
    from s1 n have pl: "pairs_left e st' = pairs_left e st - 1"
      unfolding pairs_left_def by simp
    have "keys_left e st' =
                (if 0 < pairs_left e st \<and> pairs_left e st \<le> card (free_keys st)
                 then keys_left e st - 1 else keys_left e st)"
      unfolding keys_left_def fk pl by auto
    with can_allocate_iff [OF assms(1) fr b, of e] can_allocate_iff [OF t fr' b', of e]
    show "(\<forall>m. can_allocate e st m \<longleftrightarrow> m \<le> keys_left e st) \<and>
              (\<forall>m. can_allocate e st' m \<longleftrightarrow> m \<le> keys_left e st') \<and>
              keys_left e st' =
                (if 0 < pairs_left e st \<and> pairs_left e st \<le> card (free_keys st)
                 then keys_left e st - 1 else keys_left e st)"
      by simp
  qed
  from 1 n t 2 3 4 show ?thesis
    by (intro exI [of _ st'] conjI)
qed

theorem failed_attempt_keeps_counter_witness:
  "zcurses_colorpairs s_w = Some Map.empty \<and> key_colors ''red/blue'' = Some (1, 4) \<and>
   \<not> lib_ok env_err (trace s_w) (Init_pair 1 1 4) \<and> sint (next_cp s_w) < 32767 \<and>
   pairs_left env_err s_w = 63 \<and> keys_left env_err s_w = 63 \<and>
   (\<exists>st'. zcurses_colorset env_err s_w 8 ''red/blue'' = Some (1, st') \<and>
          next_cp st' = 1 \<and> zcurses_colorpairs st' = Some Map.empty \<and>
          pairs_left env_err st' = 62 \<and> keys_left env_err st' = 62 \<and>
          can_allocate env_err st' 62 \<and> \<not> can_allocate env_err st' 63) \<and>
   pairs_left env_err200 s_w = 199 \<and> keys_left env_err200 s_w = 64 \<and>
   (\<exists>st'. zcurses_colorset env_err200 s_w 8 ''red/blue'' = Some (1, st') \<and>
          pairs_left env_err200 st' = 198 \<and> keys_left env_err200 st' = 64 \<and>
          can_allocate env_err200 st' 64 \<and> \<not> can_allocate env_err200 st' 65)"
proof -
  have 1: "zcurses_colorpairs s_w = Some Map.empty"
    and 2: "zc_color_phase s_w = 1 \<or> Map.empty ''red/blue'' = (None :: short option)"
    and 3: "key_colors ''red/blue'' = Some (1, 4)"
    and 4: "(1 :: short) = next_cp s_w + 1"
    by (simp_all add: s_w_eq key_defs)
  have 5: "COLOR_PAIRS env_err \<le> sint (1 :: short) \<or>
         \<not> lib_ok env_err (trace s_w) (Init_pair 1 1 4) \<or>
         \<not> lib_ok env_err (trace s_w @ [Init_pair 1 1 4]) Zalloc"
    and 15: "COLOR_PAIRS env_err200 \<le> sint (1 :: short) \<or>
         \<not> lib_ok env_err200 (trace s_w) (Init_pair 1 1 4) \<or>
         \<not> lib_ok env_err200 (trace s_w @ [Init_pair 1 1 4]) Zalloc"
    by (simp_all add: env_err200_def env_err_def env_ok_def)
  have 6: "sint (next_cp s_w) < 32767" and 7: "pairs_left env_err s_w = 63"
    and 8: "\<not> lib_ok env_err (trace s_w) (Init_pair 1 1 4)" and 9: "next_cp s_w = 0"
    and 17: "pairs_left env_err200 s_w = 199"
    by (simp_all add: s_w_eq pairs_left_def env_err200_def env_err_def env_ok_def)
  have 10: "(zc_color_phase s_w = 1 \<longrightarrow> (Map.empty :: string \<rightharpoonup> short) = Map.empty) \<and>
            sint (next_cp s_w) + 65 \<le> 32767"
    by (simp add: s_w_eq)
  have 11: "card (free_keys s_w) = 64"
    using 1 by (rule free_keys_empty)
  from 7 11 have 12: "keys_left env_err s_w = 63"
    by (simp add: keys_left_def)
  from 17 11 have 18: "keys_left env_err200 s_w = 64"
    by (simp add: keys_left_def)
  from failed_attempt_keeps_counter [OF 1 2 3 4 5, of 8] 6 7 10 11 12
  obtain st' where a: "zcurses_colorset env_err s_w 8 ''red/blue'' = Some (1, st')"
    and b: "next_cp st' = next_cp s_w + 1" and c: "zcurses_colorpairs st' = Some Map.empty"
    and d: "pairs_left env_err st' + 1 = 63"
    and e: "\<forall>m. can_allocate env_err st' m \<longleftrightarrow> m \<le> keys_left env_err st'"
    and f: "keys_left env_err st' = 62"
    by auto
  from failed_attempt_keeps_counter [OF 1 2 3 4 15, of 8] 6 17 10 11 18
  obtain st2 where a2: "zcurses_colorset env_err200 s_w 8 ''red/blue'' = Some (1, st2)"
    and d2: "pairs_left env_err200 st2 + 1 = 199"
    and e2: "\<forall>m. can_allocate env_err200 st2 m \<longleftrightarrow> m \<le> keys_left env_err200 st2"
    and f2: "keys_left env_err200 st2 = 64"
    by auto
  have x: "\<exists>st'. zcurses_colorset env_err s_w 8 ''red/blue'' = Some (1, st') \<and>
          next_cp st' = 1 \<and> zcurses_colorpairs st' = Some Map.empty \<and>
          pairs_left env_err st' = 62 \<and> keys_left env_err st' = 62 \<and>
          can_allocate env_err st' 62 \<and> \<not> can_allocate env_err st' 63"
    using a b c d e f 9 by (intro exI [of _ st']) simp
  have y: "\<exists>st'. zcurses_colorset env_err200 s_w 8 ''red/blue'' = Some (1, st') \<and>
          pairs_left env_err200 st' = 198 \<and> keys_left env_err200 st' = 64 \<and>
          can_allocate env_err200 st' 64 \<and> \<not> can_allocate env_err200 st' 65"
    using a2 d2 e2 f2 by (intro exI [of _ st2]) simp
  from 1 3 6 7 8 12 17 18 x y show ?thesis
    by (intro conjI)
qed

text \<open>
  With two colour pairs and pair 1 taken, no identifier is left. The next new key fails at
  the capacity bound and the counter goes from 1 to 2; the one after fails too and the
  counter goes to 3. The number of keys that can still be allocated was 0 before each of
  the two failures and is 0 after it: it has not gone down.
\<close>

theorem failure_at_capacity_loses_nothing:
  "map_option snd (run env_cap2 [Cmd_init, Cmd_attr ''stdscr'' [''red/blue'']] zstate0) =
     Some s_one \<and>
   pairs_left env_cap2 s_one = 0 \<and>
   zcurses_colorset env_cap2 s_one 2 ''green/blue'' = Some (1, s_one\<lparr>next_cp := 2\<rparr>) \<and>
   pairs_left env_cap2 (s_one\<lparr>next_cp := 2\<rparr>) = 0 \<and>
   zcurses_colorset env_cap2 (s_one\<lparr>next_cp := 2\<rparr>) 2 ''green/blue'' =
     Some (1, s_one\<lparr>next_cp := 3\<rparr>) \<and>
   pairs_left env_cap2 (s_one\<lparr>next_cp := 3\<rparr>) = 0 \<and>
   can_allocate env_cap2 s_one 0 \<and> \<not> can_allocate env_cap2 s_one 1 \<and>
   can_allocate env_cap2 (s_one\<lparr>next_cp := 2\<rparr>) 0 \<and>
   \<not> can_allocate env_cap2 (s_one\<lparr>next_cp := 2\<rparr>) 1 \<and>
   can_allocate env_cap2 (s_one\<lparr>next_cp := 3\<rparr>) 0 \<and>
   \<not> can_allocate env_cap2 (s_one\<lparr>next_cp := 3\<rparr>) 1"
proof -
  have 1: "map_option snd (run env_cap2 [Cmd_init, Cmd_attr ''stdscr'' [''red/blue'']] zstate0) =
     Some s_one \<and>
   pairs_left env_cap2 s_one = 0 \<and>
   zcurses_colorset env_cap2 s_one 2 ''green/blue'' = Some (1, s_one\<lparr>next_cp := 2\<rparr>) \<and>
   pairs_left env_cap2 (s_one\<lparr>next_cp := 2\<rparr>) = 0 \<and>
   zcurses_colorset env_cap2 (s_one\<lparr>next_cp := 2\<rparr>) 2 ''green/blue'' =
     Some (1, s_one\<lparr>next_cp := 3\<rparr>) \<and>
   pairs_left env_cap2 (s_one\<lparr>next_cp := 3\<rparr>) = 0"
    by (simp add: s_one_def s_init_eq zstate0_def bin_zcurses_def zccmd_init_def attr_defs
        color_defs pairs_left_def env_cap2_def env_ok_def step_defs const_defs)
  have 2: "can_allocate env_cap2 (s_one\<lparr>next_cp := c\<rparr>) m \<longleftrightarrow> m = 0"
    if "c = 1 \<or> c = 2 \<or> c = 3" for c m
  proof -
    have t: "zcurses_colorpairs (s_one\<lparr>next_cp := c\<rparr>) = Some [''red/blue'' \<mapsto> 1]"
      and ph: "zc_color_phase (s_one\<lparr>next_cp := c\<rparr>) = 1 \<longrightarrow>
                 [''red/blue'' \<mapsto> (1 :: short)] = Map.empty"
      by (simp_all add: s_one_def)
    from that have b: "sint (next_cp (s_one\<lparr>next_cp := c\<rparr>)) + 64 \<le> 32767"
      by auto
    from that have "pairs_left env_cap2 (s_one\<lparr>next_cp := c\<rparr>) = 0"
      by (auto simp add: pairs_left_def env_cap2_def env_ok_def)
    then have "keys_left env_cap2 (s_one\<lparr>next_cp := c\<rparr>) = 0"
      by (simp add: keys_left_def)
    with can_allocate_iff [OF t ph b, of env_cap2 m] show ?thesis
      by simp
  qed
  have 3: "s_one\<lparr>next_cp := 1\<rparr> = s_one"
    by (simp add: s_one_def)
  from 2 [of 1 0] 2 [of 1 1] 2 [of 2 0] 2 [of 2 1] 2 [of 3 0] 2 [of 3 1] 3
  have "can_allocate env_cap2 s_one 0 \<and> \<not> can_allocate env_cap2 s_one 1 \<and>
   can_allocate env_cap2 (s_one\<lparr>next_cp := 2\<rparr>) 0 \<and>
   \<not> can_allocate env_cap2 (s_one\<lparr>next_cp := 2\<rparr>) 1 \<and>
   can_allocate env_cap2 (s_one\<lparr>next_cp := 3\<rparr>) 0 \<and>
   \<not> can_allocate env_cap2 (s_one\<lparr>next_cp := 3\<rparr>) 1"
    by simp
  with 1 show ?thesis
    by simp
qed

end
